(* ===== verification/Prelude.thy ===== *)
theory Prelude
  imports "HOL-Library.Word"
begin

text \<open>
  Shared vocabulary of the development: the machine types of the C sources, the two
  ways the sources overwrite memory (\<open>memcpy\<close> to the start of a buffer, and an indexed
  store), the C string functions the components share, and generic facts about lists.
\<close>

unbundle bit_operations_syntax

type_synonym byte = "8 word"
type_synonym bytes = "8 word list"
type_synonym u16 = "16 word"
type_synonym u32 = "32 word"
type_synonym u64 = "64 word"

named_theorems codec_simps
  \<open>round trips and lengths of the fixed-width encoders\<close>

named_theorems io_simps
  \<open>one-step equations of the socket and TLS primitives\<close>

section \<open>Memory\<close>

text \<open>
  \<open>blit src dst\<close> is \<open>dst\<close> after \<open>memcpy (dst, src, length src)\<close>. The callers give a
  \<open>dst\<close> of at least that length; the rest of \<open>dst\<close> keeps its old contents.
\<close>

definition blit :: "'a list \<Rightarrow> 'a list \<Rightarrow> 'a list" where
  "blit src dst = src @ drop (length src) dst"

lemma blit_Nil [simp]: "blit [] dst = dst"
  by (simp add: blit_def)

lemma length_blit [simp]: "length src \<le> length dst \<Longrightarrow> length (blit src dst) = length dst"
  by (simp add: blit_def)

lemma take_blit [simp]: "n \<le> length src \<Longrightarrow> take n (blit src dst) = take n src"
  by (simp add: blit_def)

lemma blit_full [simp]: "length src = length dst \<Longrightarrow> blit src dst = src"
  by (simp add: blit_def)

lemma blit_append: "blit (xs @ ys) dst = xs @ blit ys (drop (length xs) dst)"
  by (simp add: blit_def add.commute)

text \<open>
  \<open>memcpy\<close> from and to an offset of a block, \<open>None\<close> when it leaves the block.
\<close>

definition read_at :: "'a list \<Rightarrow> nat \<Rightarrow> nat \<Rightarrow> 'a list option" where
  "read_at src i n = (if i + n \<le> length src then Some (take n (drop i src)) else None)"

definition write_at :: "'a list \<Rightarrow> nat \<Rightarrow> 'a list \<Rightarrow> 'a list option" where
  "write_at dst i xs =
     (if i + length xs \<le> length dst then Some (take i dst @ xs @ drop (i + length xs) dst) else None)"

lemma write_at_ok:
  assumes "i + length xs \<le> length dst"
  obtains dst' where "write_at dst i xs = Some dst'" "length dst' = length dst"
    "\<And>j. j < length dst \<Longrightarrow> dst' ! j = (if i \<le> j \<and> j < i + length xs then xs ! (j - i) else dst ! j)"
proof -
  let ?d = "take i dst @ xs @ drop (i + length xs) dst"
  have len: "length ?d = length dst" using assms by simp
  have nth: "?d ! j = (if i \<le> j \<and> j < i + length xs then xs ! (j - i) else dst ! j)" if "j < length dst" for j
  proof -
    consider "j < i" | "\<not> j < i" "j - i < length xs" | "\<not> j < i" "\<not> j - i < length xs" "i + length xs \<le> j"
      "j - i - length xs = j - (i + length xs)" by linarith
    then show ?thesis
    proof cases
      case 1
      then show ?thesis using assms by (simp add: nth_append)
    next
      case 2
      then have "i \<le> j" "j < i + length xs" by linarith+
      then show ?thesis using assms 2 by (simp add: nth_append)
    next
      case 3
      have "?d ! j = drop (i + length xs) dst ! (j - (i + length xs))" using assms 3 by (simp add: nth_append)
      also have "\<dots> = dst ! j" using assms that 3 by simp
      finally show ?thesis using 3(3) by simp
    qed
  qed
  show ?thesis using that [of ?d] assms len nth by (simp add: write_at_def)
qed

lemma read_at_ok: "i + n \<le> length src \<Longrightarrow> read_at src i n = Some (take n (drop i src))"
  by (simp add: read_at_def)

section \<open>Lists\<close>

lemma take_drop_split: "k \<le> n \<Longrightarrow> take n xs = take k xs @ take (n - k) (drop k xs)"
  by (metis le_add_diff_inverse take_add)

lemma drop_drop_sub: "k \<le> n \<Longrightarrow> drop (n - k) (drop k xs) = drop n xs"
  by simp

lemma list_of_length2:
  assumes "length xs = 2" obtains a b where "xs = [a, b]"
  using assms by (auto simp: numeral_eq_Suc length_Suc_conv)

lemma list_of_length4:
  assumes "length xs = 4" obtains a b c d where "xs = [a, b, c, d]"
  using assms by (auto simp: numeral_eq_Suc length_Suc_conv)

section \<open>Words\<close>

text \<open>The value of a \<open>uint32_t\<close> expression, where the model keeps it as a natural number.\<close>

definition u32n :: "nat \<Rightarrow> nat" where "u32n n = n mod 2 ^ 32"

lemma u32n_id [simp]: "n < 2 ^ 32 \<Longrightarrow> u32n n = n"
  by (simp add: u32n_def)

lemma unat_ucast_byte [simp]: "unat (ucast (b :: byte) :: u32) = unat b"
proof -
  have "unat b < 2 ^ 8" using unsigned_less [of b] by simp
  then show ?thesis by (simp add: unsigned_ucast_eq take_bit_nat_eq_self)
qed

lemma unat_lt32: "unat (w :: u32) < 2 ^ 32"
  using unsigned_less [of w] by simp

lemma uint_lt32: "uint (w :: u32) < 2 ^ 32"
  using unsigned_less [of w, where 'a = int] by simp

lemma unat_of_nat32: "n < 2 ^ 32 \<Longrightarrow> unat (word_of_nat n :: u32) = n"
  by (simp add: unat_of_nat)

text \<open>Reading a 32-bit value as a C \<open>int\<close>.\<close>

lemma sint_u32:
  "sint (w :: u32) = (if unat w < 2 ^ 31 then int (unat w) else int (unat w) - 2 ^ 32)"
proof -
  have u: "uint w = int (unat w)" by simp
  have lt: "uint w < 2 ^ 32" using unsigned_less [of w, where 'a = int] by simp
  have "sint w = take_bit 32 (uint w) - 2 ^ 32 * of_bool (bit (uint w) 31)"
    by (simp add: sint_uint signed_take_bit_eq_take_bit_minus)
  moreover have "take_bit 32 (uint w) = uint w"
    using lt by (intro take_bit_int_eq_self) simp_all
  moreover have "bit (uint w) 31 \<longleftrightarrow> 2 ^ 31 \<le> uint w"
  proof -
    have "x div 2 ^ 31 = (if 2 ^ 31 \<le> x then 1 else 0)" if "0 \<le> x" "x < 2 ^ 32" for x :: int
      using that int_div_pos_eq [of x "2 ^ 31" 1 "x - 2 ^ 31"] by simp
    then have "uint w div 2 ^ 31 = (if 2 ^ 31 \<le> uint w then 1 else 0)"
      using lt by simp
    then show ?thesis by (simp add: bit_iff_odd)
  qed
  moreover have "2 ^ 31 \<le> int m \<longleftrightarrow> \<not> m < 2 ^ 31" for m by auto
  from this [of "unat w"] have "2 ^ 31 \<le> uint w \<longleftrightarrow> \<not> unat w < 2 ^ 31" by simp
  ultimately show ?thesis by auto
qed

section \<open>C strings\<close>

text \<open>
  A C string is the list of its characters before the terminating zero. A payload is a
  list of bytes; \<open>cstr\<close> gives the bytes of a string with its terminator, as
  \<open>strlen (s) + 1\<close> bytes starting at \<open>s\<close> are.
\<close>

definition byte_of_char :: "char \<Rightarrow> byte" where
  "byte_of_char c = word_of_nat (of_char c)"

definition bytes_of :: "string \<Rightarrow> bytes" where
  "bytes_of s = map byte_of_char s"

definition cstr :: "string \<Rightarrow> bytes" where
  "cstr s = bytes_of s @ [0]"

text \<open>
  \<open>strncpy (dst, s, n - 1); dst[n - 1] = 0\<close> and \<open>snprintf (dst, n, "%s", s)\<close> leave the
  string cut to \<open>n - 1\<close> characters in \<open>dst\<close>.
\<close>

definition cut :: "nat \<Rightarrow> 'a list \<Rightarrow> 'a list" where
  "cut n s = take (n - 1) s"

lemma length_cut: "0 < n \<Longrightarrow> length (cut n s) < n"
  by (simp add: cut_def)

lemma cut_id [simp]: "length s < n \<Longrightarrow> cut n s = s"
  by (simp add: cut_def)

lemma length_bytes_of [simp]: "length (bytes_of s) = length s"
  by (simp add: bytes_of_def)

lemma length_cstr [simp]: "length (cstr s) = Suc (length s)"
  by (simp add: cstr_def)

end
