(* ===== verification/Binary.thy ===== *)
theory Binary
  imports Prelude
begin

text \<open>
  The fixed-width integer encoders of \<open>src/adb/binary.h\<close>. A writer returns the bytes it
  stores from \<open>buf[0]\<close> on; a reader takes the bytes from its pointer on. The contract of
  such a pair is the locale \<open>byte_codec\<close>, interpreted on every pair of the header.
\<close>

section \<open>Encoders\<close>

definition write16be :: "u16 \<Rightarrow> bytes" where
  "write16be v = [ucast (drop_bit 8 v), ucast v]"

definition write32be :: "u32 \<Rightarrow> bytes" where
  "write32be v = [ucast (drop_bit 24 v), ucast (drop_bit 16 v), ucast (drop_bit 8 v), ucast v]"

definition write64be :: "u64 \<Rightarrow> bytes" where
  "write64be v = write32be (ucast (drop_bit 32 v)) @ write32be (ucast v)"

definition read16be :: "bytes \<Rightarrow> u16" where
  "read16be buf = push_bit 8 (ucast (buf ! 0)) OR ucast (buf ! 1)"

definition read32be :: "bytes \<Rightarrow> u32" where
  "read32be buf = push_bit 24 (ucast (buf ! 0)) OR push_bit 16 (ucast (buf ! 1)) OR
                  push_bit 8 (ucast (buf ! 2)) OR ucast (buf ! 3)"

definition read64be :: "bytes \<Rightarrow> u64" where
  "read64be buf = push_bit 32 (ucast (read32be buf)) OR ucast (read32be (drop 4 buf))"

definition read32le :: "bytes \<Rightarrow> u32" where
  "read32le buf = ucast (buf ! 0) OR push_bit 8 (ucast (buf ! 1)) OR
                  push_bit 16 (ucast (buf ! 2)) OR push_bit 24 (ucast (buf ! 3))"

definition write32le :: "u32 \<Rightarrow> bytes" where
  "write32le v = [ucast v, ucast (drop_bit 8 v), ucast (drop_bit 16 v), ucast (drop_bit 24 v)]"

section \<open>The contract of an encoder and its reader\<close>

locale byte_codec =
  fixes width :: nat
    and enc :: "'a \<Rightarrow> bytes"
    and dec :: "bytes \<Rightarrow> 'a"
  assumes enc_width: "length (enc v) = width"
    and dec_enc_append: "dec (enc v @ rest) = v"
    and enc_dec: "length bs = width \<Longrightarrow> enc (dec bs) = bs"
begin

lemma dec_enc: "dec (enc v) = v"
  using dec_enc_append [of v "[]"] by simp

lemma enc_inj: "enc v = enc w \<Longrightarrow> v = w"
  by (metis dec_enc)

lemma dec_take: "width \<le> length bs \<Longrightarrow> dec (take width bs) = dec bs"
proof -
  assume le: "width \<le> length bs"
  then have e: "enc (dec (take width bs)) = take width bs"
    by (intro enc_dec) simp
  have "dec bs = dec (take width bs @ drop width bs)" by simp
  also have "\<dots> = dec (take width bs)"
    using e dec_enc_append [of "dec (take width bs)" "drop width bs"] by simp
  finally show ?thesis by simp
qed

lemma dec_append: "length bs = width \<Longrightarrow> dec (bs @ rest) = dec bs"
  using dec_enc_append [of "dec bs" rest] by (simp add: enc_dec)

lemma take_enc: "take width (enc v @ rest) = enc v"
  by (simp add: enc_width)

lemma drop_enc: "drop width (enc v @ rest) = rest"
  by (simp add: enc_width)

end

section \<open>Bit-level lemmas\<close>

lemma read16be_write_append: "read16be (write16be v @ rest) = v"
  by (rule bit_word_eqI) (auto simp: read16be_def write16be_def bit_simps)

lemma bits_above:
  "\<not> bit (a :: byte) (8 + n)" "\<not> bit (a :: byte) (16 + n)" "\<not> bit (a :: byte) (24 + n)"
  "\<not> bit (x :: u32) (32 + n)"
  by (auto dest: bit_imp_le_length)

lemma bit_slices32:
  fixes v :: u32
  assumes "n < 32"
  shows "n < 8 \<and> bit v n \<or> (8 \<le> n \<and> n - 8 < 8 \<and> bit v (8 + (n - 8))) \<or>
         (16 \<le> n \<and> n - 16 < 8 \<and> bit v (16 + (n - 16))) \<or>
         (24 \<le> n \<and> n - 24 < 8 \<and> bit v (24 + (n - 24))) \<longleftrightarrow> bit v n"
  using assms by (cases "n < 8"; cases "n < 16"; cases "n < 24") auto

lemma read32be_write_append: "read32be (write32be v @ rest) = v"
proof (rule bit_word_eqI)
  fix n assume "n < LENGTH(32)"
  then have "n < 32" by simp
  then show "bit (read32be (write32be v @ rest)) n = bit v n"
    using bit_slices32 [of n v] by (simp add: read32be_def write32be_def bit_simps) auto
qed

lemma read32le_write_append: "read32le (write32le v @ rest) = v"
proof (rule bit_word_eqI)
  fix n assume "n < LENGTH(32)"
  then have "n < 32" by simp
  then show "bit (read32le (write32le v @ rest)) n = bit v n"
    using bit_slices32 [of n v] by (simp add: read32le_def write32le_def bit_simps) auto
qed

lemma length_write [simp, codec_simps]:
  "length (write16be v) = 2" "length (write32be x) = 4" "length (write32le x) = 4"
  "length (write64be y) = 8"
  by (simp_all add: write16be_def write32be_def write32le_def write64be_def)

lemma read64be_write_append: "read64be (write64be v @ rest) = v"
proof -
  have "read64be (write64be v @ rest) =
      push_bit 32 (ucast (ucast (drop_bit 32 v) :: u32)) OR ucast (ucast v :: u32)"
    by (simp add: read64be_def write64be_def read32be_write_append)
  also have "\<dots> = v"
    by (rule bit_word_eqI) (auto simp: bit_simps)
  finally show ?thesis .
qed

lemma write_read16be: "write16be (read16be [a, b]) = [a, b]"
  by (auto intro!: bit_word_eqI simp: bits_above read16be_def write16be_def bit_simps)

lemma write_read32be: "write32be (read32be [a, b, c, d]) = [a, b, c, d]"
  by (auto intro!: bit_word_eqI simp: bits_above read32be_def write32be_def bit_simps)

lemma write_read32le: "write32le (read32le [a, b, c, d]) = [a, b, c, d]"
  by (auto intro!: bit_word_eqI simp: bits_above read32le_def write32le_def bit_simps)

lemma ucast_halves64:
  fixes hi lo :: u32
  shows "(ucast (drop_bit 32 (push_bit 32 (ucast hi :: u64) OR ucast lo)) :: u32) = hi"
    and "(ucast (push_bit 32 (ucast hi :: u64) OR ucast lo) :: u32) = lo"
  by (auto intro!: bit_word_eqI simp: bits_above bit_simps)

interpretation be16: byte_codec 2 write16be read16be
proof unfold_locales
  fix bs :: bytes assume "length bs = 2"
  then show "write16be (read16be bs) = bs"
    by (elim list_of_length2) (simp add: write_read16be)
qed (simp_all add: read16be_write_append)

interpretation be32: byte_codec 4 write32be read32be
proof unfold_locales
  fix bs :: bytes assume "length bs = 4"
  then show "write32be (read32be bs) = bs"
    by (elim list_of_length4) (simp add: write_read32be)
qed (simp_all add: read32be_write_append)

interpretation le32: byte_codec 4 write32le read32le
proof unfold_locales
  fix bs :: bytes assume "length bs = 4"
  then show "write32le (read32le bs) = bs"
    by (elim list_of_length4) (simp add: write_read32le)
qed (simp_all add: read32le_write_append)

interpretation be64: byte_codec 8 write64be read64be
proof unfold_locales
  fix bs :: bytes assume len: "length bs = 8"
  then have "write64be (read64be bs) = write32be (read32be bs) @ write32be (read32be (drop 4 bs))"
    by (simp only: write64be_def read64be_def ucast_halves64)
  also have "\<dots> = take 4 bs @ drop 4 bs"
    using len be32.dec_take [of bs] be32.enc_dec [of "take 4 bs"] be32.enc_dec [of "drop 4 bs"]
    by simp
  finally show "write64be (read64be bs) = bs" by simp
qed (simp_all add: read64be_write_append)

lemmas codec_roundtrips [codec_simps] =
  be16.dec_enc be32.dec_enc le32.dec_enc be64.dec_enc
  be16.dec_enc_append be32.dec_enc_append le32.dec_enc_append be64.dec_enc_append

lemmas codec_takes [codec_simps] =
  be16.take_enc be32.take_enc le32.take_enc be64.take_enc
  be16.drop_enc be32.drop_enc le32.drop_enc be64.drop_enc

end
