(* ===== verification/Sockets.thy ===== *)
theory Sockets
  imports Binary
begin

text \<open>
  The socket calls of \<open>src/platform/platform.h\<close> and the read loop of
  \<open>src/platform/net_util.h\<close>. What the operating system will report on a socket is the
  script \<open>inbound\<close>: the chunks that arrive, in order, with the would-block and error
  reports between them. A script is arbitrary, so every statement over it holds for
  every way the network may cut and delay the data. After the last event of a script, and
  from an empty chunk on, the peer has closed its side: \<open>recv\<close> returns 0.
\<close>

section \<open>Receiving\<close>

datatype sock_event = Arrive bytes | Would_Block | Sock_Error

type_synonym inbound = "sock_event list"

text \<open>The outcomes of \<open>recv\<close>: \<open>n > 0\<close>, \<open>n = 0\<close>, \<open>n < 0\<close> with and without \<open>WOULDBLOCK_ERR\<close>.\<close>

datatype recv_result = Got bytes | Closed | Err_Would_Block | Err_Other

fun recv :: "nat \<Rightarrow> inbound \<Rightarrow> recv_result \<times> inbound" where
  "recv n [] = (Closed, [])"
| "recv n (Would_Block # es) = (Err_Would_Block, es)"
| "recv n (Sock_Error # es) = (Err_Other, es)"
| "recv n (Arrive bs # es) =
     (if bs = [] then (Closed, Arrive bs # es)
      else if length bs \<le> n then (Got bs, es)
      else (Got (take n bs), Arrive (drop n bs) # es))"

lemma recv_Got:
  assumes "recv n s = (Got bs, s')" and "0 < n"
  shows "0 < length bs" and "length bs \<le> n" and "length s' \<le> length s"
  using assms by (cases "(n, s)" rule: recv.cases; auto split: if_splits)+

lemma recv_Would_Block: "recv n s = (Err_Would_Block, s') \<Longrightarrow> length s' < length s"
  by (cases "(n, s)" rule: recv.cases) (auto split: if_splits)

text \<open>
  \<open>recv_all\<close>: read exactly \<open>n\<close> bytes, retrying a would-block report, failing on
  anything else that is not data.
\<close>

function recv_all :: "nat \<Rightarrow> inbound \<Rightarrow> bytes option \<times> inbound" where
  "recv_all n s =
     (if n = 0 then (Some [], s)
      else case recv n s of
        (Got bs, s') \<Rightarrow>
          (case recv_all (n - length bs) s' of
             (Some rest, s'') \<Rightarrow> (Some (bs @ rest), s'')
           | (None, s'') \<Rightarrow> (None, s''))
      | (Err_Would_Block, s') \<Rightarrow> recv_all n s'
      | (Closed, s') \<Rightarrow> (None, s')
      | (Err_Other, s') \<Rightarrow> (None, s'))"
  by pat_completeness auto
termination
proof (relation "measure (\<lambda>(n, s). n + length s)")
  show "wf (measure (\<lambda>(n, s :: inbound). n + length s))" by simp
next
  fix n :: nat and s :: inbound and r s' bs
  assume "n \<noteq> 0" and "(r, s') = recv n s" and "r = Got bs"
  then have "recv n s = (Got bs, s')" and "0 < n" by simp_all
  from recv_Got [OF this]
  show "((n - length bs, s'), n, s) \<in> measure (\<lambda>(n, s). n + length s)"
    unfolding in_measure prod.case by linarith
next
  fix n :: nat and s :: inbound and r s'
  assume "n \<noteq> 0" and "(r, s') = recv n s" and "r = Err_Would_Block"
  then show "((n, s'), n, s) \<in> measure (\<lambda>(n, s). n + length s)"
    using recv_Would_Block [of n s s'] by auto
qed

declare recv_all.simps [simp del]

text \<open>The same loop without the retry, as \<open>adb_recv_msg\<close> and the control socket write it.\<close>

function recv_strict :: "nat \<Rightarrow> inbound \<Rightarrow> bytes option \<times> inbound" where
  "recv_strict n s =
     (if n = 0 then (Some [], s)
      else case recv n s of
        (Got bs, s') \<Rightarrow>
          (case recv_strict (n - length bs) s' of
             (Some rest, s'') \<Rightarrow> (Some (bs @ rest), s'')
           | (None, s'') \<Rightarrow> (None, s''))
      | (_, s') \<Rightarrow> (None, s'))"
  by pat_completeness auto
termination
proof (relation "measure (\<lambda>(n, s). n + length s)")
  show "wf (measure (\<lambda>(n, s :: inbound). n + length s))" by simp
next
  fix n :: nat and s :: inbound and r s' bs
  assume "n \<noteq> 0" and "(r, s') = recv n s" and "r = Got bs"
  then have "recv n s = (Got bs, s')" and "0 < n" by simp_all
  from recv_Got [OF this]
  show "((n - length bs, s'), n, s) \<in> measure (\<lambda>(n, s). n + length s)"
    unfolding in_measure prod.case by linarith
qed

declare recv_strict.simps [simp del]

section \<open>The byte stream of a script\<close>

text \<open>
  \<open>stream s\<close> is what a reader that waits can get from \<open>s\<close>; \<open>ready s\<close> is what a reader
  that gives up on a would-block report can get.
\<close>

fun stream :: "inbound \<Rightarrow> bytes" where
  "stream [] = []"
| "stream (Arrive bs # es) = (if bs = [] then [] else bs @ stream es)"
| "stream (Would_Block # es) = stream es"
| "stream (Sock_Error # es) = []"

fun ready :: "inbound \<Rightarrow> bytes" where
  "ready [] = []"
| "ready (Arrive bs # es) = (if bs = [] then [] else bs @ ready es)"
| "ready (Would_Block # es) = []"
| "ready (Sock_Error # es) = []"

text \<open>
  The interface between a component that parses and the transport below it: \<open>get n\<close>
  delivers the next \<open>n\<close> bytes of what is available, or fails because there are fewer.
\<close>

locale byte_reader =
  fixes get :: "nat \<Rightarrow> 's \<Rightarrow> bytes option \<times> 's"
    and avail :: "'s \<Rightarrow> bytes"
  assumes get_enough: "n \<le> length (avail s) \<Longrightarrow>
      \<exists>s'. get n s = (Some (take n (avail s)), s') \<and> avail s' = drop n (avail s)"
    and get_short: "length (avail s) < n \<Longrightarrow> \<exists>s'. get n s = (None, s')"
begin

lemma get_iff: "fst (get n s) = (if n \<le> length (avail s) then Some (take n (avail s)) else None)"
  using get_enough [of n s] get_short [of s n] by (auto simp: not_le)

lemma get_Some:
  assumes "get n s = (Some bs, s')"
  shows "n \<le> length (avail s)" and "bs = take n (avail s)" and "avail s' = drop n (avail s)"
    and "length bs = n"
proof -
  from assms get_iff [of n s] show le: "n \<le> length (avail s)" by (simp split: if_splits)
  from get_enough [OF le] assms show "bs = take n (avail s)" "avail s' = drop n (avail s)"
    by auto
  with le show "length bs = n" by simp
qed

lemma get_split: "get n s = (Some bs, s') \<Longrightarrow> avail s = bs @ avail s'"
  using get_Some [of n s bs s'] by simp

lemma get_append:
  assumes "avail s = xs @ ys" and "length xs = n"
  obtains s' where "get n s = (Some xs, s')" and "avail s' = ys"
  using get_enough [of n s] assms by auto

lemma get_get:
  assumes "get m s = (Some xs, s1)" and "get n s1 = (Some ys, s2)"
  shows "avail s = xs @ ys @ avail s2" and "length xs = m" and "length ys = n"
  using assms get_split get_Some(4) by auto

lemma get_None: "get n s = (None, s') \<Longrightarrow> length (avail s) < n"
  using get_iff [of n s] by (simp split: if_splits)

lemma get_outcome:
  "get n s = (r, s') \<Longrightarrow>
     (case r of None \<Rightarrow> length (avail s) < n
      | Some bs \<Rightarrow> n \<le> length (avail s) \<and> bs = take n (avail s) \<and> avail s' = drop n (avail s))"
  using get_Some [of n s _ s'] get_None by (auto split: option.split)

end

lemma recv_stream:
  assumes "0 < n"
  shows "case recv n s of
      (Got bs, s') \<Rightarrow> stream s = bs @ stream s'
    | (Err_Would_Block, s') \<Rightarrow> stream s' = stream s
    | (_, s') \<Rightarrow> stream s = []"
  using assms by (cases "(n, s)" rule: recv.cases) auto

lemma recv_ready:
  assumes "0 < n"
  shows "case recv n s of (Got bs, s') \<Rightarrow> ready s = bs @ ready s' | (_, s') \<Rightarrow> ready s = []"
  using assms by (cases "(n, s)" rule: recv.cases) auto

lemma recv_all_spec:
  "case recv_all n s of
      (Some bs, s') \<Rightarrow> length bs = n \<and> stream s = bs @ stream s'
    | (None, s') \<Rightarrow> length (stream s) < n"
proof (induction n s rule: recv_all.induct)
  case (1 n s)
  show ?case
  proof (cases "n = 0")
    case True
    then show ?thesis by (simp add: recv_all.simps)
  next
    case False
    then have n: "0 < n" by simp
    note st = recv_stream [OF n, of s]
    obtain r s' where r: "recv n s = (r, s')" by (cases "recv n s")
    show ?thesis
    proof (cases r)
      case (Got bs)
      with r have g: "recv n s = (Got bs, s')" by simp
      have le: "length bs \<le> n" by (rule recv_Got(2) [OF g n])
      have "case recv_all (n - length bs) s' of
          (Some bs', s'') \<Rightarrow> length bs' = n - length bs \<and> stream s' = bs' @ stream s''
        | (None, s'') \<Rightarrow> length (stream s') < n - length bs"
        using "1.IH"(1) [OF False r [symmetric] Got] .
      with g st le False show ?thesis
        by (auto simp: recv_all.simps [of n s] split: option.splits prod.splits)
    next
      case Err_Would_Block
      then show ?thesis
        using "1.IH"(2) [OF False r [symmetric]] r st False
        by (auto simp: recv_all.simps [of n s] split: option.splits prod.splits)
    qed (use r st n in \<open>simp_all add: recv_all.simps [of n s]\<close>)
  qed
qed

lemma recv_strict_spec:
  "case recv_strict n s of
      (Some bs, s') \<Rightarrow> length bs = n \<and> ready s = bs @ ready s'
    | (None, s') \<Rightarrow> length (ready s) < n"
proof (induction n s rule: recv_strict.induct)
  case (1 n s)
  show ?case
  proof (cases "n = 0")
    case True
    then show ?thesis by (simp add: recv_strict.simps)
  next
    case False
    then have n: "0 < n" by simp
    note st = recv_ready [OF n, of s]
    obtain r s' where r: "recv n s = (r, s')" by (cases "recv n s")
    show ?thesis
    proof (cases r)
      case (Got bs)
      with r have g: "recv n s = (Got bs, s')" by simp
      have le: "length bs \<le> n" by (rule recv_Got(2) [OF g n])
      have "case recv_strict (n - length bs) s' of
          (Some bs', s'') \<Rightarrow> length bs' = n - length bs \<and> ready s' = bs' @ ready s''
        | (None, s'') \<Rightarrow> length (ready s') < n - length bs"
        using "1.IH" [OF False r [symmetric] Got] .
      with g st le False show ?thesis
        by (auto simp: recv_strict.simps [of n s] split: option.splits prod.splits)
    qed (use r st n in \<open>simp_all add: recv_strict.simps [of n s]\<close>)
  qed
qed

text \<open>A specification by cases on the result gives the two laws of the interface.\<close>

lemma byte_reader_by_cases:
  fixes get :: "nat \<Rightarrow> 's \<Rightarrow> bytes option \<times> 's" and avail :: "'s \<Rightarrow> bytes"
  assumes "\<And>n s. case get n s of
      (Some bs, s') \<Rightarrow> length bs = n \<and> avail s = bs @ avail s'
    | (None, s') \<Rightarrow> length (avail s) < n"
  shows "byte_reader get avail"
proof
  fix n :: nat and s assume "n \<le> length (avail s)"
  then show "\<exists>s'. get n s = (Some (take n (avail s)), s') \<and> avail s' = drop n (avail s)"
    using assms [where n = n and s = s] by (auto split: prod.splits option.splits)
next
  fix n :: nat and s assume "length (avail s) < n"
  then show "\<exists>s'. get n s = (None, s')"
    using assms [where n = n and s = s] by (auto split: prod.splits option.splits)
qed

interpretation waiting: byte_reader recv_all stream
  by (rule byte_reader_by_cases) (rule recv_all_spec)

interpretation polling: byte_reader recv_strict ready
  by (rule byte_reader_by_cases) (rule recv_strict_spec)

section \<open>Sending\<close>

text \<open>
  The script of a sending socket: how many bytes each call of \<open>send\<close> takes, or its
  failure. When the script is used up the system takes all bytes offered. \<open>wire\<close> is what
  the system has taken, in order.
\<close>

datatype send_event = Accept nat | Send_Would_Block | Send_Error

record outbound =
  sends :: "send_event list"
  wire :: bytes

datatype send_result = Sent nat | Send_Err_Would_Block | Send_Err_Other

definition send :: "bytes \<Rightarrow> outbound \<Rightarrow> send_result \<times> outbound" where
  "send bs out =
     (case sends out of
        [] \<Rightarrow> (Sent (length bs), out\<lparr>wire := wire out @ bs\<rparr>)
      | Accept k # es \<Rightarrow>
          (Sent (min k (length bs)), out\<lparr>sends := es, wire := wire out @ take k bs\<rparr>)
      | Send_Would_Block # es \<Rightarrow> (Send_Err_Would_Block, out\<lparr>sends := es\<rparr>)
      | Send_Error # es \<Rightarrow> (Send_Err_Other, out\<lparr>sends := es\<rparr>))"

text \<open>The write loop of \<open>adb_send_msg\<close> and \<open>control_socket_send_msg\<close>: retry on would-block.\<close>

function send_all :: "bytes \<Rightarrow> outbound \<Rightarrow> bool \<times> outbound" where
  "send_all bs out =
     (if bs = [] then (True, out)
      else case send bs out of
        (Sent n, out') \<Rightarrow> if n = 0 then (False, out') else send_all (drop n bs) out'
      | (Send_Err_Would_Block, out') \<Rightarrow> send_all bs out'
      | (Send_Err_Other, out') \<Rightarrow> (False, out'))"
  by pat_completeness auto
termination
  by (relation "measure (\<lambda>(bs, out). length bs + length (sends out))")
    (auto simp: send_def split: list.splits send_event.splits)

declare send_all.simps [simp del]

lemma send_cases:
  "case send bs out of
      (Sent n, out') \<Rightarrow> n \<le> length bs \<and> wire out' = wire out @ take n bs
    | (_, out') \<Rightarrow> wire out' = wire out"
  by (auto simp: send_def min_def split: list.splits send_event.splits)

lemma send_all_wire:
  "\<exists>k. wire (snd (send_all bs out)) = wire out @ take k bs \<and>
       (fst (send_all bs out) \<longrightarrow> length bs \<le> k)"
proof (induction bs out rule: send_all.induct)
  case (1 bs out)
  show ?case
  proof (cases "bs = []")
    case True
    then show ?thesis by (simp add: send_all.simps)
  next
    case False
    obtain r out' where r: "send bs out = (r, out')" by (cases "send bs out")
    note st = send_cases [of bs out, unfolded r]
    show ?thesis
    proof (cases r)
      case (Sent n)
      show ?thesis
      proof (cases "n = 0")
        case True
        then show ?thesis
          using False r Sent st by (simp add: send_all.simps [of bs out])
      next
        case n: False
        from "1.IH"(1) [OF False r [symmetric] Sent n] obtain k where
          k: "wire (snd (send_all (drop n bs) out')) = wire out' @ take k (drop n bs)"
            "fst (send_all (drop n bs) out') \<longrightarrow> length (drop n bs) \<le> k" by blast
        have "wire out' @ take k (drop n bs) = wire out @ take (n + k) bs"
          using st Sent by (simp add: take_add)
        then show ?thesis
          using False r Sent n k by (intro exI [of _ "n + k"]) (auto simp: send_all.simps [of bs out])
      qed
    next
      case Send_Err_Would_Block
      then show ?thesis
        using "1.IH"(2) [OF False r [symmetric]] r st False
        by (simp add: send_all.simps [of bs out])
    next
      case Send_Err_Other
      then show ?thesis
        using r st False by (intro exI [of _ 0]) (simp add: send_all.simps [of bs out])
    qed
  qed
qed

text \<open>A write that reports success has put exactly its bytes on the wire, in order.\<close>

lemma send_all_success: "send_all bs out = (True, out') \<Longrightarrow> wire out' = wire out @ bs"
  using send_all_wire [of bs out] by auto

lemma send_all_idle [io_simps]:
  "sends out = [] \<Longrightarrow> send_all bs out = (True, out\<lparr>wire := wire out @ bs\<rparr>)"
  by (cases "bs = []"; cases out) (simp_all add: send_all.simps [of bs] send_all.simps [of "[]"] send_def)

end
