(* ===== verification/Demuxer.thy ===== *)
theory Demuxer
  imports Sockets
begin

text \<open>
  The packet reader of \<open>src/device/demuxer.c\<close>: the codec id and the packets with their
  12-byte header, over a socket.
\<close>

unbundle bit_operations_syntax

section \<open>Packets\<close>

definition SC_PACKET_HEADER_SIZE :: nat where "SC_PACKET_HEADER_SIZE = 12"
definition SC_PACKET_FLAG_CONFIG :: u64 where "SC_PACKET_FLAG_CONFIG = push_bit 62 1"
definition SC_PACKET_FLAG_KEY_FRAME :: u64 where "SC_PACKET_FLAG_KEY_FRAME = push_bit 61 1"
definition SC_PACKET_PTS_MASK :: u64 where "SC_PACKET_PTS_MASK = SC_PACKET_FLAG_KEY_FRAME - 1"

text \<open>
  \<open>pkt_data\<close> is the allocated buffer, \<open>None\<close> for \<open>NULL\<close>. The timestamp is below \<open>2 ^ 61\<close>,
  so its signed type plays no part.
\<close>

record sc_packet =
  pkt_data :: "bytes option"
  pkt_size :: u32
  pts :: u64
  is_config :: bool
  is_key_frame :: bool

definition demuxer_recv_codec_id :: "inbound \<Rightarrow> u32 option \<times> inbound" where
  "demuxer_recv_codec_id s =
     (case recv_all 4 s of (None, s') \<Rightarrow> (None, s') | (Some data, s') \<Rightarrow> (Some (read32be data), s'))"

text \<open>
  The results of \<open>demuxer_recv_packet\<close>; \<open>Demux_Overrun\<close> stands for a payload size of
  \<open>2 ^ 31\<close> or more, for which the loop calls \<open>recv\<close> with a negative length.
\<close>

datatype demux_result = Demux_Ok sc_packet | Demux_Fail | Demux_Overrun

definition payload_size_of :: "bytes \<Rightarrow> u32" where
  "payload_size_of header =
     (if read64be header AND SC_PACKET_FLAG_CONFIG \<noteq> 0
      then read32be (drop 8 header) AND 0x7FFFFFFF else read32be (drop 8 header))"

definition demuxer_recv_packet :: "(nat \<Rightarrow> bool) \<Rightarrow> inbound \<Rightarrow> demux_result \<times> inbound" where
  "demuxer_recv_packet malloc s =
     (case recv_all SC_PACKET_HEADER_SIZE s of
        (None, s1) \<Rightarrow> (Demux_Fail, s1)
      | (Some header, s1) \<Rightarrow>
          let pts_raw = read64be header;
              payload_size = payload_size_of header;
              packet = \<lparr>pkt_data = None, pkt_size = 0, pts = pts_raw AND SC_PACKET_PTS_MASK,
                        is_config = (pts_raw AND SC_PACKET_FLAG_CONFIG \<noteq> 0),
                        is_key_frame = (pts_raw AND SC_PACKET_FLAG_KEY_FRAME \<noteq> 0)\<rparr>
          in if payload_size = 0 then (Demux_Ok packet, s1)
             else if \<not> malloc (unat payload_size) then (Demux_Fail, s1)
             else if 2 ^ 31 \<le> unat payload_size then (Demux_Overrun, s1)
             else case recv_all (unat payload_size) s1 of
               (None, s2) \<Rightarrow> (Demux_Fail, s2)
             | (Some data, s2) \<Rightarrow>
                 (Demux_Ok (packet\<lparr>pkt_data := Some data, pkt_size := payload_size\<rparr>), s2))"

definition demuxer_packet_free :: "sc_packet \<Rightarrow> sc_packet" where
  "demuxer_packet_free p = p\<lparr>pkt_data := None, pkt_size := 0\<rparr>"

text \<open>Reading \<open>n\<close> packets one after the other.\<close>

fun demux_packets :: "(nat \<Rightarrow> bool) \<Rightarrow> nat \<Rightarrow> inbound \<Rightarrow> sc_packet list option \<times> inbound" where
  "demux_packets malloc 0 s = (Some [], s)"
| "demux_packets malloc (Suc n) s =
     (case demuxer_recv_packet malloc s of
        (Demux_Ok p, s1) \<Rightarrow>
          (case demux_packets malloc n s1 of
             (Some ps, s2) \<Rightarrow> (Some (p # ps), s2) | (None, s2) \<Rightarrow> (None, s2))
      | (_, s1) \<Rightarrow> (None, s1))"

section \<open>The wire format\<close>

text \<open>
  A packet as the device writes it: flags and timestamp, size, payload. A timestamp has 61
  bits and a payload that is not empty a size that fits.
\<close>

definition packet_bytes :: "sc_packet \<Rightarrow> bytes" where
  "packet_bytes p =
     write64be (pts p OR (if is_config p then SC_PACKET_FLAG_CONFIG else 0) OR
                (if is_key_frame p then SC_PACKET_FLAG_KEY_FRAME else 0)) @
     write32be (pkt_size p) @ (case pkt_data p of None \<Rightarrow> [] | Some d \<Rightarrow> d)"

definition packet_ok :: "sc_packet \<Rightarrow> bool" where
  "packet_ok p \<longleftrightarrow> pts p AND SC_PACKET_PTS_MASK = pts p \<and>
     (case pkt_data p of None \<Rightarrow> pkt_size p = 0
      | Some d \<Rightarrow> d \<noteq> [] \<and> length d < 2 ^ 31 \<and> pkt_size p = word_of_nat (length d))"

lemma flag_values:
  "SC_PACKET_FLAG_CONFIG = 0x4000000000000000" "SC_PACKET_FLAG_KEY_FRAME = 0x2000000000000000"
  "SC_PACKET_PTS_MASK = mask 61"
  by (simp_all add: SC_PACKET_FLAG_CONFIG_def SC_PACKET_FLAG_KEY_FRAME_def SC_PACKET_PTS_MASK_def
      push_bit_eq_mult mask_eq_decr_exp)

lemma single_bit_and: "(w AND push_bit k 1 \<noteq> (0 :: u64)) \<longleftrightarrow> bit w k"
proof
  assume "w AND push_bit k 1 \<noteq> 0"
  then obtain n where "bit (w AND push_bit k 1) n" using bit_eqI [of "w AND push_bit k 1" 0] by auto
  then show "bit w k" by (auto simp: bit_simps)
next
  assume "bit w k"
  moreover from this have "k < 64" by (auto dest: bit_imp_le_length)
  ultimately have "bit (w AND push_bit k 1) k" by (simp add: bit_simps)
  then show "w AND push_bit k 1 \<noteq> 0" by auto
qed

lemma bit_single: "k < 64 \<Longrightarrow> bit (push_bit k 1 :: u64) n \<longleftrightarrow> n = k"
  by (auto simp: bit_simps)

lemma bit_flags [simp]:
  "bit SC_PACKET_FLAG_CONFIG n \<longleftrightarrow> n = 62" "bit SC_PACKET_FLAG_KEY_FRAME n \<longleftrightarrow> n = 61"
  unfolding SC_PACKET_FLAG_CONFIG_def SC_PACKET_FLAG_KEY_FRAME_def by (rule bit_single; simp)+

lemma flag_bits:
  assumes "t AND SC_PACKET_PTS_MASK = (t :: u64)"
  shows "bit (t OR (if c then SC_PACKET_FLAG_CONFIG else 0) OR (if k then SC_PACKET_FLAG_KEY_FRAME else 0)) 62 = c"
    and "bit (t OR (if c then SC_PACKET_FLAG_CONFIG else 0) OR (if k then SC_PACKET_FLAG_KEY_FRAME else 0)) 61 = k"
    and "(t OR (if c then SC_PACKET_FLAG_CONFIG else 0) OR (if k then SC_PACKET_FLAG_KEY_FRAME else 0))
           AND SC_PACKET_PTS_MASK = t"
proof -
  have small: "bit t n \<Longrightarrow> n < 61" for n
    using assms by (metis bit_and_iff bit_mask_iff flag_values(3))
  show "bit (t OR (if c then SC_PACKET_FLAG_CONFIG else 0) OR (if k then SC_PACKET_FLAG_KEY_FRAME else 0)) 62 = c"
    and "bit (t OR (if c then SC_PACKET_FLAG_CONFIG else 0) OR (if k then SC_PACKET_FLAG_KEY_FRAME else 0)) 61 = k"
    using small [of 62] small [of 61] by (auto simp: bit_or_iff)
  show "(t OR (if c then SC_PACKET_FLAG_CONFIG else 0) OR (if k then SC_PACKET_FLAG_KEY_FRAME else 0))
           AND SC_PACKET_PTS_MASK = t"
    unfolding flag_values(3)
    by (rule bit_word_eqI) (use small in \<open>auto simp: bit_or_iff bit_and_iff bit_mask_iff\<close>)
qed

lemma and_low31:
  assumes "n < 2 ^ 31"
  shows "(word_of_nat n :: u32) AND 0x7FFFFFFF = word_of_nat n"
proof -
  have "(0x7FFFFFFF :: u32) = mask 31" by (simp add: mask_eq_decr_exp)
  then have "(word_of_nat n :: u32) AND 0x7FFFFFFF = take_bit 31 (word_of_nat n)"
    by (simp add: take_bit_eq_mask)
  also have "\<dots> = word_of_nat n"
    using assms by (simp add: word_unat_eq_iff unsigned_take_bit_eq unat_of_nat32 take_bit_nat_eq_self)
  finally show ?thesis .
qed

lemma demuxer_reads_packet:
  assumes ok: "packet_ok p" and av: "stream s = packet_bytes p @ rest"
    and mem: "\<forall>n. malloc n"
  shows "\<exists>s'. demuxer_recv_packet malloc s = (Demux_Ok p, s') \<and> stream s' = rest"
proof -
  let ?raw = "pts p OR (if is_config p then SC_PACKET_FLAG_CONFIG else 0) OR
     (if is_key_frame p then SC_PACKET_FLAG_KEY_FRAME else 0)"
  let ?h = "write64be ?raw @ write32be (pkt_size p)" and ?d = "case pkt_data p of None \<Rightarrow> [] | Some d \<Rightarrow> d"
  have "stream s = ?h @ ?d @ rest" using av by (simp add: packet_bytes_def)
  then obtain s1 where h: "recv_all 12 s = (Some ?h, s1)" and av1: "stream s1 = ?d @ rest"
    by (rule waiting.get_append) simp
  have raw: "read64be ?h = ?raw" and field: "read32be (drop 8 ?h) = pkt_size p"
    by (simp_all add: codec_simps)
  have t: "pts p AND SC_PACKET_PTS_MASK = pts p" using ok by (simp add: packet_ok_def)
  note bits = flag_bits [OF t, of "is_config p" "is_key_frame p"]
  have cfg: "(?raw AND SC_PACKET_FLAG_CONFIG \<noteq> 0) = is_config p"
    using bits(1) single_bit_and [of ?raw 62] by (simp add: SC_PACKET_FLAG_CONFIG_def)
  have key: "(?raw AND SC_PACKET_FLAG_KEY_FRAME \<noteq> 0) = is_key_frame p"
    using bits(2) single_bit_and [of ?raw 61] by (simp add: SC_PACKET_FLAG_KEY_FRAME_def)
  have "pkt_size p AND 0x7FFFFFFF = pkt_size p"
    using ok and_low31 by (auto simp: packet_ok_def split: option.splits)
  then have size: "payload_size_of ?h = pkt_size p"
    unfolding payload_size_of_def raw field by simp
  show ?thesis
  proof (cases "pkt_data p")
    case None
    with ok have "pkt_size p = 0" by (simp add: packet_ok_def)
    with None h av1 size raw cfg key bits(3) show ?thesis
      by (simp add: demuxer_recv_packet_def SC_PACKET_HEADER_SIZE_def Let_def)
  next
    case (Some d)
    with ok have d: "d \<noteq> []" "length d < 2 ^ 31" "pkt_size p = word_of_nat (length d)"
      by (simp_all add: packet_ok_def)
    then have n: "unat (pkt_size p) = length d" by (simp add: unat_of_nat32)
    with d(1) have nz: "pkt_size p \<noteq> 0" by (metis length_0_conv unat_0)
    from av1 Some obtain s2 where g: "recv_all (length d) s1 = (Some d, s2)" and "stream s2 = rest"
      using waiting.get_append [of s1 d rest "length d"] by auto
    with Some h size raw cfg key bits(3) n nz d(2) mem show ?thesis
      by (simp add: demuxer_recv_packet_def SC_PACKET_HEADER_SIZE_def Let_def)
  qed
qed


definition example_packets :: "sc_packet list" where
  "example_packets =
     [\<lparr>pkt_data = Some [1, 2, 3], pkt_size = 3, pts = 0, is_config = True, is_key_frame = False\<rparr>,
      \<lparr>pkt_data = Some [4], pkt_size = 1, pts = 33333, is_config = False, is_key_frame = True\<rparr>]"

lemma example_packets_ok: "\<forall>p \<in> set example_packets. packet_ok p"
  by (simp add: example_packets_def packet_ok_def flag_values mask_eq_decr_exp)


text \<open>The reader calls \<open>recv\<close> with a negative length exactly when a header of a packet that is
  not marked as configuration announces \<open>2 ^ 31\<close> bytes or more and the allocation succeeds;
  a configuration packet never does.\<close>

theorem demuxer_overrun_iff:
  "fst (demuxer_recv_packet malloc s) = Demux_Overrun \<longleftrightarrow>
     (\<exists>header rest. stream s = header @ rest \<and> length header = 12 \<and>
        read64be header AND SC_PACKET_FLAG_CONFIG = 0 \<and>
        2 ^ 31 \<le> unat (read32be (drop 8 header)) \<and> malloc (unat (read32be (drop 8 header))))"
proof -
  have low: "unat (w AND 0x7FFFFFFF) < 2 ^ 31" for w :: u32
  proof -
    have "(0x7FFFFFFF :: u32) = mask 31" by (simp add: mask_eq_decr_exp)
    then have "w AND 0x7FFFFFFF = take_bit 31 w" by (simp only: take_bit_eq_mask)
    then have "unat (w AND 0x7FFFFFFF) = take_bit 31 (unat w)" by (simp only: unsigned_take_bit_eq)
    then show ?thesis by (simp only: take_bit_nat_less_exp)
  qed
  have "fst (demuxer_recv_packet malloc s) = Demux_Overrun \<longleftrightarrow>
      (\<exists>header s1. recv_all 12 s = (Some header, s1) \<and> malloc (unat (payload_size_of header)) \<and>
         2 ^ 31 \<le> unat (payload_size_of header))"
    by (auto simp: demuxer_recv_packet_def SC_PACKET_HEADER_SIZE_def Let_def
        split: prod.splits option.splits)
  also have "\<dots> \<longleftrightarrow> (\<exists>header s1. recv_all 12 s = (Some header, s1) \<and>
      read64be header AND SC_PACKET_FLAG_CONFIG = 0 \<and>
      2 ^ 31 \<le> unat (read32be (drop 8 header)) \<and> malloc (unat (read32be (drop 8 header))))"
    using low by (auto simp: payload_size_of_def not_le [symmetric] split: if_splits)
  also have "\<dots> \<longleftrightarrow> (\<exists>header rest. stream s = header @ rest \<and> length header = 12 \<and>
      read64be header AND SC_PACKET_FLAG_CONFIG = 0 \<and>
      2 ^ 31 \<le> unat (read32be (drop 8 header)) \<and> malloc (unat (read32be (drop 8 header))))"
    by (metis waiting.get_split waiting.get_Some(4) waiting.get_append)
  finally show ?thesis .
qed

end
