(* ===== verification/Device_Sockets.thy ===== *)
theory Device_Sockets
  imports Demuxer
begin

text \<open>
  The sockets of \<open>src/device/video_socket.c\<close>, \<open>src/device/audio_socket.c\<close> and
  \<open>src/device/control_socket.c\<close>. A socket structure holds the script of what arrives on it;
  \<open>None\<close> stands for \<open>INVALID_SOCKFD\<close>.
\<close>

section \<open>Accepting\<close>

text \<open>
  The three \<open>accept\<close> functions: the accepted socket (if any) must deliver its dummy byte in
  the first \<open>recv\<close>, or it is closed.
\<close>

definition accept_client :: "inbound option \<Rightarrow> inbound option" where
  "accept_client client =
     (case client of None \<Rightarrow> None
      | Some s \<Rightarrow> (case recv 1 s of (Got _, s') \<Rightarrow> Some s' | _ \<Rightarrow> None))"

section \<open>The video socket\<close>

record video_socket =
  video_fd :: "inbound option"
  video_codec_id :: u32
  width :: u32
  height :: u32
  pending :: bytes

definition video_socket_init :: "inbound option \<Rightarrow> video_socket" where
  "video_socket_init s = \<lparr>video_fd = s, video_codec_id = 0, width = 0, height = 0, pending = []\<rparr>"

definition video_socket_accept :: "video_socket \<Rightarrow> inbound option \<Rightarrow> bool \<times> video_socket" where
  "video_socket_accept sock client =
     (case accept_client client of None \<Rightarrow> (False, sock)
      | Some s \<Rightarrow> (True, video_socket_init (Some s)))"

definition video_socket_destroy :: "video_socket \<Rightarrow> video_socket" where
  "video_socket_destroy sock = sock\<lparr>video_fd := None, pending := []\<rparr>"

text \<open>The pending bytes first, the socket for the rest.\<close>

definition recv_all_pending :: "nat \<Rightarrow> bytes \<times> inbound \<Rightarrow> bytes option \<times> bytes \<times> inbound" where
  "recv_all_pending len sock =
     (case sock of (pend, s) \<Rightarrow>
        let taken = take len pend; remain = drop len pend
        in case recv_all (len - length taken) s of
             (Some rest, s') \<Rightarrow> (Some (taken @ rest), remain, s')
           | (None, s') \<Rightarrow> (None, remain, s'))"

lemma recv_all_pending_eq:
  "recv_all_pending n (p, s) =
     (map_option (\<lambda>rest. take n p @ rest) (fst (recv_all (n - length p) s)), drop n p,
      snd (recv_all (n - length p) s))"
proof -
  have "n - length (take n p) = n - length p" by simp
  then show ?thesis by (simp add: recv_all_pending_def Let_def split: prod.split option.split)
qed

interpretation pend: byte_reader recv_all_pending "\<lambda>(p, s). p @ stream s"
proof (rule byte_reader_by_cases)
  fix n :: nat and sock :: "bytes \<times> inbound"
  obtain p s where sock: "sock = (p, s)" by (cases sock)
  obtain r s' where r: "recv_all (n - length p) s = (r, s')" by (cases "recv_all (n - length p) s")
  have spec: "case (r, s') of (Some bs, s') \<Rightarrow> length bs = n - length p \<and> stream s = bs @ stream s'
      | (None, s') \<Rightarrow> length (stream s) < n - length p"
    using recv_all_spec [where n = "n - length p" and s = s] unfolding r .
  show "case recv_all_pending n sock of
      (Some bs, s') \<Rightarrow> length bs = n \<and> (case sock of (p, s) \<Rightarrow> p @ stream s) = bs @ (case s' of (p, s) \<Rightarrow> p @ stream s)
    | (None, s') \<Rightarrow> length (case sock of (p, s) \<Rightarrow> p @ stream s) < n"
  proof (cases r)
    case None
    with spec show ?thesis unfolding sock recv_all_pending_eq r by simp
  next
    case (Some bs)
    with spec show ?thesis
      unfolding sock recv_all_pending_eq r by (cases "n \<le> length p") simp_all
  qed
qed

datatype video_read = Video_Fail | Video_None | Video_Data bytes

definition VIDEO_MAX_PACKET :: nat where "VIDEO_MAX_PACKET = 10 * 1024 * 1024"

definition video_socket_read_packet ::
  "(nat \<Rightarrow> bool) \<Rightarrow> video_socket \<Rightarrow> inbound \<Rightarrow> video_read \<times> video_socket \<times> inbound" where
  "video_socket_read_packet malloc sock s =
     (case recv_all_pending 12 (pending sock, s) of
        (None, pend, s1) \<Rightarrow> (Video_Fail, sock\<lparr>pending := pend\<rparr>, s1)
      | (Some header, pend, s1) \<Rightarrow>
          let sock1 = sock\<lparr>pending := pend\<rparr>
          in if bit (header ! 0) 7 then
               let w = read32be (drop 4 header); h = read32be (drop 8 header)
               in (Video_None, if w > 0 \<and> h > 0 then sock1\<lparr>width := w, height := h\<rparr> else sock1, s1)
             else
               let packet_size = unat (read32be (drop 8 header))
               in if packet_size = 0 then (Video_None, sock1, s1)
                  else if packet_size > VIDEO_MAX_PACKET then (Video_Fail, sock1, s1)
                  else if \<not> malloc packet_size then (Video_Fail, sock1, s1)
                  else case recv_all_pending packet_size (pend, s1) of
                    (None, pend', s2) \<Rightarrow> (Video_Fail, sock1\<lparr>pending := pend'\<rparr>, s2)
                  | (Some data, pend', s2) \<Rightarrow> (Video_Data data, sock1\<lparr>pending := pend'\<rparr>, s2))"

text \<open>
  What the bytes mean, whatever their transport: the result, the new dimensions and the
  bytes that remain.
\<close>

definition video_meaning ::
  "(nat \<Rightarrow> bool) \<Rightarrow> u32 \<times> u32 \<Rightarrow> bytes \<Rightarrow> (video_read \<times> (u32 \<times> u32) \<times> bytes) option" where
  "video_meaning malloc dims bs =
     (if length bs < 12 then None
      else
        let size = unat (read32be (drop 8 bs)); rest = drop 12 bs
        in if bit (bs ! 0) 7 then
             Some (Video_None, if 0 < read32be (drop 4 bs) \<and> 0 < read32be (drop 8 bs)
                               then (read32be (drop 4 bs), read32be (drop 8 bs)) else dims, rest)
           else if size = 0 then Some (Video_None, dims, rest)
           else if size > VIDEO_MAX_PACKET \<or> \<not> malloc size \<or> length rest < size then None
           else Some (Video_Data (take size rest), dims, drop size rest))"

lemma read32be_take: "12 \<le> length bs \<Longrightarrow> k \<le> 8 \<Longrightarrow> read32be (drop k (take 12 bs)) = read32be (drop k bs)"
  by (simp add: read32be_def)

text \<open>The video socket reads what the bytes mean: its result, the dimensions it stores and the
  bytes left over depend only on the pending bytes followed by the stream of the socket, not on
  how they are divided between the two or cut into chunks. It fails exactly when the meaning is
  undefined: too few bytes, more than 10 MiB announced, or no memory.\<close>

theorem video_socket_read_packet_meaning:
  "case video_socket_read_packet malloc sock s of (r, sock', s') \<Rightarrow>
     (case video_meaning malloc (width sock, height sock) (pending sock @ stream s) of
        None \<Rightarrow> r = Video_Fail
      | Some (r', dims, rest) \<Rightarrow> r = r' \<and> (width sock', height sock') = dims \<and> pending sock' @ stream s' = rest)"
proof -
  obtain bs where bs: "pending sock @ stream s = bs" by simp
  obtain hd p1 s1 where h: "recv_all_pending 12 (pending sock, s) = (hd, p1, s1)"
    by (cases "recv_all_pending 12 (pending sock, s)")
  show ?thesis
  proof (cases hd)
    case None
    with h pend.get_None [of 12 "(pending sock, s)"] bs show ?thesis
      by (simp add: video_socket_read_packet_def video_meaning_def)
  next
    case (Some header)
    note got = pend.get_Some [OF h [unfolded Some], unfolded prod.case bs]
    note hdr = got(1,2) and rest = got(3)
    obtain n w b where n: "unat (read32be (drop 8 bs)) = n" and b: "bit (bs ! 0) 7 = b"
      and w: "read32be (drop 4 bs) = w" by blast
    have f: "unat (read32be (drop 8 header)) = n" "read32be (drop 4 header) = w" "bit (header ! 0) 7 = b"
        "read32be (drop 8 header) = read32be (drop 8 bs)"
      unfolding hdr(2) using hdr(1) n b w by (simp_all only: read32be_take) simp
    obtain d p2 s2 where d: "recv_all_pending n (p1, s1) = (d, p2, s2)"
      by (cases "recv_all_pending n (p1, s1)")
    have d': "case d of None \<Rightarrow> length (drop 12 bs) < n
        | Some data \<Rightarrow> n \<le> length (drop 12 bs) \<and> data = take n (drop 12 bs) \<and> p2 @ stream s2 = drop n (drop 12 bs)"
      using pend.get_outcome [OF d] unfolding prod.case rest .
    have read: "video_socket_read_packet malloc sock s =
       (let sock1 = sock\<lparr>pending := p1\<rparr>
        in if b then
             (Video_None, if 0 < w \<and> 0 < read32be (drop 8 bs)
                then sock1\<lparr>width := w, height := read32be (drop 8 bs)\<rparr> else sock1, s1)
           else if n = 0 then (Video_None, sock1, s1)
           else if n > VIDEO_MAX_PACKET then (Video_Fail, sock1, s1)
           else if \<not> malloc n then (Video_Fail, sock1, s1)
           else (case d of None \<Rightarrow> (Video_Fail, sock1\<lparr>pending := p2\<rparr>, s2)
                 | Some data \<Rightarrow> (Video_Data data, sock1\<lparr>pending := p2\<rparr>, s2)))"
      by (cases d) (simp_all add: video_socket_read_packet_def h Some Let_def f n d)
    obtain rs where rs: "drop 12 bs = rs" by simp
    have meaning: "video_meaning malloc dims bs =
       (if b then Some (Video_None, if 0 < w \<and> 0 < read32be (drop 8 bs)
                                    then (w, read32be (drop 8 bs)) else dims, rs)
        else if n = 0 then Some (Video_None, dims, rs)
        else if n > VIDEO_MAX_PACKET \<or> \<not> malloc n \<or> length rs < n then None
        else Some (Video_Data (take n rs), dims, drop n rs))" for dims
      using hdr(1) by (simp only: video_meaning_def Let_def n b w rs not_less [symmetric] if_False)
    show ?thesis
      unfolding read bs meaning Let_def using rest d' unfolding rs
      by (cases b; cases "n = 0"; cases "n > VIDEO_MAX_PACKET"; cases "malloc n"; cases d) simp_all
  qed
qed

section \<open>The audio socket\<close>

record audio_socket =
  audio_fd :: "inbound option"
  audio_codec_id :: u32
  sample_rate :: u32
  audio_channels :: u32

definition audio_socket_init :: "inbound option \<Rightarrow> audio_socket" where
  "audio_socket_init s = \<lparr>audio_fd = s, audio_codec_id = 0, sample_rate = 0, audio_channels = 0\<rparr>"

definition audio_socket_accept :: "audio_socket \<Rightarrow> inbound option \<Rightarrow> bool \<times> audio_socket" where
  "audio_socket_accept sock client =
     (case accept_client client of None \<Rightarrow> (False, sock)
      | Some s \<Rightarrow> (True, audio_socket_init (Some s)))"

definition audio_socket_destroy :: "audio_socket \<Rightarrow> audio_socket" where
  "audio_socket_destroy sock = sock\<lparr>audio_fd := None\<rparr>"

definition audio_socket_read_metadata :: "audio_socket \<Rightarrow> inbound \<Rightarrow> bool \<times> audio_socket \<times> inbound" where
  "audio_socket_read_metadata sock s =
     (case recv_all 4 s of
        (None, s') \<Rightarrow> (False, sock, s')
      | (Some buf, s') \<Rightarrow>
          let sock1 = sock\<lparr>audio_codec_id := read32be buf\<rparr>
          in if audio_codec_id sock1 = 0 \<or> audio_codec_id sock1 = 1 then (False, sock1, s')
             else (True, sock1\<lparr>sample_rate := 48000, audio_channels := 2\<rparr>, s'))"

definition MAX_AUDIO_PACKET_SIZE :: nat where "MAX_AUDIO_PACKET_SIZE = 1024 * 1024"

definition audio_socket_read_packet :: "(nat \<Rightarrow> bool) \<Rightarrow> inbound \<Rightarrow> bytes option \<times> inbound" where
  "audio_socket_read_packet malloc s =
     (case recv_all 12 s of
        (None, s1) \<Rightarrow> (None, s1)
      | (Some header, s1) \<Rightarrow>
          let packet_size = unat (read32be (drop 8 header))
          in if packet_size > MAX_AUDIO_PACKET_SIZE then (None, s1)
             else if \<not> malloc packet_size then (None, s1)
             else recv_all packet_size s1)"

lemma audio_packet_read:
  assumes "stream s = stamp @ write32be (word_of_nat (length data)) @ data @ rest" and "length stamp = 8"
    and "length data \<le> 1024 * 1024" and "malloc (length data)"
  shows "\<exists>s'. audio_socket_read_packet malloc s = (Some data, s') \<and> stream s' = rest"
proof -
  have st: "length stamp = 8" "length data \<le> 1024 * 1024" "malloc (length data)"
    "stream s = (stamp @ write32be (word_of_nat (length data))) @ data @ rest" using assms by simp_all
  obtain s1 where h: "recv_all 12 s = (Some (stamp @ write32be (word_of_nat (length data))), s1)"
    and s1: "stream s1 = data @ rest" by (rule waiting.get_append [OF st(4)]) (simp add: st(1))
  obtain s2 where d: "recv_all (length data) s1 = (Some data, s2)" and s2: "stream s2 = rest"
    by (rule waiting.get_append [OF s1]) simp
  have n: "unat (word_of_nat (length data) :: u32) = length data"
    using st(2) by (intro unat_of_nat32) simp
  show ?thesis
    using h d s2 st n
    by (simp add: audio_socket_read_packet_def MAX_AUDIO_PACKET_SIZE_def codec_simps)
qed

text \<open>The audio reader returns a packet exactly when the stream holds a header, whatever its
  timestamp, and as many bytes as the header's size field says, at most 1 MiB, and there is
  memory for them; it then consumes exactly these bytes.\<close>

theorem audio_socket_read_packet_iff:
  "(\<exists>s'. audio_socket_read_packet malloc s = (Some data, s') \<and> stream s' = rest) \<longleftrightarrow>
   (\<exists>stamp. length stamp = 8 \<and> length data \<le> 1024 * 1024 \<and> malloc (length data) \<and>
      stream s = stamp @ write32be (word_of_nat (length data)) @ data @ rest)"
proof
  assume "\<exists>s'. audio_socket_read_packet malloc s = (Some data, s') \<and> stream s' = rest"
  then obtain header s1 s' where h: "recv_all 12 s = (Some header, s1)"
    and d: "recv_all (unat (read32be (drop 8 header))) s1 = (Some data, s')" and s': "stream s' = rest"
    and n: "unat (read32be (drop 8 header)) \<le> MAX_AUDIO_PACKET_SIZE" "malloc (unat (read32be (drop 8 header)))"
    by (auto simp: audio_socket_read_packet_def Let_def not_less split: prod.splits option.splits if_splits)
  have len: "length header = 12" "length data = unat (read32be (drop 8 header))"
    using waiting.get_Some(4) [OF h] waiting.get_Some(4) [OF d] by simp_all
  have "write32be (word_of_nat (length data)) = drop 8 header"
    using len be32.enc_dec [of "drop 8 header"] by simp
  moreover have "stream s = header @ data @ rest"
    using waiting.get_split [OF h] waiting.get_split [OF d] s' by simp
  then have "stream s = take 8 header @ drop 8 header @ data @ rest"
    by (metis append.assoc append_take_drop_id)
  ultimately show "\<exists>stamp. length stamp = 8 \<and> length data \<le> 1024 * 1024 \<and> malloc (length data) \<and>
      stream s = stamp @ write32be (word_of_nat (length data)) @ data @ rest"
    using len n by (intro exI [of _ "take 8 header"]) (simp add: MAX_AUDIO_PACKET_SIZE_def)
next
  assume "\<exists>stamp. length stamp = 8 \<and> length data \<le> 1024 * 1024 \<and> malloc (length data) \<and>
      stream s = stamp @ write32be (word_of_nat (length data)) @ data @ rest"
  then show "\<exists>s'. audio_socket_read_packet malloc s = (Some data, s') \<and> stream s' = rest"
    using audio_packet_read by blast
qed

section \<open>The control socket\<close>

definition control_socket_init :: "inbound option \<Rightarrow> inbound option" where
  "control_socket_init s = s"

definition control_socket_accept :: "inbound option \<Rightarrow> inbound option \<Rightarrow> bool \<times> inbound option" where
  "control_socket_accept sock client =
     (case accept_client client of None \<Rightarrow> (False, sock) | Some s \<Rightarrow> (True, Some s))"

definition control_socket_destroy :: "inbound option \<Rightarrow> inbound option" where
  "control_socket_destroy sock = None"

definition control_socket_send_msg :: "bool \<Rightarrow> bytes \<Rightarrow> outbound \<Rightarrow> bool \<times> outbound" where
  "control_socket_send_msg fd_open data out = (if \<not> fd_open then (False, out) else send_all data out)"

text \<open>
  The receive of a device message. A payload size of \<open>2 ^ 31\<close> or more is negative as an
  \<open>int\<close>: the loop does not run and the message is returned with its payload unread
  (\<open>Control_Unread\<close>).
\<close>

datatype control_read = Control_Fail | Control_Msg bytes | Control_Unread byte u32

definition control_payload_size :: "byte \<Rightarrow> inbound \<Rightarrow> u32 option \<times> inbound" where
  "control_payload_size t s =
     (if t = 0 then
        (case recv 4 s of
           (Got b, s') \<Rightarrow> (if length b = 4 then Some (read32be b) else None, s')
         | (_, s') \<Rightarrow> (None, s'))
      else if t = 1 then (Some 8, s)
      else if t = 2 then
        (case recv 4 s of
           (Got b, s') \<Rightarrow> (if length b = 4 then Some (ucast (read16be (drop 2 b))) else None, s')
         | (_, s') \<Rightarrow> (None, s'))
      else (Some 0, s))"

definition control_socket_recv_msg :: "(nat \<Rightarrow> bool) \<Rightarrow> inbound \<Rightarrow> control_read \<times> inbound" where
  "control_socket_recv_msg malloc s =
     (case recv 1 s of
        (Got b, s1) \<Rightarrow>
          (case control_payload_size (hd b) s1 of
             (None, s2) \<Rightarrow> (Control_Fail, s2)
           | (Some n, s2) \<Rightarrow>
               if \<not> malloc (unat (1 + n)) then (Control_Fail, s2)
               else if sint n < 0 then (Control_Unread (hd b) n, s2)
               else case recv_strict (unat n) s2 of
                 (None, s3) \<Rightarrow> (Control_Fail, s3)
               | (Some data, s3) \<Rightarrow> (Control_Msg (hd b # data), s3))
      | (_, s1) \<Rightarrow> (Control_Fail, s1))"

end
