(* ===== verification/Device_Msg.thy ===== *)
theory Device_Msg
  imports Device_Sockets
begin

text \<open>
  The messages of the device, \<open>src/device/device_msg.c\<close>: the union as a datatype, its reader
  and its two writers, and how they fit what the control socket returns.
\<close>

section \<open>Reading\<close>

datatype device_msg =
    DEVICE_MSG_CLIPBOARD (clip_text: bytes) (clip_sequence: u64)
  | DEVICE_MSG_ACK_CLIPBOARD (ack_sequence: u64)
  | DEVICE_MSG_UHID_OUTPUT (uhid_id: u16) (uhid_data: bytes)

definition device_msg_deserialize :: "(nat \<Rightarrow> bool) \<Rightarrow> bytes \<Rightarrow> device_msg option" where
  "device_msg_deserialize malloc data =
     (let len = length data
      in if len < 1 then None
         else if data ! 0 = 0 then
           (if len < 9 then None
            else if \<not> malloc (len - 9 + 1) then None
            else Some (DEVICE_MSG_CLIPBOARD (drop 9 data) (read64be (drop 1 data))))
         else if data ! 0 = 1 then
           (if len < 9 then None else Some (DEVICE_MSG_ACK_CLIPBOARD (read64be (drop 1 data))))
         else if data ! 0 = 2 then
           (if len < 5 then None
            else
              let id = read16be (drop 1 data); n = unat (read16be (drop 3 data))
              in if len < 5 + n then None
                 else if \<not> malloc n then None
                 else Some (DEVICE_MSG_UHID_OUTPUT id (take n (drop 5 data))))
         else None)"

section \<open>Writing\<close>

text \<open>
  The bytes written from \<open>buf[0]\<close> on, \<open>None\<close> for the return value -1. The total is a
  32-bit sum.
\<close>

definition device_msg_serialize_clipboard :: "bytes \<Rightarrow> u64 \<Rightarrow> u32 \<Rightarrow> bytes option" where
  "device_msg_serialize_clipboard text sequence buf_size =
     (let len = word_of_nat (length text) :: u32; total = 1 + 8 + 4 + len
      in if total > buf_size then None
         else Some ([0] @ write64be sequence @ write32be len @ text))"

definition device_msg_serialize_ack_clipboard :: "u64 \<Rightarrow> u32 \<Rightarrow> bytes option" where
  "device_msg_serialize_ack_clipboard sequence buf_size =
     (if buf_size < 9 then None else Some ([1] @ write64be sequence))"

section \<open>Round trips and where they fail\<close>

text \<open>What the clipboard writer stores is read back by the reader with the right sequence
  number, but its text is preceded by the four length bytes, which the reader takes for text.\<close>

theorem clipboard_read_back_with_length_prefix:
  assumes "device_msg_serialize_clipboard text sequence buf_size = Some out" and "\<forall>n. malloc n"
  shows "device_msg_deserialize malloc out =
     Some (DEVICE_MSG_CLIPBOARD (write32be (word_of_nat (length text)) @ text) sequence)"
proof -
  have out: "out = [0] @ write64be sequence @ write32be (word_of_nat (length text)) @ text"
    using assms(1) by (simp add: device_msg_serialize_clipboard_def Let_def split: if_splits)
  show ?thesis
    unfolding out device_msg_deserialize_def Let_def using assms(2) by (simp add: codec_simps)
qed

theorem clipboard_read_back_with_length_prefix_witness:
  "device_msg_deserialize (\<lambda>_. True) ([0] @ write64be 7 @ write32be 2 @ [104, 105]) =
     Some (DEVICE_MSG_CLIPBOARD (write32be (word_of_nat (length [104 :: byte, 105])) @ [104, 105]) 7)"
  by (rule clipboard_read_back_with_length_prefix [where buf_size = 64])
    (simp_all add: device_msg_serialize_clipboard_def)

lemma recv_one:
  assumes "ready s = b # rest"
  obtains s' where "recv 1 s = (Got [b], s')" and "ready s' = rest"
proof -
  have "case recv 1 s of (Got bs, s') \<Rightarrow> ready s = bs @ ready s' | (_, s') \<Rightarrow> ready s = []"
    by (rule recv_ready) simp
  with assms recv_Got [of 1 s] that show thesis
    by (cases "recv 1 s"; cases "fst (recv 1 s)") (auto simp: Cons_eq_append_conv le_Suc_eq length_Suc_conv)
qed

text \<open>An acknowledgement written by \<open>device_msg_serialize_ack_clipboard\<close> and arriving without a
  pause, in any chunks, passes through the control socket and the reader and gives its
  sequence number back; the bytes after it stay to be read.\<close>

theorem ack_clipboard_end_to_end:
  assumes "device_msg_serialize_ack_clipboard sequence buf_size = Some out"
    and "ready s = out @ rest" and "\<forall>n. malloc n"
  shows "\<exists>msg s'. control_socket_recv_msg malloc s = (Control_Msg msg, s') \<and> ready s' = rest \<and>
     device_msg_deserialize malloc msg = Some (DEVICE_MSG_ACK_CLIPBOARD sequence)"
proof -
  have out: "out = 1 # write64be sequence"
    using assms(1) by (simp add: device_msg_serialize_ack_clipboard_def split: if_splits)
  obtain s1 where s1: "recv 1 s = (Got [1], s1)" "ready s1 = write64be sequence @ rest"
    by (rule recv_one [of s 1 "write64be sequence @ rest"]) (use assms(2) out in simp_all)
  obtain s2 where s2: "recv_strict 8 s1 = (Some (write64be sequence), s2)" "ready s2 = rest"
    by (rule polling.get_append [OF s1(2)]) simp
  have "control_socket_recv_msg malloc s = (Control_Msg (1 # write64be sequence), s2)"
    using s1(1) s2(1) assms(3) by (simp add: control_socket_recv_msg_def control_payload_size_def)
  moreover have "device_msg_deserialize malloc (1 # write64be sequence) = Some (DEVICE_MSG_ACK_CLIPBOARD sequence)"
    by (simp add: device_msg_deserialize_def codec_simps)
  ultimately show ?thesis using s2(2) by blast
qed

theorem ack_clipboard_end_to_end_witness:
  "\<exists>msg s'. control_socket_recv_msg (\<lambda>_. True) [Arrive [1, 0], Arrive [0, 0, 0, 0, 0, 0, 5, 9]] = (Control_Msg msg, s') \<and>
     ready s' = [9] \<and> device_msg_deserialize (\<lambda>_. True) msg = Some (DEVICE_MSG_ACK_CLIPBOARD 5)"
  by (rule ack_clipboard_end_to_end [where buf_size = 64 and out = "[1, 0, 0, 0, 0, 0, 0, 0, 5]"])
    (simp_all add: device_msg_serialize_ack_clipboard_def write64be_def write32be_def)

text \<open>C39. A clipboard message of the device (type, 32-bit length, text) comes out of the control
  socket without its length; the reader then takes the first eight bytes of the text for a
  sequence number, and refuses a text shorter than that.\<close>

theorem clipboard_end_to_end_loses_text:
  assumes "length text < 2 ^ 31" and "\<forall>n. malloc n"
    and "s = [Arrive ([0] @ write32be (word_of_nat (length text)) @ text)]"
  shows "\<exists>msg s'. control_socket_recv_msg malloc s = (Control_Msg msg, s') \<and>
     device_msg_deserialize malloc msg =
       (if length text < 8 then None
        else Some (DEVICE_MSG_CLIPBOARD (drop 8 text) (read64be text)))"
proof -
  let ?w = "word_of_nat (length text) :: u32"
  have ne: "write32be ?w \<noteq> []" using length_write(2) [of ?w] by (metis list.size(3) zero_neq_numeral)
  obtain s1 where s1: "recv 1 s = (Got [0], s1)" "s1 = [Arrive (write32be ?w @ text)]"
    using assms(3) ne by simp
  have cut: "take 4 (write32be ?w @ text) = write32be ?w" "drop 4 (write32be ?w @ text) = text" by simp_all
  obtain s2 where s2: "recv 4 s1 = (Got (write32be ?w), s2)" "ready s2 = text"
  proof (cases "text = []")
    case True
    with s1 ne that show thesis by simp
  next
    case False
    then have "recv 4 s1 = (Got (write32be ?w), [Arrive text])" using s1(2) ne cut by simp
    with that show thesis using False by simp
  qed
  have n: "unat ?w = length text" using assms(1) by (intro unat_of_nat32) simp
  then have si: "\<not> sint ?w < 0" using assms(1) by (simp add: sint_u32)
  obtain s3 where s3: "recv_strict (length text) s2 = (Some text, s3)"
    using polling.get_append [of s2 "text" "[]" "length text"] s2(2) by auto
  have "control_socket_recv_msg malloc s = (Control_Msg (0 # text), s3)"
    using s1(1) s2(1) s3 n si assms(2)
    by (simp add: control_socket_recv_msg_def control_payload_size_def codec_simps)
  moreover have "device_msg_deserialize malloc (0 # text) = (if length text < 8 then None
        else Some (DEVICE_MSG_CLIPBOARD (drop 8 text) (read64be text)))"
    using assms(2) by (simp add: device_msg_deserialize_def Let_def)
  ultimately show ?thesis by blast
qed

theorem clipboard_end_to_end_loses_text_witness:
  "\<exists>msg s'. control_socket_recv_msg (\<lambda>_. True)
        [Arrive ([0] @ write32be (word_of_nat (length [104 :: byte, 105])) @ [104, 105])] = (Control_Msg msg, s') \<and>
     device_msg_deserialize (\<lambda>_. True) msg =
       (if length [104 :: byte, 105] < 8 then None
        else Some (DEVICE_MSG_CLIPBOARD (drop 8 [104, 105]) (read64be [104, 105])))"
  by (rule clipboard_end_to_end_loses_text) simp_all

end
