(* ===== verification/Queues.thy ===== *)
theory Queues
  imports Prelude "HOL-Library.Multiset" "HOL-Library.Sublist"
begin

text \<open>
  Ring buffers: the interface of a bounded first-in first-out queue, the ring both queues of
  the program use, and the two queues: the packets of \<open>src/decode/packet_queue.c\<close> and the
  messages of \<open>src/script/message_queue.c\<close>, the latter with the separate steps of its
  semaphore and its critical section.
\<close>

section \<open>The interface\<close>

datatype 'a fifo_op = Put 'a | Take

fun fifo_run :: "('a \<Rightarrow> 'q \<Rightarrow> 'q) \<Rightarrow> ('q \<Rightarrow> 'a \<times> 'q) \<Rightarrow> 'a fifo_op list \<Rightarrow> 'q \<Rightarrow> 'a list \<times> 'q" where
  "fifo_run enq deq [] q = ([], q)"
| "fifo_run enq deq (Put x # ops) q = fifo_run enq deq ops (enq x q)"
| "fifo_run enq deq (Take # ops) q =
     (case deq q of (x, q1) \<Rightarrow> case fifo_run enq deq ops q1 of (xs, q2) \<Rightarrow> (x # xs, q2))"

fun puts :: "'a fifo_op list \<Rightarrow> 'a list" where
  "puts [] = []" | "puts (Put x # ops) = x # puts ops" | "puts (Take # ops) = puts ops"

text \<open>Operations that fit a queue of capacity \<open>cap\<close> holding \<open>n\<close> elements.\<close>

fun fits :: "nat \<Rightarrow> nat \<Rightarrow> 'a fifo_op list \<Rightarrow> bool" where
  "fits cap n [] = True"
| "fits cap n (Put x # ops) = (n < cap \<and> fits cap (Suc n) ops)"
| "fits cap n (Take # ops) = (0 < n \<and> fits cap (n - 1) ops)"

locale bounded_fifo =
  fixes ok :: "'q \<Rightarrow> bool" and contents :: "'q \<Rightarrow> 'a list" and cap :: "'q \<Rightarrow> nat"
    and enq :: "'a \<Rightarrow> 'q \<Rightarrow> 'q" and deq :: "'q \<Rightarrow> 'a \<times> 'q"
  assumes bounded: "ok q \<Longrightarrow> length (contents q) \<le> cap q"
    and enq_ok: "ok q \<Longrightarrow> length (contents q) < cap q \<Longrightarrow> ok (enq x q)"
    and enq_contents: "ok q \<Longrightarrow> length (contents q) < cap q \<Longrightarrow> contents (enq x q) = contents q @ [x]"
    and enq_cap: "ok q \<Longrightarrow> cap (enq x q) = cap q"
    and deq_ok: "ok q \<Longrightarrow> contents q \<noteq> [] \<Longrightarrow> ok (snd (deq q))"
    and deq_contents: "ok q \<Longrightarrow> contents q \<noteq> [] \<Longrightarrow> contents q = fst (deq q) # contents (snd (deq q))"
    and deq_cap: "ok q \<Longrightarrow> cap (snd (deq q)) = cap q"
begin

lemma deq_hd: "ok q \<Longrightarrow> contents q \<noteq> [] \<Longrightarrow> fst (deq q) = hd (contents q)"
  by (metis deq_contents list.sel(1))

lemma deq_tl: "ok q \<Longrightarrow> contents q \<noteq> [] \<Longrightarrow> contents (snd (deq q)) = tl (contents q)"
  by (metis deq_contents list.sel(3))

lemma run_order:
  "ok q \<Longrightarrow> fits (cap q) (length (contents q)) ops \<Longrightarrow> fifo_run enq deq ops q = (xs, q') \<Longrightarrow>
     ok q' \<and> cap q' = cap q \<and> xs @ contents q' = contents q @ puts ops"
proof (induction ops arbitrary: q xs)
  case Nil
  then show ?case by simp
next
  case (Cons op ops)
  show ?case
  proof (cases op)
    case (Put x)
    with Cons.prems have "length (contents q) < cap q" "fits (cap q) (Suc (length (contents q))) ops" by simp_all
    with Put Cons.prems Cons.IH [of "enq x q" xs] show ?thesis
      by (simp add: enq_ok enq_contents enq_cap)
  next
    case Take
    with Cons.prems have ne: "contents q \<noteq> []" and f: "fits (cap q) (length (contents q) - 1) ops" by auto
    obtain ys where ys: "fifo_run enq deq ops (snd (deq q)) = (ys, q')" "xs = fst (deq q) # ys"
      using Take Cons.prems(3) by (auto split: prod.splits)
    have "ok (snd (deq q))" by (rule deq_ok [OF Cons.prems(1) ne])
    moreover have "fits (cap (snd (deq q))) (length (contents (snd (deq q)))) ops"
      using f by (simp add: deq_cap deq_tl Cons.prems(1) ne)
    ultimately have "ok q' \<and> cap q' = cap (snd (deq q)) \<and> ys @ contents q' = contents (snd (deq q)) @ puts ops"
      using ys(1) by (rule Cons.IH)
    moreover have "contents q = fst (deq q) # contents (snd (deq q))" by (rule deq_contents [OF Cons.prems(1) ne])
    ultimately show ?thesis using Take ys(2) deq_cap [OF Cons.prems(1)] by simp
  qed
qed

end

section \<open>The ring\<close>

record 'a ring =
  items :: "'a list"
  head :: nat
  tail :: nat
  count :: nat

definition ring_put :: "'a \<Rightarrow> ('a, 'm) ring_scheme \<Rightarrow> ('a, 'm) ring_scheme" where
  "ring_put x r =
     r\<lparr>items := (items r)[tail r := x], tail := (tail r + 1) mod length (items r), count := count r + 1\<rparr>"

definition ring_take :: "('a, 'm) ring_scheme \<Rightarrow> 'a \<times> ('a, 'm) ring_scheme" where
  "ring_take r =
     (items r ! head r, r\<lparr>head := (head r + 1) mod length (items r), count := count r - 1\<rparr>)"

definition ring_list :: "('a, 'm) ring_scheme \<Rightarrow> 'a list" where
  "ring_list r = map (\<lambda>i. items r ! ((head r + i) mod length (items r))) [0..<count r]"

definition ring_ok :: "('a, 'm) ring_scheme \<Rightarrow> bool" where
  "ring_ok r \<longleftrightarrow> head r < length (items r) \<and> count r \<le> length (items r) \<and>
     tail r = (head r + count r) mod length (items r)"

definition ring_cap :: "('a, 'm) ring_scheme \<Rightarrow> nat" where
  "ring_cap r = length (items r)"

lemma length_ring_list [simp]: "length (ring_list r) = count r"
  by (simp add: ring_list_def)

lemma ring_list_empty: "ring_list r = [] \<longleftrightarrow> count r = 0"
  by (simp add: ring_list_def)

lemma mod_shift_neq:
  fixes h :: nat
  assumes "i < c" and "c < n"
  shows "(h + i) mod n \<noteq> (h + c) mod n"
proof
  assume "(h + i) mod n = (h + c) mod n"
  then have "n dvd (h + c) - (h + i)" using assms(1) mod_eq_dvd_iff_nat [of "h + i" "h + c" n] by simp
  with assms have "n dvd c - i" "0 < c - i" "c - i < n" by simp_all
  then show False using nat_dvd_not_less by blast
qed

lemma ring_list_put:
  assumes "ring_ok r" and "count r < length (items r)"
  shows "ring_list (ring_put x r) = ring_list r @ [x]"
proof -
  have t: "tail r = (head r + count r) mod length (items r)" using assms(1) by (simp add: ring_ok_def)
  moreover have "0 < length (items r)" using assms(2) by linarith
  ultimately have "tail r < length (items r)" by (metis mod_less_divisor)
  moreover have "tail r \<noteq> (head r + i) mod length (items r)" if "i < count r" for i
    using mod_shift_neq [OF that assms(2)] t by metis
  ultimately show ?thesis using t by (simp add: ring_list_def ring_put_def)
qed

lemma ring_ok_put: "ring_ok r \<Longrightarrow> count r < length (items r) \<Longrightarrow> ring_ok (ring_put x r)"
  by (simp add: ring_ok_def ring_put_def mod_Suc_eq)

lemma ring_list_take:
  assumes "ring_ok r" and "0 < count r"
  shows "ring_list r = fst (ring_take r) # ring_list (snd (ring_take r))"
proof -
  obtain c where c: "count r = Suc c" using assms(2) by (cases "count r") auto
  have "head r < length (items r)" using assms(1) by (simp add: ring_ok_def)
  moreover have "items r ! ((head r + Suc i) mod length (items r)) =
      items r ! ((Suc (head r) mod length (items r) + i) mod length (items r))" for i
    by (simp add: mod_add_left_eq)
  ultimately show ?thesis
    by (simp add: ring_list_def ring_take_def c upt_conv_Cons map_Suc_upt [symmetric] del: upt_Suc)
qed

lemma ring_ok_take:
  assumes "ring_ok r" and "0 < count r"
  shows "ring_ok (snd (ring_take r))"
proof -
  obtain c where c: "count r = Suc c" using assms(2) by (cases "count r") auto
  moreover from assms(1) have "0 < length (items r)" by (auto simp: ring_ok_def)
  then have "Suc (head r) mod length (items r) < length (items r)" by (rule mod_less_divisor)
  ultimately show ?thesis using assms(1) by (auto simp: ring_ok_def ring_take_def mod_add_left_eq)
qed

lemma ring_bounded_fifo: "bounded_fifo ring_ok ring_list ring_cap ring_put ring_take"
proof unfold_locales
  fix q :: "('a, 'm) ring_scheme" and x
  assume ok: "ring_ok q"
  then show "length (ring_list q) \<le> ring_cap q" by (simp add: ring_ok_def ring_cap_def)
  show "ring_cap (ring_put x q) = ring_cap q" by (simp add: ring_cap_def ring_put_def)
  show "ring_cap (snd (ring_take q)) = ring_cap q" by (simp add: ring_cap_def ring_take_def)
  show "ring_ok (ring_put x q)" "ring_list (ring_put x q) = ring_list q @ [x]"
    if "length (ring_list q) < ring_cap q"
    using that ok ring_ok_put [of q x] ring_list_put [of q x] by (simp_all add: ring_cap_def)
  show "ring_ok (snd (ring_take q))" "ring_list q = fst (ring_take q) # ring_list (snd (ring_take q))"
    if "ring_list q \<noteq> []"
    using that ok ring_ok_take [of q] ring_list_take [of q] by (simp_all add: ring_list_empty)
qed

section \<open>The packet queue\<close>

text \<open>A packet's buffer is \<open>None\<close> for \<open>NULL\<close>, as in the zeroed array.\<close>

record packet =
  packet_data :: "bytes option"
  packet_size :: u32
  packet_pts :: int

record packet_queue = "packet ring" +
  finished :: bool

definition null_packet :: packet where
  "null_packet = \<lparr>packet_data = None, packet_size = 0, packet_pts = 0\<rparr>"

definition packet_queue_init :: "bool \<Rightarrow> nat \<Rightarrow> packet_queue option" where
  "packet_queue_init calloc_ok capacity =
     (if \<not> calloc_ok then None
      else Some \<lparr>items = replicate capacity null_packet, head = 0, tail = 0, count = 0, finished = False\<rparr>)"

text \<open>
  One call under the mutex. \<open>None\<close> is a wait on the condition variable, which changes
  nothing. A failed allocation leaves a null pointer in the free slot.
\<close>

definition packet_queue_push ::
  "(nat \<Rightarrow> bool) \<Rightarrow> bytes \<Rightarrow> int \<Rightarrow> packet_queue \<Rightarrow> (bool \<times> packet_queue) option" where
  "packet_queue_push malloc data pts q =
     (if count q \<ge> length (items q) \<and> \<not> finished q then None
      else if finished q then Some (False, q)
      else if \<not> malloc (length data) then
        Some (False, q\<lparr>items := (items q)[tail q := (items q ! tail q)\<lparr>packet_data := None\<rparr>]\<rparr>)
      else Some (True, ring_put \<lparr>packet_data = Some data, packet_size = word_of_nat (length data),
                                 packet_pts = pts\<rparr> q))"

definition packet_queue_pop :: "packet_queue \<Rightarrow> (packet option \<times> packet_queue) option" where
  "packet_queue_pop q =
     (if count q = 0 \<and> \<not> finished q then None
      else if count q = 0 then Some (None, q)
      else case ring_take q of (p, q1) \<Rightarrow> Some (Some p, q1))"

definition packet_queue_finish :: "packet_queue \<Rightarrow> packet_queue" where
  "packet_queue_finish q = q\<lparr>finished := True\<rparr>"

interpretation packets: bounded_fifo "ring_ok :: packet_queue \<Rightarrow> bool" ring_list ring_cap ring_put ring_take
  by (rule ring_bounded_fifo)

text \<open>
  Calls of any threads, in the order in which they hold the mutex; the result is the packets
  accepted, the packets delivered, and the queue.
\<close>

datatype queue_call = Push bytes int bool | Pop | Finish

fun packet_calls :: "queue_call list \<Rightarrow> packet_queue \<Rightarrow> packet list \<times> packet list \<times> packet_queue" where
  "packet_calls [] q = ([], [], q)"
| "packet_calls (Push data pts mem # cs) q =
     (case packet_queue_push (\<lambda>_. mem) data pts q of
        Some (True, q1) \<Rightarrow>
          (case packet_calls cs q1 of (accepted, delivered, q2) \<Rightarrow>
             (\<lparr>packet_data = Some data, packet_size = word_of_nat (length data), packet_pts = pts\<rparr> # accepted,
              delivered, q2))
      | Some (False, q1) \<Rightarrow> packet_calls cs q1
      | None \<Rightarrow> packet_calls cs q)"
| "packet_calls (Pop # cs) q =
     (case packet_queue_pop q of
        Some (Some p, q1) \<Rightarrow>
          (case packet_calls cs q1 of (accepted, delivered, q2) \<Rightarrow> (accepted, p # delivered, q2))
      | Some (None, q1) \<Rightarrow> packet_calls cs q1
      | None \<Rightarrow> packet_calls cs q)"
| "packet_calls (Finish # cs) q = packet_calls cs (packet_queue_finish q)"

lemma packet_queue_push_refused:
  assumes "packet_queue_push malloc data pts q = Some (False, q')" and "ring_ok q"
  shows "ring_ok q' \<and> ring_cap q' = ring_cap q \<and> ring_list q' = ring_list q"
proof (cases "finished q")
  case True
  with assms show ?thesis by (simp add: packet_queue_push_def)
next
  case False
  let ?n = "length (items q)"
  let ?q = "q\<lparr>items := (items q)[tail q := (items q ! tail q)\<lparr>packet_data := None\<rparr>]\<rparr>"
  from False assms(1) have room: "count q < ?n" and q': "q' = ?q"
    by (auto simp: packet_queue_push_def split: if_splits)
  have "items ?q ! ((head q + i) mod ?n) = items q ! ((head q + i) mod ?n)" if "i < count q" for i
    using mod_shift_neq [OF that room, of "head q"] assms(2) by (simp add: ring_ok_def)
  then show ?thesis
    using assms(2) unfolding q' by (simp add: ring_ok_def ring_cap_def ring_list_def)
qed

text \<open>The outcomes of one call, for the ring's list.\<close>

lemma packet_push_outcomes:
  fixes mem data pts
  defines "p \<equiv> \<lparr>packet_data = Some data, packet_size = word_of_nat (length data), packet_pts = pts\<rparr>"
  assumes ok: "ring_ok q"
  obtains (waits) "packet_queue_push (\<lambda>_. mem) data pts q = None"
  | (queued) q1 where "packet_queue_push (\<lambda>_. mem) data pts q = Some (True, q1)"
      "ring_ok q1" "ring_cap q1 = ring_cap q" "ring_list q1 = ring_list q @ [p]"
  | (refused) q1 where "packet_queue_push (\<lambda>_. mem) data pts q = Some (False, q1)"
      "ring_ok q1" "ring_cap q1 = ring_cap q" "ring_list q1 = ring_list q"
proof -
  consider "packet_queue_push (\<lambda>_. mem) data pts q = None"
    | q1 where "packet_queue_push (\<lambda>_. mem) data pts q = Some (True, q1)"
    | q1 where "packet_queue_push (\<lambda>_. mem) data pts q = Some (False, q1)"
    by (metis (full_types) option.exhaust surj_pair)
  then show thesis
  proof cases
    case (2 q1)
    then have "q1 = ring_put p q" and room: "length (ring_list q) < ring_cap q"
      by (auto simp: packet_queue_push_def p_def ring_cap_def split: if_splits)
    then show ?thesis
      using queued [OF 2] packets.enq_ok [OF ok room] packets.enq_cap [OF ok, of p] packets.enq_contents [OF ok room, of p]
      by simp
  qed (use waits refused packet_queue_push_refused [OF _ ok] ok in simp_all)
qed

lemma packet_pop_outcomes:
  assumes ok: "ring_ok q"
  obtains (waits) "packet_queue_pop q = None" | (finished) "packet_queue_pop q = Some (None, q)"
  | (taken) p q1 where "packet_queue_pop q = Some (Some p, q1)"
      "ring_ok q1" "ring_cap q1 = ring_cap q" "ring_list q = p # ring_list q1"
proof -
  consider "packet_queue_pop q = None" | q1 where "packet_queue_pop q = Some (None, q1)"
    | p q1 where "packet_queue_pop q = Some (Some p, q1)"
    by (metis option.exhaust surj_pair)
  then show thesis
  proof cases
    case (2 q1)
    then have "q1 = q" by (auto simp: packet_queue_pop_def split: if_splits prod.splits)
    with 2 show ?thesis by (intro finished) simp
  next
    case (3 p q1)
    then have take: "ring_take q = (p, q1)" and ne: "ring_list q \<noteq> []"
      by (auto simp: packet_queue_pop_def ring_list_empty split: if_splits prod.splits)
    show ?thesis
      using taken [OF 3] packets.deq_ok [OF ok ne] packets.deq_cap [OF ok] packets.deq_contents [OF ok ne] take by simp
  qed (rule waits)
qed

lemma packet_queue_finish_same:
  "ring_ok (packet_queue_finish q) = ring_ok q" "ring_list (packet_queue_finish q) = ring_list q"
  "ring_cap (packet_queue_finish q) = ring_cap q"
  by (simp_all add: packet_queue_finish_def ring_ok_def ring_list_def ring_cap_def)

lemma packet_calls_order:
  "ring_ok q \<Longrightarrow> packet_calls cs q = (accepted, delivered, q') \<Longrightarrow>
     ring_ok q' \<and> ring_cap q' = ring_cap q \<and> delivered @ ring_list q' = ring_list q @ accepted"
proof (induction cs arbitrary: q accepted delivered)
  case (Cons c cs)
  note ok = Cons.prems(1)
  show ?case
  proof (cases c)
    case (Push data pts mem)
    from ok show ?thesis
      by (cases rule: packet_push_outcomes [of q mem data pts])
        (use Push Cons in \<open>force split: prod.splits\<close>)+
  next
    case Pop
    from ok show ?thesis
      by (cases rule: packet_pop_outcomes) (use Pop Cons in \<open>force split: prod.splits\<close>)+
  next
    case Finish
    from Finish Cons.prems(2) have "packet_calls cs (packet_queue_finish q) = (accepted, delivered, q')" by simp
    from Cons.IH [OF _ this] ok show ?thesis by (simp add: packet_queue_finish_same)
  qed
qed simp

text \<open>C19. Whatever calls threads make, in whatever order they get the mutex, with whatever failed
  allocations: the packets delivered followed by those still queued are the packets the queue
  held before followed by those it accepted, in order, and the queue never holds more than its
  capacity.\<close>

theorem packet_queue_fifo:
  assumes "packet_queue_init True capacity = Some q" and "0 < capacity"
    and "packet_calls cs q = (accepted, delivered, q')"
  shows "delivered @ ring_list q' = accepted \<and> count q' \<le> capacity"
proof -
  have q: "ring_ok q" "ring_list q = []" "ring_cap q = capacity"
    using assms(1,2) by (auto simp: packet_queue_init_def ring_ok_def ring_list_def ring_cap_def)
  have c: "ring_ok q' \<and> ring_cap q' = ring_cap q \<and> delivered @ ring_list q' = ring_list q @ accepted"
    by (rule packet_calls_order [OF q(1) assms(3)])
  then have "length (ring_list q') \<le> ring_cap q'" by (intro packets.bounded) simp
  with c q show ?thesis by simp
qed

theorem packet_queue_fifo_witness:
  "[\<lparr>packet_data = Some [1], packet_size = 1, packet_pts = 10\<rparr>] @
     ring_list (snd (snd (packet_calls [Push [1] 10 True, Push [2] 20 False, Push [3] 30 True, Pop]
       \<lparr>items = [null_packet, null_packet], head = 0, tail = 0, count = 0, finished = False\<rparr>))) =
   [\<lparr>packet_data = Some [1], packet_size = 1, packet_pts = 10\<rparr>,
    \<lparr>packet_data = Some [3], packet_size = 1, packet_pts = 30\<rparr>]"
proof -
  let ?q = "\<lparr>items = [null_packet, null_packet], head = 0, tail = 0, count = 0, finished = False\<rparr> :: packet_queue"
  let ?cs = "[Push [1] 10 True, Push [2] 20 False, Push [3] 30 True, Pop]"
  have init: "packet_queue_init True 2 = Some ?q" by (simp add: packet_queue_init_def numeral_2_eq_2)
  have out: "fst (packet_calls ?cs ?q) = [\<lparr>packet_data = Some [1], packet_size = 1, packet_pts = 10\<rparr>,
        \<lparr>packet_data = Some [3], packet_size = 1, packet_pts = 30\<rparr>]"
      "fst (snd (packet_calls ?cs ?q)) = [\<lparr>packet_data = Some [1], packet_size = 1, packet_pts = 10\<rparr>]"
    by (simp_all add: packet_queue_push_def packet_queue_pop_def ring_put_def ring_take_def)
  obtain acc del q' where r: "packet_calls ?cs ?q = (acc, del, q')" by (cases "packet_calls ?cs ?q")
  from packet_queue_fifo [OF init _ r] out show ?thesis by (simp only: r) simp
qed

section \<open>The message queue\<close>

definition SCRIPT_MSG_QUEUE_CAPACITY :: nat where "SCRIPT_MSG_QUEUE_CAPACITY = 256"

text \<open>
  A ring of messages with a semaphore. Sending and receiving are two steps each: the ring is
  changed inside the critical section, the semaphore outside. \<open>unreleased\<close> counts the
  senders between their two steps, \<open>acquired\<close> the receivers, \<open>draining\<close> whether a drain has
  emptied the ring and not yet the semaphore. The count is a 32-bit number.
\<close>

record 'm msg_queue = "'m ring" +
  semaphore :: nat
  unreleased :: nat
  acquired :: nat
  draining :: bool

definition script_msg_queue_init :: "bool \<Rightarrow> 'm list \<Rightarrow> 'm msg_queue option" where
  "script_msg_queue_init semaphore_ok zeroed =
     (if \<not> semaphore_ok then None
      else Some \<lparr>items = zeroed, head = 0, tail = 0, count = 0, semaphore = 0, unreleased = 0,
                 acquired = 0, draining = False\<rparr>)"

text \<open>\<open>script_msg_queue_send\<close>: the critical section (refused when the ring is full), then
  \<open>ReleaseSemaphore\<close>, which fails at its maximum.\<close>

definition send_locked :: "'m \<Rightarrow> 'm msg_queue \<Rightarrow> bool \<times> 'm msg_queue" where
  "send_locked msg q =
     (if count q \<ge> SCRIPT_MSG_QUEUE_CAPACITY then (False, q)
      else (True, (ring_put msg q)\<lparr>unreleased := unreleased q + 1\<rparr>))"

definition send_release :: "'m msg_queue \<Rightarrow> 'm msg_queue" where
  "send_release q =
     q\<lparr>unreleased := unreleased q - 1,
       semaphore := (if semaphore q < SCRIPT_MSG_QUEUE_CAPACITY then semaphore q + 1 else semaphore q)\<rparr>"

text \<open>\<open>script_msg_queue_recv\<close>: the wait on the semaphore, then the critical section.\<close>

definition recv_acquire :: "'m msg_queue \<Rightarrow> 'm msg_queue option" where
  "recv_acquire q =
     (if semaphore q = 0 then None
      else Some (q\<lparr>semaphore := semaphore q - 1, acquired := acquired q + 1\<rparr>))"

definition recv_locked :: "'m msg_queue \<Rightarrow> 'm \<times> 'm msg_queue" where
  "recv_locked q =
     (items q ! head q,
      q\<lparr>head := (head q + 1) mod SCRIPT_MSG_QUEUE_CAPACITY, count := (count q + (2 ^ 32 - 1)) mod 2 ^ 32,
        acquired := acquired q - 1\<rparr>)"

definition script_msg_queue_try_recv :: "'m msg_queue \<Rightarrow> 'm option \<times> 'm msg_queue" where
  "script_msg_queue_try_recv q =
     (case recv_acquire q of None \<Rightarrow> (None, q)
      | Some q1 \<Rightarrow> (case recv_locked q1 of (m, q2) \<Rightarrow> (Some m, q2)))"

definition script_msg_queue_send :: "'m \<Rightarrow> 'm msg_queue \<Rightarrow> bool \<times> 'm msg_queue" where
  "script_msg_queue_send msg q =
     (case send_locked msg q of (False, q1) \<Rightarrow> (False, q1) | (True, q1) \<Rightarrow> (True, send_release q1))"

text \<open>\<open>script_msg_queue_drain\<close>: the critical section, then the loop that empties the semaphore.\<close>

definition drain_locked :: "'m msg_queue \<Rightarrow> 'm msg_queue" where
  "drain_locked q = q\<lparr>head := 0, tail := 0, count := 0, draining := True\<rparr>"

definition drain_semaphore :: "'m msg_queue \<Rightarrow> 'm msg_queue" where
  "drain_semaphore q = q\<lparr>semaphore := 0, draining := False\<rparr>"

interpretation messages: bounded_fifo "ring_ok :: 'm msg_queue \<Rightarrow> bool" ring_list ring_cap ring_put ring_take
  by (rule ring_bounded_fifo)

text \<open>
  All interleavings of senders and receivers: \<open>msg_steps q sent got q'\<close> with the messages
  put and taken on the way, in order. \<open>drained\<close> says whether drains may happen as well.
\<close>

inductive msg_steps :: "bool \<Rightarrow> 'm msg_queue \<Rightarrow> 'm list \<Rightarrow> 'm list \<Rightarrow> 'm msg_queue \<Rightarrow> bool" for drained q where
  start: "msg_steps drained q [] [] q"
| put: "msg_steps drained q sent got q1 \<Longrightarrow> send_locked m q1 = (True, q2) \<Longrightarrow>
    msg_steps drained q (sent @ [m]) got q2"
| release: "msg_steps drained q sent got q1 \<Longrightarrow> 0 < unreleased q1 \<Longrightarrow>
    msg_steps drained q sent got (send_release q1)"
| acquire: "msg_steps drained q sent got q1 \<Longrightarrow> recv_acquire q1 = Some q2 \<Longrightarrow>
    msg_steps drained q sent got q2"
| get: "msg_steps drained q sent got q1 \<Longrightarrow> 0 < acquired q1 \<Longrightarrow> recv_locked q1 = (m, q2) \<Longrightarrow>
    msg_steps drained q sent (got @ [m]) q2"
| drain1: "msg_steps drained q sent got q1 \<Longrightarrow> drained \<Longrightarrow> msg_steps drained q sent got (drain_locked q1)"
| drain2: "msg_steps drained q sent got q1 \<Longrightarrow> draining q1 \<Longrightarrow>
    msg_steps drained q sent got (drain_semaphore q1)"

text \<open>Between the steps the ring holds what the semaphore, the senders on their way to it and the
  receivers on their way from it account for.\<close>

definition msg_inv :: "'m msg_queue \<Rightarrow> bool" where
  "msg_inv q \<longleftrightarrow> ring_ok q \<and> ring_cap q = SCRIPT_MSG_QUEUE_CAPACITY \<and> \<not> draining q \<and>
     count q = semaphore q + unreleased q + acquired q"

lemma recv_locked_take:
  assumes "msg_inv q" and "0 < acquired q" and "recv_locked q = (m, q')"
  shows "ring_list q = m # ring_list q' \<and> msg_inv q'"
proof -
  have cap: "length (items q) = SCRIPT_MSG_QUEUE_CAPACITY" and ok: "ring_ok q"
    and cnt: "count q = semaphore q + unreleased q + acquired q" and nd: "\<not> draining q"
    using assms(1) by (simp_all add: msg_inv_def ring_cap_def)
  have pos: "0 < count q" and le: "count q \<le> 256"
    using cnt assms(2) ok cap by (simp_all add: ring_ok_def SCRIPT_MSG_QUEUE_CAPACITY_def)
  obtain n where n: "count q = Suc n" using pos by (cases "count q") simp_all
  have wrap: "(count q + (2 ^ 32 - 1)) mod 2 ^ 32 = count q - 1" using le by (simp add: n)
  have step: "recv_locked q = (fst (ring_take q), (snd (ring_take q))\<lparr>acquired := acquired q - 1\<rparr>)"
    unfolding recv_locked_def wrap cap [symmetric] by (simp add: ring_take_def)
  have ne: "ring_list q \<noteq> []" using pos by (simp add: ring_list_empty)
  have same: "ring_ok (x\<lparr>acquired := n\<rparr>) = ring_ok x" "ring_list (x\<lparr>acquired := n\<rparr>) = ring_list x"
    "ring_cap (x\<lparr>acquired := n\<rparr>) = ring_cap x" for x :: "'m msg_queue" and n
    by (simp_all add: ring_ok_def ring_list_def ring_cap_def)
  have m: "m = fst (ring_take q)" and q': "q' = (snd (ring_take q))\<lparr>acquired := acquired q - 1\<rparr>"
    using assms(3) step by simp_all
  have "ring_ok q'" "ring_cap q' = ring_cap q" "ring_list q = m # ring_list q'"
    using messages.deq_ok [OF ok ne] messages.deq_cap [OF ok] messages.deq_contents [OF ok ne]
    by (simp_all add: m q' same)
  moreover have "count q' = semaphore q' + unreleased q' + acquired q'" "\<not> draining q'"
    using cnt assms(2) nd by (simp_all add: q' ring_take_def)
  ultimately show ?thesis using assms(1) by (simp add: msg_inv_def)
qed

lemma send_locked_put:
  assumes "msg_inv q" and "send_locked m q = (True, q')"
  shows "ring_list q' = ring_list q @ [m] \<and> msg_inv q'"
proof -
  have ok: "ring_ok q" and cap: "ring_cap q = SCRIPT_MSG_QUEUE_CAPACITY" using assms(1) by (simp_all add: msg_inv_def)
  have room: "length (ring_list q) < ring_cap q" and q': "q' = (ring_put m q)\<lparr>unreleased := unreleased q + 1\<rparr>"
    using assms(2) cap by (auto simp: send_locked_def split: if_splits)
  have same: "ring_ok (x\<lparr>unreleased := n\<rparr>) = ring_ok x" "ring_list (x\<lparr>unreleased := n\<rparr>) = ring_list x"
    "ring_cap (x\<lparr>unreleased := n\<rparr>) = ring_cap x" for x :: "'m msg_queue" and n
    by (simp_all add: ring_ok_def ring_list_def ring_cap_def)
  show ?thesis
    using messages.enq_ok [OF ok room, of m] messages.enq_contents [OF ok room, of m]
      messages.enq_cap [OF ok, of m] assms(1)
    by (simp add: q' same msg_inv_def) (simp add: ring_put_def)
qed

lemma msg_inv_semaphore:
  "ring_list (send_release q) = ring_list q"
  "msg_inv q \<Longrightarrow> 0 < unreleased q \<Longrightarrow> msg_inv (send_release q)"
  "recv_acquire q = Some q' \<Longrightarrow> ring_list q' = ring_list q"
  "msg_inv q \<Longrightarrow> recv_acquire q = Some q' \<Longrightarrow> msg_inv q'"
  by (auto simp: msg_inv_def send_release_def recv_acquire_def ring_ok_def ring_cap_def ring_list_def
      SCRIPT_MSG_QUEUE_CAPACITY_def split: if_splits)

lemma msg_steps_inv:
  "msg_steps False q sent got q' \<Longrightarrow> msg_inv q \<Longrightarrow> msg_inv q' \<and> got @ ring_list q' = ring_list q @ sent"
proof (induction rule: msg_steps.induct)
  case start
  then show ?case by simp
next
  case (put sent got q1 m q2)
  then show ?case using send_locked_put [of q1 m q2] by (simp flip: append_assoc)
next
  case (release sent got q1)
  then show ?case by (simp add: msg_inv_semaphore)
next
  case (acquire sent got q1 q2)
  then show ?case by (simp add: msg_inv_semaphore(3) [OF acquire(2)] msg_inv_semaphore(4) [OF _ acquire(2)])
next
  case (get sent got q1 m q2)
  then show ?case using recv_locked_take [of q1 m q2] by simp
next
  case (drain1 sent got q1)
  then show ?case by simp
next
  case (drain2 sent got q1)
  then show ?case by (simp add: msg_inv_def)
qed

text \<open>C20. In every interleaving of senders and receivers on a fresh queue, without drains: what was
  received followed by what the ring holds is what was sent, in order, the ring holds at most
  256 messages, a receiver past the semaphore always finds one, and the semaphore never
  exceeds the number of messages.\<close>

theorem script_msg_queue_linear:
  assumes "script_msg_queue_init True zeroed = Some q" and "length zeroed = 256"
    and "msg_steps False q sent got q'"
  shows "got @ ring_list q' = sent \<and> count q' \<le> 256 \<and> acquired q' \<le> count q' \<and> semaphore q' \<le> count q'"
proof -
  have q: "msg_inv q" "ring_list q = []"
    using assms(1,2)
    by (auto simp: script_msg_queue_init_def msg_inv_def ring_ok_def ring_list_def ring_cap_def
        SCRIPT_MSG_QUEUE_CAPACITY_def)
  from msg_steps_inv [OF assms(3) q(1)] q(2) show ?thesis
    by (simp add: msg_inv_def ring_ok_def ring_cap_def SCRIPT_MSG_QUEUE_CAPACITY_def)
qed

theorem script_msg_queue_linear_witness:
  "\<exists>q q'. script_msg_queue_init True (replicate 256 (0 :: nat)) = Some q \<and>
     msg_steps False q [7] [7] q' \<and> ring_list q' = [] \<and> [7] @ ring_list q' = [7]"
proof -
  define q where "q = \<lparr>items = replicate 256 (0 :: nat), head = 0, tail = 0, count = 0, semaphore = 0,
      unreleased = 0, acquired = 0, draining = False\<rparr>"
  have init: "script_msg_queue_init True (replicate 256 0) = Some q" by (simp add: script_msg_queue_init_def q_def)
  define q1 where "q1 = (ring_put 7 q)\<lparr>unreleased := 1\<rparr>"
  have s1: "send_locked 7 q = (True, q1)" by (simp add: send_locked_def q_def q1_def SCRIPT_MSG_QUEUE_CAPACITY_def)
  define q3 where "q3 = (send_release q1)\<lparr>semaphore := 0, acquired := 1\<rparr>"
  have s3: "recv_acquire (send_release q1) = Some q3"
    by (simp add: recv_acquire_def q3_def send_release_def q1_def q_def ring_put_def SCRIPT_MSG_QUEUE_CAPACITY_def)
  obtain m q5 where s5: "recv_locked q3 = (m, q5)" by (cases "recv_locked q3")
  have m: "m = 7" and c5: "count q5 = 0"
    using s5 by (auto simp: recv_locked_def q3_def send_release_def q1_def q_def ring_put_def)
  have "msg_steps False q [7] [] q1" using msg_steps.put [OF msg_steps.start s1] by simp
  then have "msg_steps False q [7] [] (send_release q1)" by (rule msg_steps.release) (simp add: q1_def)
  then have "msg_steps False q [7] [] q3" by (rule msg_steps.acquire [OF _ s3])
  then have "msg_steps False q [7] ([] @ [m]) q5" by (rule msg_steps.get [OF _ _ s5]) (simp add: q3_def)
  then have steps: "msg_steps False q [7] [7] q5" by (simp add: m)
  from script_msg_queue_linear [OF init _ steps] init steps c5 show ?thesis
    by (auto simp: ring_list_empty)
qed

text \<open>With drains the count can run below zero: when a receiver has passed the semaphore and a
  drain empties the ring before the receiver enters the critical section, the count becomes
  \<open>2 ^ 32 - 1\<close>, and from then on every send is refused as if the queue were full.\<close>

theorem script_msg_queue_drain_race:
  assumes "script_msg_queue_init True zeroed = Some q" and "length zeroed = 256"
  shows "\<exists>sent got q'. msg_steps True q sent got q' \<and> count q' = 2 ^ 32 - 1 \<and>
     (\<forall>m. fst (send_locked m q') = False)"
proof -
  have q: "q = \<lparr>items = zeroed, head = 0, tail = 0, count = 0, semaphore = 0, unreleased = 0, acquired = 0,
      draining = False\<rparr>" using assms(1) by (simp add: script_msg_queue_init_def)
  let ?m = "zeroed ! 0"
  define q1 where "q1 = (ring_put ?m q)\<lparr>unreleased := 1\<rparr>"
  have s1: "send_locked ?m q = (True, q1)"
    by (simp add: send_locked_def q q1_def SCRIPT_MSG_QUEUE_CAPACITY_def)
  define q2 where "q2 = send_release q1"
  define q3 where "q3 = q2\<lparr>semaphore := 0, acquired := 1\<rparr>"
  have s3: "recv_acquire q2 = Some q3"
    by (simp add: recv_acquire_def q3_def q2_def send_release_def q1_def q ring_put_def SCRIPT_MSG_QUEUE_CAPACITY_def)
  define q4 where "q4 = drain_semaphore (drain_locked q3)"
  have c4: "count q4 = 0" "acquired q4 = 1"
    by (simp_all add: q4_def drain_semaphore_def drain_locked_def q3_def)
  obtain m q5 where s5: "recv_locked q4 = (m, q5)" by (cases "recv_locked q4")
  then have c5: "count q5 = 2 ^ 32 - 1" using c4 by (auto simp: recv_locked_def)
  have "msg_steps True q [?m] [] q1" using msg_steps.put [OF msg_steps.start s1] by simp
  moreover have "0 < unreleased q1" by (simp add: q1_def)
  ultimately have "msg_steps True q [?m] [] q2" unfolding q2_def by (rule msg_steps.release)
  then have "msg_steps True q [?m] [] q3" by (rule msg_steps.acquire [OF _ s3])
  then have "msg_steps True q [?m] [] (drain_locked q3)" by (rule msg_steps.drain1) simp
  then have "msg_steps True q [?m] [] q4"
    unfolding q4_def by (rule msg_steps.drain2) (simp add: drain_locked_def)
  moreover have "0 < acquired q4" using c4 by simp
  ultimately have "msg_steps True q [?m] ([] @ [m]) q5" using s5 by (rule msg_steps.get)
  moreover have "\<forall>m. fst (send_locked m q5) = False"
    using c5 by (simp add: send_locked_def SCRIPT_MSG_QUEUE_CAPACITY_def)
  ultimately show ?thesis using c5 by blast
qed

theorem script_msg_queue_drain_race_witness:
  "\<exists>q sent got q'. script_msg_queue_init True (replicate 256 (0 :: nat)) = Some q \<and>
     msg_steps True q sent got q' \<and> count q' = 2 ^ 32 - 1"
proof -
  obtain q where q: "script_msg_queue_init True (replicate 256 (0 :: nat)) = Some q"
    by (simp add: script_msg_queue_init_def)
  from script_msg_queue_drain_race [OF q] q show ?thesis by auto
qed

end
