(* ===== verification/Audio_Pipeline.thy ===== *)
theory Audio_Pipeline
  imports Device_Sockets
begin

text \<open>
  The audio path: decoder (\<open>src/decode/audio_decoder.c\<close>), player (\<open>src/audio/player.c\<close>) and the
  thread of \<open>src/pipeline/audio_pipeline.c\<close> between the audio socket and the player. FFmpeg and
  WASAPI are parameters.
\<close>

section \<open>The decoder\<close>

datatype audio_codec = Opus | AAC | FLAC

text \<open>
  \<open>'d\<close> is the state of codec and resampler. \<open>receive_audio\<close> gives the number of samples and the
  first plane; \<open>swr_convert\<close> the interleaved bytes it writes, or a failure.
\<close>

record 'd audio_library =
  find_audio :: "audio_codec \<Rightarrow> bool"
  alloc_audio :: "audio_codec \<Rightarrow> bool"
  open_audio :: "audio_codec \<Rightarrow> nat \<Rightarrow> nat \<Rightarrow> 'd option"
  swr_init :: "nat \<Rightarrow> bool"
  send_audio :: "bytes \<Rightarrow> 'd \<Rightarrow> bool \<times> 'd"
  receive_audio :: "'d \<Rightarrow> (nat \<times> bytes) option \<times> 'd"
  swr_convert :: "nat \<Rightarrow> 'd \<Rightarrow> bytes option \<times> 'd"

record 'd audio_decoder =
  adec_codec :: bool
  adec_swr :: bool
  adec_rate :: nat
  adec_state :: 'd

record audio_frame =
  pcm :: bytes
  pcm_rate :: nat
  pcm_channels :: nat

definition audio_codec_of :: "u32 \<Rightarrow> audio_codec option" where
  "audio_codec_of codec_id =
     (if codec_id = 0x6f707573 then Some Opus else if codec_id = 0x00616163 then Some AAC
      else if codec_id = 0x666c6163 then Some FLAC else None)"

definition audio_decoder_create :: "'d \<Rightarrow> bool \<Rightarrow> bool \<Rightarrow> bool \<Rightarrow> 'd audio_decoder option" where
  "audio_decoder_create zeroed struct_made frame_made packet_made =
     (if struct_made \<and> frame_made \<and> packet_made
      then Some \<lparr>adec_codec = False, adec_swr = False, adec_rate = 0, adec_state = zeroed\<rparr> else None)"

definition audio_decoder_init ::
  "'d audio_library \<Rightarrow> u32 \<Rightarrow> nat \<Rightarrow> nat \<Rightarrow> 'd audio_decoder \<Rightarrow> bool \<times> 'd audio_decoder" where
  "audio_decoder_init lib codec_id rate chans dec =
     (case audio_codec_of codec_id of
        None \<Rightarrow> (False, dec)
      | Some codec \<Rightarrow>
          if \<not> find_audio lib codec then (False, dec)
          else if \<not> alloc_audio lib codec then (False, dec\<lparr>adec_codec := False\<rparr>)
          else case open_audio lib codec rate chans of
            None \<Rightarrow> (False, dec\<lparr>adec_codec := False\<rparr>)
          | Some d \<Rightarrow> (True, dec\<lparr>adec_codec := True, adec_swr := swr_init lib rate, adec_rate := rate, adec_state := d\<rparr>))"

text \<open>
  One packet: a frame of interleaved stereo floats, or none. \<open>None\<close> is an access outside the
  plane, when the fallback copies more than it holds.
\<close>

definition audio_decoder_decode ::
  "'d audio_library \<Rightarrow> (nat \<Rightarrow> bool) \<Rightarrow> 'd audio_decoder \<Rightarrow> bytes \<Rightarrow> (audio_frame option \<times> 'd audio_decoder) option" where
  "audio_decoder_decode lib mal dec data =
     (case send_audio lib data (adec_state dec) of
        (False, d1) \<Rightarrow> Some (None, dec\<lparr>adec_state := d1\<rparr>)
      | (True, d1) \<Rightarrow>
          (case receive_audio lib d1 of
             (None, d2) \<Rightarrow> Some (None, dec\<lparr>adec_state := d2\<rparr>)
           | (Some (nb_samples, plane), d2) \<Rightarrow>
               let output_size = u32n (nb_samples * 2 * 4)
               in if \<not> mal output_size then Some (None, dec\<lparr>adec_state := d2\<rparr>)
                  else if adec_swr dec then
                    (case swr_convert lib nb_samples d2 of
                       (None, d3) \<Rightarrow> Some (None, dec\<lparr>adec_state := d3\<rparr>)
                     | (Some out, d3) \<Rightarrow>
                         Some (Some \<lparr>pcm = out, pcm_rate = adec_rate dec, pcm_channels = 2\<rparr>, dec\<lparr>adec_state := d3\<rparr>))
                  else map_option
                    (\<lambda>out. (Some \<lparr>pcm = out, pcm_rate = adec_rate dec, pcm_channels = 2\<rparr>, dec\<lparr>adec_state := d2\<rparr>))
                    (read_at plane 0 output_size)))"

section \<open>The player\<close>

text \<open>\<open>played\<close> is everything put into the device's buffer.\<close>

record audio_player =
  has_client :: bool
  render_client :: bool
  buffer_frames :: nat
  player_rate :: nat
  player_channels :: nat
  played :: bytes

definition audio_player_create :: "bool \<Rightarrow> audio_player option" where
  "audio_player_create calloc_ok =
     (if calloc_ok then Some \<lparr>has_client = False, render_client = False, buffer_frames = 0, player_rate = 0,
        player_channels = 0, played = []\<rparr> else None)"

record wasapi =
  create_ok :: bool
  endpoint_ok :: bool
  activate_ok :: bool
  initialize_ok :: bool
  service_ok :: bool
  device_frames :: nat

definition audio_player_init :: "wasapi \<Rightarrow> nat \<Rightarrow> nat \<Rightarrow> audio_player \<Rightarrow> bool \<times> audio_player" where
  "audio_player_init ws rate chans player =
     (let p1 = player\<lparr>player_rate := rate, player_channels := chans\<rparr>
      in if \<not> create_ok ws then (False, p1)
         else if \<not> endpoint_ok ws then (False, p1)
         else if \<not> activate_ok ws then (False, p1\<lparr>has_client := False\<rparr>)
         else
           let p2 = p1\<lparr>has_client := True\<rparr>
           in if \<not> initialize_ok ws then (False, p2)
              else if \<not> service_ok ws then (False, p2\<lparr>render_client := False\<rparr>)
              else (True, p2\<lparr>render_client := True, buffer_frames := device_frames ws\<rparr>))"

text \<open>
  \<open>padding\<close> is what the device has not played yet, \<open>get_ok\<close> whether it gives a buffer; \<open>None\<close> is a
  division by zero.
\<close>

definition audio_player_write :: "nat \<Rightarrow> bool \<Rightarrow> audio_player \<Rightarrow> bytes \<Rightarrow> (bool \<times> audio_player) option" where
  "audio_player_write padding get_ok player data =
     (if \<not> render_client player then Some (False, player)
      else if u32n (player_channels player * 4) = 0 then None
      else
        let available = u32n (buffer_frames player + (2 ^ 32 - padding));
            frames = min (length data div u32n (player_channels player * 4)) available
        in if frames = 0 then Some (True, player)
           else if \<not> get_ok then Some (False, player)
           else map_option (\<lambda>out. (True, player\<lparr>played := played player @ out\<rparr>))
                  (read_at data 0 (u32n (frames * player_channels player * 4))))"

section \<open>The audio thread\<close>

record 'd audio_pipeline =
  ap_decoder :: "'d audio_decoder"
  ap_player :: audio_player
  ap_sock :: audio_socket
  ap_running :: bool
  ap_thread :: bool
  ap_alive :: bool
  ap_fault :: bool

definition audio_pipeline_init :: "'d audio_decoder \<Rightarrow> audio_player \<Rightarrow> audio_socket \<Rightarrow> 'd audio_pipeline" where
  "audio_pipeline_init dec player sock =
     \<lparr>ap_decoder = dec, ap_player = player, ap_sock = sock, ap_running = False, ap_thread = False, ap_alive = False,
      ap_fault = False\<rparr>"

definition audio_pipeline_start :: "bool \<Rightarrow> 'd audio_pipeline \<Rightarrow> bool \<times> 'd audio_pipeline" where
  "audio_pipeline_start thread_ok ap =
     (if thread_ok then (True, ap\<lparr>ap_running := True, ap_thread := True, ap_alive := True\<rparr>)
      else (False, ap\<lparr>ap_running := False, ap_thread := False\<rparr>))"

definition audio_thread_turn ::
  "'d audio_library \<Rightarrow> (nat \<Rightarrow> bool) \<Rightarrow> nat \<times> bool \<Rightarrow> 'd audio_pipeline \<Rightarrow> 'd audio_pipeline" where
  "audio_thread_turn lib mal device ap =
     (if \<not> ap_alive ap then ap
      else if \<not> ap_running ap then ap\<lparr>ap_alive := False\<rparr>
      else case audio_fd (ap_sock ap) of
        None \<Rightarrow> ap\<lparr>ap_alive := False\<rparr>
      | Some s \<Rightarrow>
          (case audio_socket_read_packet mal s of
             (None, s1) \<Rightarrow> ap\<lparr>ap_sock := (ap_sock ap)\<lparr>audio_fd := Some s1\<rparr>, ap_alive := False\<rparr>
           | (Some data, s1) \<Rightarrow>
               let ap1 = ap\<lparr>ap_sock := (ap_sock ap)\<lparr>audio_fd := Some s1\<rparr>\<rparr>
               in (case audio_decoder_decode lib mal (ap_decoder ap) data of
                     None \<Rightarrow> ap1\<lparr>ap_alive := False, ap_fault := True\<rparr>
                   | Some (None, dec) \<Rightarrow> ap1\<lparr>ap_decoder := dec\<rparr>
                   | Some (Some fr, dec) \<Rightarrow>
                       (case audio_player_write (fst device) (snd device) (ap_player ap) (pcm fr) of
                          None \<Rightarrow> ap1\<lparr>ap_decoder := dec, ap_alive := False, ap_fault := True\<rparr>
                        | Some (_, player) \<Rightarrow> ap1\<lparr>ap_decoder := dec, ap_player := player\<rparr>))))"

definition audio_run ::
  "'d audio_library \<Rightarrow> (nat \<Rightarrow> bool) \<Rightarrow> (nat \<times> bool) list \<Rightarrow> 'd audio_pipeline \<Rightarrow> 'd audio_pipeline" where
  "audio_run lib mal devices ap = fold (audio_thread_turn lib mal) devices ap"

definition audio_pipeline_stop :: "'d audio_pipeline \<Rightarrow> 'd audio_pipeline" where
  "audio_pipeline_stop ap =
     (if ap_thread ap
      then ap\<lparr>ap_running := False, ap_thread := False, ap_alive := False,
              ap_sock := (ap_sock ap)\<lparr>audio_fd := map_option (\<lambda>_. []) (audio_fd (ap_sock ap))\<rparr>\<rparr>
      else ap\<lparr>ap_running := False\<rparr>)"

section \<open>What is heard\<close>

text \<open>Of the samples of a frame the device takes a prefix of whole frames, at most what it has room
  for.\<close>

definition device_takes :: "audio_player \<Rightarrow> nat \<times> bool \<Rightarrow> bytes \<Rightarrow> bytes" where
  "device_takes player device out =
     (if render_client player \<and> snd device
      then take (min (length out div (player_channels player * 4)) (buffer_frames player - fst device) *
                   (player_channels player * 4)) out
      else [])"

definition device_ok :: "audio_player \<Rightarrow> nat \<times> bool \<Rightarrow> bool" where
  "device_ok player device \<longleftrightarrow>
     0 < player_channels player \<and> player_channels player < 2 ^ 16 \<and> buffer_frames player < 2 ^ 32 \<and>
     fst device \<le> buffer_frames player"

lemma audio_player_write_takes:
  assumes "device_ok player device" and "length data < 2 ^ 32"
  shows "\<exists>ok. audio_player_write (fst device) (snd device) player data =
     Some (ok, player\<lparr>played := played player @ device_takes player device data\<rparr>)"
proof (cases "render_client player")
  case True
  let ?c = "player_channels player * 4" and ?room = "buffer_frames player - fst device"
  have c: "0 < ?c" "u32n ?c = ?c" using assms(1) by (simp_all add: device_ok_def)
  have room: "u32n (buffer_frames player + (2 ^ 32 - fst device)) = ?room"
  proof -
    have "buffer_frames player + (2 ^ 32 - fst device) = ?room + 2 ^ 32"
      using assms(1) by (simp add: device_ok_def)
    moreover have "buffer_frames player < 2 ^ 32" using assms(1) by (simp add: device_ok_def)
    then have "?room < 2 ^ 32" by linarith
    then have "u32n (?room + 2 ^ 32) = ?room" unfolding u32n_def mod_add_self2 by simp
    ultimately show ?thesis by simp
  qed
  define frames where "frames = min (length data div ?c) ?room"
  have "frames \<le> length data div ?c" by (simp add: frames_def)
  then have "frames * ?c \<le> (length data div ?c) * ?c" by (rule mult_le_mono1)
  then have "frames * ?c \<le> length data" using div_times_less_eq_dividend [of "length data" ?c] by (rule le_trans)
  then have fit: "u32n (frames * player_channels player * 4) = frames * ?c" "0 + frames * ?c \<le> length data"
    using assms(2) by (simp_all add: mult.assoc)
  have "frames = 0 \<Longrightarrow> device_takes player device data = []"
    by (auto simp: device_takes_def frames_def)
  then show ?thesis
    using True c room fit read_at_ok [OF fit(2)]
    by (auto simp: audio_player_write_def device_takes_def frames_def [symmetric] Let_def)
next
  case False
  then show ?thesis by (intro exI [of _ False]) (simp add: audio_player_write_def device_takes_def)
qed

text \<open>What a list of packets makes the device play, one device state for each packet.\<close>

fun heard ::
  "'d audio_library \<Rightarrow> (nat \<Rightarrow> bool) \<Rightarrow> audio_player \<Rightarrow> 'd audio_decoder \<Rightarrow> (bytes \<times> nat \<times> bool) list \<Rightarrow> bytes" where
  "heard lib mal player dec [] = []"
| "heard lib mal player dec ((data, device) # rest) =
     (case audio_decoder_decode lib mal dec data of
        None \<Rightarrow> []
      | Some (None, dec1) \<Rightarrow> heard lib mal player dec1 rest
      | Some (Some fr, dec1) \<Rightarrow> device_takes player device (pcm fr) @ heard lib mal player dec1 rest)"

text \<open>The library keeps to its planes and to the size of the block.\<close>

definition library_ok :: "'d audio_library \<Rightarrow> (nat \<Rightarrow> bool) \<Rightarrow> bool" where
  "library_ok lib mal \<longleftrightarrow>
     (\<forall>dec data. \<exists>r. audio_decoder_decode lib mal dec data = Some r \<and>
        (\<forall>fr. fst r = Some fr \<longrightarrow> length (pcm fr) < 2 ^ 32))"

definition audio_stream :: "(bytes \<times> bytes) list \<Rightarrow> bytes" where
  "audio_stream ps = concat (map (\<lambda>(stamp, data). stamp @ write32be (word_of_nat (length data)) @ data) ps)"

lemma audio_turn_packet:
  assumes "library_ok lib mal" and "device_ok (ap_player ap) device" and "ap_alive ap" and "ap_running ap"
    and "audio_fd (ap_sock ap) = Some s" and "stream s = stamp @ write32be (word_of_nat (length data)) @ data @ rest"
    and "length stamp = 8" and "length data \<le> 1024 * 1024" and "mal (length data)"
  shows "\<exists>s1 out dec1. audio_thread_turn lib mal device ap =
       ap\<lparr>ap_sock := (ap_sock ap)\<lparr>audio_fd := Some s1\<rparr>, ap_decoder := dec1,
          ap_player := (ap_player ap)\<lparr>played := played (ap_player ap) @ out\<rparr>\<rparr> \<and> stream s1 = rest \<and>
     (\<forall>more. heard lib mal (ap_player ap) (ap_decoder ap) ((data, device) # more) =
        out @ heard lib mal (ap_player ap) dec1 more)"
proof -
  obtain s1 where s1: "audio_socket_read_packet mal s = (Some data, s1)" "stream s1 = rest"
    using audio_packet_read [of s stamp data rest mal] assms(6-9) by blast
  obtain r where r: "audio_decoder_decode lib mal (ap_decoder ap) data = Some r"
    "\<And>fr. fst r = Some fr \<Longrightarrow> length (pcm fr) < 2 ^ 32" using assms(1) unfolding library_ok_def by blast
  obtain out1 dec1 where out1: "r = (out1, dec1)" by (cases r)
  show ?thesis
  proof (cases out1)
    case None
    then show ?thesis
      using assms(3-5) s1 r(1) out1
      by (intro exI [of _ s1] exI [of _ "[]"] exI [of _ dec1]) (simp add: audio_thread_turn_def)
  next
    case (Some fr)
    then obtain ok where w: "audio_player_write (fst device) (snd device) (ap_player ap) (pcm fr) =
        Some (ok, (ap_player ap)\<lparr>played := played (ap_player ap) @ device_takes (ap_player ap) device (pcm fr)\<rparr>)"
      using audio_player_write_takes [OF assms(2)] r(2) out1 by auto
    then show ?thesis
      using assms(3-5) s1 r(1) out1 Some
      by (intro exI [of _ s1] exI [of _ "device_takes (ap_player ap) device (pcm fr)"] exI [of _ dec1])
        (simp add: audio_thread_turn_def)
  qed
qed

lemma heard_played [simp]: "heard lib mal (player\<lparr>played := p\<rparr>) dec xs = heard lib mal player dec xs"
  by (induction xs arbitrary: dec) (auto simp: device_takes_def split: option.splits)

lemma audio_run_heard:
  assumes "library_ok lib mal" and "\<forall>n \<le> 1024 * 1024. mal n"
    and "\<forall>(stamp, data) \<in> set ps. length stamp = 8 \<and> length data \<le> 1024 * 1024"
    and "\<forall>device \<in> set devices. device_ok (ap_player ap) device" and "length devices = length ps"
    and "ap_alive ap" and "ap_running ap" and "audio_fd (ap_sock ap) = Some s" and "stream s = audio_stream ps @ rest"
  shows "played (ap_player (audio_run lib mal devices ap)) =
       played (ap_player ap) @ heard lib mal (ap_player ap) (ap_decoder ap) (zip (map snd ps) devices) \<and>
     ap_alive (audio_run lib mal devices ap) \<and> ap_fault (audio_run lib mal devices ap) = ap_fault ap \<and>
     (\<exists>s'. audio_fd (ap_sock (audio_run lib mal devices ap)) = Some s' \<and> stream s' = rest)"
  using assms(3-9)
proof (induction ps arbitrary: devices ap s)
  case Nil
  then show ?case by (simp add: audio_run_def audio_stream_def)
next
  case (Cons p ps)
  obtain stamp data where p: "p = (stamp, data)" by (cases p)
  obtain device ds where ds: "devices = device # ds" using Cons.prems(3) by (cases devices) simp_all
  have st: "stream s = stamp @ write32be (word_of_nat (length data)) @ data @ audio_stream ps @ rest"
    using Cons.prems(7) by (simp add: p audio_stream_def)
  have len: "length stamp = 8" "length data \<le> 1024 * 1024" using Cons.prems(1) p by simp_all
  have dev: "device_ok (ap_player ap) device" using Cons.prems(2) ds by simp
  have mal: "mal (length data)" using assms(2) len(2) by blast
  obtain s1 out dec1 where t: "audio_thread_turn lib mal device ap =
       ap\<lparr>ap_sock := (ap_sock ap)\<lparr>audio_fd := Some s1\<rparr>, ap_decoder := dec1,
          ap_player := (ap_player ap)\<lparr>played := played (ap_player ap) @ out\<rparr>\<rparr>"
    and s1: "stream s1 = audio_stream ps @ rest"
    and h: "\<And>more. heard lib mal (ap_player ap) (ap_decoder ap) ((data, device) # more) =
        out @ heard lib mal (ap_player ap) dec1 more"
    using audio_turn_packet [OF assms(1) dev Cons.prems(4,5,6) st len mal] by blast
  let ?ap = "ap\<lparr>ap_sock := (ap_sock ap)\<lparr>audio_fd := Some s1\<rparr>, ap_decoder := dec1,
          ap_player := (ap_player ap)\<lparr>played := played (ap_player ap) @ out\<rparr>\<rparr>"
  have run: "audio_run lib mal devices ap = audio_run lib mal ds ?ap" by (simp add: audio_run_def ds t)
  have "\<forall>d \<in> set ds. device_ok (ap_player ?ap) d" using Cons.prems(2) ds by (simp add: device_ok_def)
  then have "played (ap_player (audio_run lib mal ds ?ap)) =
       played (ap_player ?ap) @ heard lib mal (ap_player ?ap) (ap_decoder ?ap) (zip (map snd ps) ds) \<and>
     ap_alive (audio_run lib mal ds ?ap) \<and> ap_fault (audio_run lib mal ds ?ap) = ap_fault ?ap \<and>
     (\<exists>s'. audio_fd (ap_sock (audio_run lib mal ds ?ap)) = Some s' \<and> stream s' = rest)"
    using Cons.prems s1 ds by (intro Cons.IH [of ds ?ap s1]) simp_all
  then show ?case unfolding run by (simp add: ds p h del: heard.simps)
qed


text \<open>Each packet decodes to one frame of eight bytes that are its first byte.\<close>

definition example_audio_library :: "nat audio_library" where
  "example_audio_library =
     \<lparr>find_audio = (\<lambda>_. True), alloc_audio = (\<lambda>_. True), open_audio = (\<lambda>_ _ _. Some 0), swr_init = (\<lambda>_. True),
      send_audio = (\<lambda>p d. (p \<noteq> [], unat (hd p))), receive_audio = (\<lambda>d. (Some (1, replicate 8 0), d)),
      swr_convert = (\<lambda>n d. (Some (replicate 8 (word_of_nat d)), d))\<rparr>"

definition example_player :: audio_player where
  "example_player = \<lparr>has_client = True, render_client = True, buffer_frames = 10, player_rate = 48000,
     player_channels = 2, played = []\<rparr>"


end
