(* ===== verification/Recorder.thy ===== *)
theory Recorder
  imports Audio_Pipeline
begin

text \<open>
  Recording: the muxer of \<open>src/record/muxer.c\<close> over libavformat, and the recorder of
  \<open>src/record/recorder.c\<close>. The library is a parameter that says which calls succeed; what it is
  asked to write is kept as the trace of the calls.
\<close>

section \<open>The muxer\<close>

datatype stream_codec = Video_H264 | Video_HEVC | Video_AV1 | Audio_Opus | Audio_AAC | Audio_FLAC

datatype av_stream =
    Video_Stream "stream_codec option" u32 u32
  | Audio_Stream "stream_codec option" u32 u32

datatype file_call = Write_Header | Write_Packet int bytes int | Write_Trailer

text \<open>\<open>pb\<close> says whether the file is open, \<open>trace\<close> is what was asked of the library.\<close>

record format_context =
  nofile :: bool
  pb :: bool
  av_streams :: "av_stream list"
  trace :: "file_call list"

text \<open>\<open>alloc_output\<close> gives the context for a format and a file name (with its \<open>AVFMT_NOFILE\<close> flag); the
  others whether a call succeeds.\<close>

record format_library =
  alloc_output :: "string \<Rightarrow> string \<Rightarrow> bool option"
  avio_open :: "string \<Rightarrow> bool"
  new_stream :: "nat \<Rightarrow> bool"
  header_written :: "av_stream list \<Rightarrow> bool"
  frame_written :: "int \<Rightarrow> bytes \<Rightarrow> int \<Rightarrow> bool"

text \<open>The two stream pointers are indexes into the context's streams; \<open>bad_call\<close> is a call with a null
  context.\<close>

record muxer =
  fmt_ctx :: "format_context option"
  mux_video :: "nat option"
  mux_audio :: "nat option"
  bad_call :: bool

definition muxer_create :: "bool \<Rightarrow> muxer option" where
  "muxer_create calloc_ok =
     (if calloc_ok then Some \<lparr>fmt_ctx = None, mux_video = None, mux_audio = None, bad_call = False\<rparr> else None)"

definition muxer_init :: "format_library \<Rightarrow> muxer \<Rightarrow> string \<Rightarrow> string \<Rightarrow> bool \<times> muxer" where
  "muxer_init lib mux filename fmt =
     (case alloc_output lib fmt filename of
        None \<Rightarrow> (False, mux\<lparr>fmt_ctx := None\<rparr>)
      | Some nf \<Rightarrow>
          let ctx = \<lparr>nofile = nf, pb = False, av_streams = [], trace = []\<rparr>
          in if nf then (True, mux\<lparr>fmt_ctx := Some ctx\<rparr>)
             else if \<not> avio_open lib filename then (False, mux\<lparr>fmt_ctx := Some ctx\<rparr>)
             else (True, mux\<lparr>fmt_ctx := Some (ctx\<lparr>pb := True\<rparr>)\<rparr>))"

definition video_stream_codec :: "u32 \<Rightarrow> stream_codec option" where
  "video_stream_codec codec_id =
     (if codec_id = 0x68323634 then Some Video_H264 else if codec_id = 0x68323635 then Some Video_HEVC
      else if codec_id = 0x00617631 then Some Video_AV1 else None)"

definition audio_stream_codec :: "u32 \<Rightarrow> stream_codec option" where
  "audio_stream_codec codec_id =
     (if codec_id = 0x6f707573 then Some Audio_Opus else if codec_id = 0x61616320 then Some Audio_AAC
      else if codec_id = 0x666c6163 then Some Audio_FLAC else None)"

text \<open>The stream is made, and stays, also when its codec is refused.\<close>

definition muxer_add_video_stream :: "format_library \<Rightarrow> muxer \<Rightarrow> u32 \<Rightarrow> u32 \<Rightarrow> u32 \<Rightarrow> nat option \<times> muxer" where
  "muxer_add_video_stream lib mux codec_id w h =
     (case fmt_ctx mux of
        None \<Rightarrow> (None, mux\<lparr>bad_call := True\<rparr>)
      | Some ctx \<Rightarrow>
          let i = length (av_streams ctx); codec = video_stream_codec codec_id;
              mux1 = mux\<lparr>fmt_ctx := Some (ctx\<lparr>av_streams := av_streams ctx @ [Video_Stream codec w h]\<rparr>)\<rparr>
          in if \<not> new_stream lib i then (None, mux)
             else if codec = None then (None, mux1)
             else (Some i, mux1\<lparr>mux_video := Some i\<rparr>))"

definition muxer_add_audio_stream :: "format_library \<Rightarrow> muxer \<Rightarrow> u32 \<Rightarrow> u32 \<Rightarrow> u32 \<Rightarrow> nat option \<times> muxer" where
  "muxer_add_audio_stream lib mux codec_id rate chans =
     (case fmt_ctx mux of
        None \<Rightarrow> (None, mux\<lparr>bad_call := True\<rparr>)
      | Some ctx \<Rightarrow>
          let i = length (av_streams ctx); codec = audio_stream_codec codec_id;
              mux1 = mux\<lparr>fmt_ctx := Some (ctx\<lparr>av_streams := av_streams ctx @ [Audio_Stream codec rate chans]\<rparr>)\<rparr>
          in if \<not> new_stream lib i then (None, mux)
             else if codec = None then (None, mux1)
             else (Some i, mux1\<lparr>mux_audio := Some i\<rparr>))"

definition ask :: "file_call \<Rightarrow> muxer \<Rightarrow> muxer" where
  "ask call mux =
     (case fmt_ctx mux of None \<Rightarrow> mux\<lparr>bad_call := True\<rparr>
      | Some ctx \<Rightarrow> mux\<lparr>fmt_ctx := Some (ctx\<lparr>trace := trace ctx @ [call]\<rparr>)\<rparr>)"

definition muxer_write_header :: "format_library \<Rightarrow> muxer \<Rightarrow> bool \<times> muxer" where
  "muxer_write_header lib mux =
     ((case fmt_ctx mux of None \<Rightarrow> False | Some ctx \<Rightarrow> header_written lib (av_streams ctx)), ask Write_Header mux)"

definition muxer_write_packet ::
  "format_library \<Rightarrow> bool \<Rightarrow> muxer \<Rightarrow> int \<Rightarrow> bytes \<Rightarrow> int \<Rightarrow> bool \<times> muxer" where
  "muxer_write_packet lib alloc_ok mux i data stamp =
     (if \<not> alloc_ok then (False, mux) else (frame_written lib i data stamp, ask (Write_Packet i data stamp) mux))"

definition muxer_write_trailer :: "muxer \<Rightarrow> muxer" where
  "muxer_write_trailer mux = ask Write_Trailer mux"

text \<open>The context is freed; what is left of it is its trace.\<close>

definition muxer_destroy :: "muxer \<Rightarrow> muxer" where
  "muxer_destroy mux =
     (case fmt_ctx mux of None \<Rightarrow> mux
      | Some ctx \<Rightarrow> mux\<lparr>fmt_ctx := Some (if nofile ctx then ctx else ctx\<lparr>pb := False\<rparr>)\<rparr>)"

section \<open>The recorder\<close>

record recorder_config =
  rec_filename :: string
  rec_format :: string
  rec_video_codec :: u32
  rec_audio_codec :: u32
  rec_width :: u32
  rec_height :: u32
  rec_sample_rate :: u32
  rec_channels :: u32

text \<open>Stream numbers start at zero; a refused stream leaves minus one.\<close>

record recorder =
  rec_muxer :: muxer
  rec_video :: int
  rec_audio :: int

definition recorder_create :: "bool \<Rightarrow> bool \<Rightarrow> recorder option" where
  "recorder_create calloc_ok mux_calloc_ok =
     (if \<not> calloc_ok then None
      else map_option (\<lambda>mux. \<lparr>rec_muxer = mux, rec_video = 0, rec_audio = 0\<rparr>) (muxer_create mux_calloc_ok))"

definition stream_number :: "nat option \<Rightarrow> int" where
  "stream_number i = (case i of None \<Rightarrow> -1 | Some i \<Rightarrow> int i)"

definition recorder_init :: "format_library \<Rightarrow> recorder_config \<Rightarrow> recorder \<Rightarrow> bool \<times> recorder" where
  "recorder_init lib cfg r =
     (case muxer_init lib (rec_muxer r) (rec_filename cfg) (rec_format cfg) of
        (False, mux) \<Rightarrow> (False, r\<lparr>rec_muxer := mux\<rparr>)
      | (True, mux) \<Rightarrow>
          (case muxer_add_video_stream lib mux (rec_video_codec cfg) (rec_width cfg) (rec_height cfg) of
             (v, mux1) \<Rightarrow>
               let r1 = r\<lparr>rec_muxer := mux1, rec_video := stream_number v\<rparr>
               in if v = None then (False, r1)
                  else
                    let (a, mux2) = (if rec_audio_codec cfg \<noteq> 0
                          then case muxer_add_audio_stream lib mux1 (rec_audio_codec cfg) (rec_sample_rate cfg)
                                      (rec_channels cfg) of (a, m) \<Rightarrow> (Some a, m)
                          else (None, mux1));
                        r2 = r1\<lparr>rec_muxer := mux2,
                                rec_audio := (case a of None \<Rightarrow> rec_audio r1 | Some a \<Rightarrow> stream_number a)\<rparr>
                    in if a = Some None then (False, r2)
                       else case muxer_write_header lib mux2 of (ok, mux3) \<Rightarrow> (ok, r2\<lparr>rec_muxer := mux3\<rparr>)))"

definition recorder_write_video ::
  "format_library \<Rightarrow> bool \<Rightarrow> recorder \<Rightarrow> bytes \<Rightarrow> int \<Rightarrow> bool \<times> recorder" where
  "recorder_write_video lib alloc_ok r data stamp =
     (case muxer_write_packet lib alloc_ok (rec_muxer r) (rec_video r) data stamp of
        (ok, mux) \<Rightarrow> (ok, r\<lparr>rec_muxer := mux\<rparr>))"

definition recorder_write_audio ::
  "format_library \<Rightarrow> bool \<Rightarrow> recorder \<Rightarrow> bytes \<Rightarrow> int \<Rightarrow> bool \<times> recorder" where
  "recorder_write_audio lib alloc_ok r data stamp =
     (case muxer_write_packet lib alloc_ok (rec_muxer r) (rec_audio r) data stamp of
        (ok, mux) \<Rightarrow> (ok, r\<lparr>rec_muxer := mux\<rparr>))"

definition recorder_destroy :: "recorder \<Rightarrow> recorder" where
  "recorder_destroy r = r\<lparr>rec_muxer := muxer_destroy (muxer_write_trailer (rec_muxer r))\<rparr>"

section \<open>What a recording asks of the library\<close>

datatype media = Video_Data bytes int | Audio_Data bytes int

fun record_media :: "format_library \<Rightarrow> media \<Rightarrow> recorder \<Rightarrow> recorder" where
  "record_media lib (Video_Data data stamp) r = snd (recorder_write_video lib True r data stamp)"
| "record_media lib (Audio_Data data stamp) r = snd (recorder_write_audio lib True r data stamp)"

fun media_call :: "bool \<Rightarrow> media \<Rightarrow> file_call" where
  "media_call with_audio (Video_Data data stamp) = Write_Packet 0 data stamp"
| "media_call with_audio (Audio_Data data stamp) = Write_Packet (if with_audio then 1 else 0) data stamp"

text \<open>A recorder with an open file: its streams and what was asked so far.\<close>

definition recording :: "bool \<Rightarrow> file_call list \<Rightarrow> recorder \<Rightarrow> bool" where
  "recording with_audio calls r \<longleftrightarrow>
     rec_video r = 0 \<and> rec_audio r = (if with_audio then 1 else 0) \<and> \<not> bad_call (rec_muxer r) \<and>
     (\<exists>ctx. fmt_ctx (rec_muxer r) = Some ctx \<and> trace ctx = calls \<and> pb ctx = (\<not> nofile ctx))"

lemma recorder_init_recording:
  assumes "recorder_create True True = Some r" and "recorder_init lib cfg r = (True, r')"
  shows "recording (rec_audio_codec cfg \<noteq> 0) [Write_Header] r'"
  using assms
  by (auto simp: recorder_create_def muxer_create_def recorder_init_def muxer_init_def muxer_add_video_stream_def
      muxer_add_audio_stream_def muxer_write_header_def ask_def recording_def stream_number_def Let_def
      split: option.splits if_splits)

lemma record_media_recording:
  "recording a calls r \<Longrightarrow> recording a (calls @ [media_call a m]) (record_media lib m r)"
  by (cases m) (auto simp: recording_def recorder_write_video_def recorder_write_audio_def muxer_write_packet_def ask_def)

lemma record_all_recording:
  "recording a calls r \<Longrightarrow> recording a (calls @ map (media_call a) ms) (fold (record_media lib) ms r)"
proof (induction ms arbitrary: calls r)
  case Nil
  then show ?case by simp
next
  case (Cons m ms)
  from Cons.IH [OF record_media_recording [OF Cons.prems, of m lib]] show ?case by simp
qed

text \<open>C27. A recording that starts asks the library for a header, then for every packet in the order of the
  calls, video packets on stream 0 and audio packets on stream 1, and at its end for the
  trailer, and closes the file. (Without an audio codec there is one stream only, and audio
  packets go to it.)\<close>

theorem recording_trace:
  assumes "recorder_create True True = Some r" and "recorder_init lib cfg r = (True, r1)"
  shows "\<exists>ctx. fmt_ctx (rec_muxer (recorder_destroy (fold (record_media lib) ms r1))) = Some ctx \<and>
     trace ctx = [Write_Header] @ map (media_call (rec_audio_codec cfg \<noteq> 0)) ms @ [Write_Trailer] \<and> \<not> pb ctx"
  using record_all_recording [OF recorder_init_recording [OF assms], of ms lib]
  by (auto simp: recording_def recorder_destroy_def muxer_write_trailer_def muxer_destroy_def ask_def)

definition example_format_library :: format_library where
  "example_format_library =
     \<lparr>alloc_output = (\<lambda>_ _. Some False), avio_open = (\<lambda>_. True), new_stream = (\<lambda>_. True),
      header_written = (\<lambda>_. True), frame_written = (\<lambda>_ _ _. True)\<rparr>"

definition example_recording :: "u32 \<Rightarrow> recorder_config" where
  "example_recording acodec =
     \<lparr>rec_filename = ''a.mp4'', rec_format = ''mp4'', rec_video_codec = 0x68323634, rec_audio_codec = acodec,
      rec_width = 1080, rec_height = 2400, rec_sample_rate = 48000, rec_channels = 2\<rparr>"

lemmas recorder_defs = recorder_create_def muxer_create_def recorder_init_def muxer_init_def
  muxer_add_video_stream_def muxer_add_audio_stream_def muxer_write_header_def ask_def stream_number_def
  video_stream_codec_def audio_stream_codec_def

theorem recording_trace_witness:
  "\<exists>r r1 ctx. recorder_create True True = Some r \<and>
     recorder_init example_format_library (example_recording 0x6f707573) r = (True, r1) \<and>
     fmt_ctx (rec_muxer (recorder_destroy (fold (record_media example_format_library)
       [Video_Data [1] 0, Audio_Data [2] 5] r1))) = Some ctx \<and>
     trace ctx = [Write_Header, Write_Packet 0 [1] 0, Write_Packet 1 [2] 5, Write_Trailer]"
proof -
  obtain r where r: "recorder_create True True = Some r" by (simp add: recorder_create_def muxer_create_def)
  obtain r1 where r1: "recorder_init example_format_library (example_recording 0x6f707573) r = (True, r1)"
    using r by (auto simp: recorder_defs example_format_library_def example_recording_def Let_def)
  from recording_trace [OF r r1, of "[Video_Data [1] 0, Audio_Data [2] 5]"] r r1 show ?thesis
    by (auto simp: example_recording_def)
qed

text \<open>Destroying a recorder whose start failed asks for a trailer of a file without a header: either on
  a null context, or as the first call, or after a header that failed. An AAC stream of the
  device, which the decoder accepts, always ends there: the muxer compares the codec with
  another number.\<close>

theorem failed_recording_trailer:
  assumes "recorder_create True True = Some r" and "recorder_init lib cfg r = (ok, r1)"
    and "\<not> ok \<or> rec_audio_codec cfg = 0x00616163"
  shows "\<not> ok \<and> audio_codec_of 0x00616163 = Some AAC \<and>
     (bad_call (rec_muxer (recorder_destroy r1)) \<or>
      (\<exists>ctx. fmt_ctx (rec_muxer (recorder_destroy r1)) = Some ctx \<and>
         (trace ctx = [Write_Trailer] \<or>
          trace ctx = [Write_Header, Write_Trailer] \<and> \<not> header_written lib (av_streams ctx))))"
proof -
  have aac: "rec_audio_codec cfg = 0x00616163 \<Longrightarrow> \<not> ok"
    using assms(1,2) by (auto simp: recorder_defs Let_def split: option.splits if_splits prod.splits)
  then have "\<not> ok" using assms(3) by blast
  then have "bad_call (rec_muxer (recorder_destroy r1)) \<or>
      (\<exists>ctx. fmt_ctx (rec_muxer (recorder_destroy r1)) = Some ctx \<and>
         (trace ctx = [Write_Trailer] \<or> trace ctx = [Write_Header, Write_Trailer] \<and> \<not> header_written lib (av_streams ctx)))"
    using assms(1,2)
    by (auto simp: recorder_defs recorder_destroy_def muxer_write_trailer_def muxer_destroy_def Let_def
        split: option.splits if_splits prod.splits)
  with \<open>\<not> ok\<close> show ?thesis by (simp add: audio_codec_of_def)
qed

theorem failed_recording_trailer_witness:
  "\<exists>r r1 ctx. recorder_create True True = Some r \<and>
     recorder_init example_format_library (example_recording 0x00616163) r = (False, r1) \<and>
     fmt_ctx (rec_muxer (recorder_destroy r1)) = Some ctx \<and> trace ctx = [Write_Trailer]"
proof -
  obtain r where r: "recorder_create True True = Some r" by (simp add: recorder_create_def muxer_create_def)
  obtain ok r1 where r1: "recorder_init example_format_library (example_recording 0x00616163) r = (ok, r1)"
    by (cases "recorder_init example_format_library (example_recording 0x00616163) r")
  have c: "\<not> bad_call (rec_muxer (recorder_destroy r1))"
    using r r1 by (auto simp: recorder_defs recorder_destroy_def muxer_write_trailer_def muxer_destroy_def
        example_format_library_def example_recording_def Let_def)
  from failed_recording_trailer [OF r r1] c r r1 show ?thesis
    by (auto simp: example_recording_def example_format_library_def)
qed

end

