(* ===== verification/Regulator.thy ===== *)
theory Regulator
  imports Prelude
begin

text \<open>
  The audio regulator, \<open>src/audio/regulator.c\<close>: a ring of 50 ms of samples between decoder and
  player. Positions and sizes are \<open>uint32_t\<close> values, kept as natural numbers with the wrap-around
  of \<open>u32n\<close>; accesses outside the ring are \<open>None\<close>, and so is a division by zero.
\<close>

section \<open>The ring and its operations\<close>

record audio_regulator =
  ring :: "bytes option"
  buf_size :: nat
  write_pos :: nat
  read_pos :: nat
  buffered :: nat
  reg_sample_rate :: nat
  reg_channels :: nat
  bytes_per_sample :: nat
  underflow_count :: nat

definition BUFFER_DURATION_MS :: nat where "BUFFER_DURATION_MS = 50"

definition bytes_per_frame :: "audio_regulator \<Rightarrow> nat" where
  "bytes_per_frame ar = u32n (reg_channels ar * bytes_per_sample ar)"

definition ring_size :: "nat \<Rightarrow> nat \<Rightarrow> nat \<Rightarrow> nat" where
  "ring_size rate chans bps = u32n (u32n (rate * BUFFER_DURATION_MS) div 1000 * u32n (chans * bps))"

text \<open>\<open>mal\<close> gives the block, with whatever is in it, or nothing.\<close>

definition audio_regulator_init ::
  "(nat \<Rightarrow> bytes option) \<Rightarrow> nat \<Rightarrow> nat \<Rightarrow> nat \<Rightarrow> bool \<times> audio_regulator" where
  "audio_regulator_init mal rate chans bps =
     (let n = ring_size rate chans bps;
          ar = \<lparr>ring = mal n, buf_size = n, write_pos = 0, read_pos = 0, buffered = 0, reg_sample_rate = rate,
                reg_channels = chans, bytes_per_sample = bps, underflow_count = 0\<rparr>
      in (ring ar \<noteq> None, ar))"

definition audio_regulator_destroy :: "audio_regulator \<Rightarrow> audio_regulator" where
  "audio_regulator_destroy ar = ar\<lparr>ring := None\<rparr>"

text \<open>
  The loop of a push that drops frames until \<open>size\<close> bytes fit. The sum and the difference wrap, and
  nothing says that the loop ends: \<open>None\<close> when it does not. (With an empty ring its remainder
  traps; the push looks at that case first.)
\<close>

partial_function (option) drop_oldest :: "nat \<Rightarrow> audio_regulator \<Rightarrow> audio_regulator option" where
  "drop_oldest n ar =
     (if u32n (buffered ar + n) > buf_size ar then
        drop_oldest n
          (ar\<lparr>read_pos := u32n (read_pos ar + bytes_per_frame ar) mod buf_size ar,
              buffered := u32n (buffered ar + (2 ^ 32 - bytes_per_frame ar))\<rparr>)
      else Some ar)"

text \<open>The two chunks of a write that may wrap around the end of the ring.\<close>

definition ring_write :: "bytes \<Rightarrow> nat \<Rightarrow> nat \<Rightarrow> bytes \<Rightarrow> bytes option" where
  "ring_write b n pos data =
     (let first = min (n - pos) (length data)
      in Option.bind (write_at b pos (take first data))
           (\<lambda>b1. if first < length data then write_at b1 0 (drop first data) else Some b1))"

datatype push_result = Ring_Fault | Pushed audio_regulator

definition audio_regulator_push :: "audio_regulator \<Rightarrow> bytes \<Rightarrow> push_result option" where
  "audio_regulator_push ar data =
     (if buf_size ar = 0 then Some Ring_Fault
      else case drop_oldest (length data) ar of
        None \<Rightarrow> None
      | Some ar1 \<Rightarrow>
          Some (case Option.bind (ring ar1) (\<lambda>b. ring_write b (buf_size ar1) (write_pos ar1) data) of
            None \<Rightarrow> Ring_Fault
          | Some b \<Rightarrow>
              Pushed (ar1\<lparr>ring := Some b, write_pos := u32n (write_pos ar1 + length data) mod buf_size ar1,
                          buffered := u32n (buffered ar1 + length data)\<rparr>)))"

definition ring_read :: "bytes \<Rightarrow> nat \<Rightarrow> nat \<Rightarrow> nat \<Rightarrow> bytes option" where
  "ring_read b n pos k =
     (let first = min (n - pos) k
      in Option.bind (read_at b pos first)
           (\<lambda>c1. if first < k then map_option (\<lambda>c2. c1 @ c2) (read_at b 0 (k - first)) else Some c1))"

text \<open>A pull: what it writes to \<open>out\<close>, and the regulator.\<close>

definition audio_regulator_pull :: "audio_regulator \<Rightarrow> nat \<Rightarrow> (bytes \<times> audio_regulator) option" where
  "audio_regulator_pull ar samples =
     (let needed = u32n (u32n (samples * reg_channels ar) * bytes_per_sample ar)
      in Option.bind (ring ar) (\<lambda>b.
           if buffered ar \<ge> needed then
             if buf_size ar = 0 then None
             else map_option
               (\<lambda>out. (out, ar\<lparr>read_pos := u32n (read_pos ar + needed) mod buf_size ar, buffered := buffered ar - needed\<rparr>))
               (ring_read b (buf_size ar) (read_pos ar) needed)
           else
             map_option
               (\<lambda>out. (out @ replicate (needed - buffered ar) 0,
                       ar\<lparr>read_pos := 0, write_pos := 0, buffered := 0, underflow_count := u32n (underflow_count ar + 1)\<rparr>))
               (if buffered ar > 0 then ring_read b (buf_size ar) (read_pos ar) (buffered ar) else Some [])))"

definition audio_regulator_buffered_samples :: "audio_regulator \<Rightarrow> nat option" where
  "audio_regulator_buffered_samples ar =
     (if bytes_per_frame ar = 0 then None else Some (buffered ar div bytes_per_frame ar))"

section \<open>The window of samples\<close>

definition reg_ok :: "audio_regulator \<Rightarrow> bool" where
  "reg_ok ar \<longleftrightarrow>
     (\<exists>b. ring ar = Some b \<and> length b = buf_size ar) \<and> 0 < buf_size ar \<and> buf_size ar < 2 ^ 30 \<and>
     0 < bytes_per_frame ar \<and> bytes_per_frame ar \<le> buf_size ar \<and>
     read_pos ar < buf_size ar \<and> buffered ar \<le> buf_size ar \<and>
     write_pos ar = (read_pos ar + buffered ar) mod buf_size ar"

definition ring_bytes :: "audio_regulator \<Rightarrow> bytes" where
  "ring_bytes ar = map (\<lambda>i. the (ring ar) ! ((read_pos ar + i) mod buf_size ar)) [0..<buffered ar]"

lemma length_ring_bytes [simp]: "length (ring_bytes ar) = buffered ar"
  by (simp add: ring_bytes_def)

lemma mod_once: "x < 2 * n \<Longrightarrow> x mod n = (if x < n then x else x - (n :: nat))"
  by (simp add: le_mod_geq)

text \<open>What a write of two parts leaves: \<open>f\<close> samples up to the end of the block, the others from its start.\<close>

definition wrapped_write :: "'a list \<Rightarrow> nat \<Rightarrow> nat \<Rightarrow> 'a list \<Rightarrow> 'a list \<Rightarrow> bool" where
  "wrapped_write b n pos data b' \<longleftrightarrow>
     (\<forall>i < length data. length data \<le> i + n \<longrightarrow> b' ! ((pos + i) mod n) = data ! i) \<and>
     (\<forall>i < n. length data \<le> i \<longrightarrow> b' ! ((pos + i) mod n) = b ! ((pos + i) mod n))"

lemma write_in_one_part:
  assumes "pos < n" and "length data \<le> n - pos"
    and "\<And>j. j < n \<Longrightarrow> b1 ! j = (if pos \<le> j \<and> j < pos + length data then data ! (j - pos) else b ! j)"
  shows "wrapped_write b n pos data b1"
  unfolding wrapped_write_def
proof (intro conjI allI impI)
  show "b1 ! ((pos + i) mod n) = data ! i" if "i < length data" for i
    using that assms(3) [of "pos + i"] assms(1,2) by simp
  show "b1 ! ((pos + i) mod n) = b ! ((pos + i) mod n)" if "i < n" "length data \<le> i" for i
    using assms(3) [of "(pos + i) mod n"] that assms(1,2) mod_once [of "pos + i" n] by auto
qed

lemma write_in_two_parts:
  assumes "pos < n" and "length data \<le> 2 * n - pos" and fn: "f = n - pos" "f < length data"
    and b1: "\<And>j. j < n \<Longrightarrow> b1 ! j = (if pos \<le> j \<and> j < pos + f then data ! (j - pos) else b ! j)"
    and b2: "\<And>j. j < n \<Longrightarrow> b2 ! j = (if j < length data - f then drop f data ! j else b1 ! j)"
  shows "wrapped_write b n pos data b2"
  unfolding wrapped_write_def
proof (intro conjI allI impI)
  fix i assume i: "i < length data" "length data \<le> i + n"
  show "b2 ! ((pos + i) mod n) = data ! i"
  proof (cases "pos + i < n")
    case True
    then have "\<not> pos + i < length data - f" using i(2) fn assms(1) by linarith
    then show ?thesis using True b2 [of "pos + i"] b1 [of "pos + i"] fn by simp
  next
    case False
    have "pos + i < 2 * n" using i(1) assms(2) by linarith
    moreover from this False have "(pos + i) mod n = pos + i - n" by (simp add: mod_once)
    moreover have "pos + i - n < length data - f" "f + (pos + i - n) = i"
      using False i(1) fn assms(1) by linarith+
    ultimately show ?thesis using b2 [of "pos + i - n"] False fn by simp
  qed
next
  fix i assume i: "i < n" "length data \<le> i"
  have m: "(pos + i) mod n = pos + i - n" "n \<le> pos + i"
    using i fn assms(1) mod_once [of "pos + i" n] by simp_all
  have "\<not> pos + i - n < length data - f" "pos + i - n < pos" "pos + i - n < n"
    using i m(2) fn assms(1) by linarith+
  then show "b2 ! ((pos + i) mod n) = b ! ((pos + i) mod n)" using b2 [of "pos + i - n"] b1 [of "pos + i - n"] m(1) by simp
qed

lemma ring_write_ok:
  assumes "length b = n" and "pos < n" and "length data \<le> 2 * n - pos"
  obtains b' where "ring_write b n pos data = Some b'" "length b' = n"
    "\<And>i. i < length data \<Longrightarrow> length data \<le> i + n \<Longrightarrow> b' ! ((pos + i) mod n) = data ! i"
    "\<And>i. length data \<le> i \<Longrightarrow> i < n \<Longrightarrow> b' ! ((pos + i) mod n) = b ! ((pos + i) mod n)"
proof -
  define f where "f = min (n - pos) (length data)"
  have f: "pos + length (take f data) \<le> length b" and lf: "length (take f data) = f" using assms(1,2) by (simp_all add: f_def)
  obtain b1 where b1: "write_at b pos (take f data) = Some b1" "length b1 = n"
    "\<And>j. j < n \<Longrightarrow> b1 ! j = (if pos \<le> j \<and> j < pos + f then data ! (j - pos) else b ! j)"
    using write_at_ok [OF f] assms(1) unfolding lf by (metis (lifting) add_diff_inverse_nat nat_add_left_cancel_less not_le nth_take)
  have "\<exists>b'. ring_write b n pos data = Some b' \<and> length b' = n \<and> wrapped_write b n pos data b'"
  proof (cases "f < length data")
    case False
    then have "length data \<le> n - pos" "f = length data" by (simp_all add: f_def)
    then show ?thesis
      using write_in_one_part [of pos n data b1 b] assms(2) b1 by (simp add: ring_write_def f_def [symmetric])
  next
    case True
    then have fn: "f = n - pos" by (auto simp: f_def)
    have g: "0 + length (drop f data) \<le> length b1" using b1(2) assms fn by simp
    obtain b2 where b2: "write_at b1 0 (drop f data) = Some b2" "length b2 = length b1"
      "\<And>j. j < length b1 \<Longrightarrow> b2 ! j = (if 0 \<le> j \<and> j < 0 + length (drop f data) then drop f data ! (j - 0) else b1 ! j)"
      by (rule write_at_ok [OF g]) blast
    then show ?thesis
      using write_in_two_parts [OF assms(2,3) fn True b1(3), of b2] b1(1,2) True by (simp add: ring_write_def f_def [symmetric])
  qed
  then show ?thesis using that unfolding wrapped_write_def by blast
qed

text \<open>A second chunk longer than the ring leaves the block.\<close>

lemma ring_write_overrun:
  assumes "length b = n" and "pos < n" and "2 * n - pos < length data"
  shows "ring_write b n pos data = None"
  using assms by (auto simp: ring_write_def Let_def write_at_def min_def bind_eq_None_conv)

lemma u32n_add: "u32n (u32n a + b) = u32n (a + b)"
  by (simp add: u32n_def mod_add_left_eq)

lemma drop_oldest_drops:
  assumes "u32n (buffered ar + n) = t" and "0 < bytes_per_frame ar" and "bytes_per_frame ar \<le> buf_size ar"
    and "buf_size ar < 2 ^ 30" and "read_pos ar < buf_size ar"
  shows "\<exists>k b. drop_oldest n ar =
       Some (ar\<lparr>read_pos := (read_pos ar + k * bytes_per_frame ar) mod buf_size ar, buffered := b\<rparr>) \<and>
     u32n (b + n) = t - k * bytes_per_frame ar \<and> k * bytes_per_frame ar \<le> t \<and>
     t - k * bytes_per_frame ar \<le> buf_size ar \<and> (k = 0 \<or> buf_size ar < t - (k - 1) * bytes_per_frame ar)"
  using assms
proof (induction t arbitrary: ar rule: less_induct)
  case (less t)
  let ?f = "bytes_per_frame ar" and ?n = "buf_size ar"
  show ?case
  proof (cases "t \<le> ?n")
    case True
    then have "drop_oldest n ar = Some ar" using less.prems(1) by (subst drop_oldest.simps) simp
    then show ?thesis using True less.prems by (intro exI [of _ 0] exI [of _ "buffered ar"]) simp
  next
    case False
    let ?ar = "ar\<lparr>read_pos := u32n (read_pos ar + ?f) mod ?n, buffered := u32n (buffered ar + (2 ^ 32 - ?f))\<rparr>"
    have small: "read_pos ar + ?f < 2 ^ 32" "?f < 2 ^ 32" using less.prems(3-5) by simp_all
    have f: "bytes_per_frame ?ar = ?f" by (simp add: bytes_per_frame_def)
    have t: "t < 2 ^ 32" using less.prems(1) by (auto simp: u32n_def)
    have "u32n (buffered ?ar + n) = u32n (buffered ar + n + (2 ^ 32 - ?f))"
      using u32n_add [of "buffered ar + (2 ^ 32 - ?f)" n] by (simp add: ac_simps)
    also have "\<dots> = u32n (t + (2 ^ 32 - ?f))" using less.prems(1) u32n_add [of "buffered ar + n" "2 ^ 32 - ?f"] by simp
    also have "\<dots> = u32n (t - ?f)"
    proof -
      have "t + (2 ^ 32 - ?f) = (t - ?f) + 2 ^ 32" using False less.prems(3) small(2) by simp
      then show ?thesis by (simp add: u32n_def)
    qed
    also have "\<dots> = t - ?f" using t by simp
    finally have t1: "u32n (buffered ?ar + n) = t - ?f" .
    have rd: "read_pos ?ar = (read_pos ar + ?f) mod ?n" using small by simp
    obtain k b where k: "drop_oldest n ?ar =
        Some (?ar\<lparr>read_pos := (read_pos ?ar + k * ?f) mod ?n, buffered := b\<rparr>)"
      "u32n (b + n) = (t - ?f) - k * ?f" "k * ?f \<le> t - ?f" "(t - ?f) - k * ?f \<le> ?n"
      "k = 0 \<or> ?n < (t - ?f) - (k - 1) * ?f"
      using less.IH [OF _ t1] less.prems False f by auto
    have "drop_oldest n ar = drop_oldest n ?ar"
      using False less.prems(1) by (subst drop_oldest.simps) simp
    have "drop_oldest n ar = Some (ar\<lparr>read_pos := (read_pos ar + Suc k * ?f) mod ?n, buffered := b\<rparr>)"
    proof -
      have "(read_pos ?ar + k * ?f) mod ?n = (read_pos ar + ?f + k * ?f) mod ?n" unfolding rd by (rule mod_add_left_eq)
      then have "(read_pos ?ar + k * ?f) mod ?n = (read_pos ar + Suc k * ?f) mod ?n" by (simp add: add.assoc)
      with k(1) \<open>drop_oldest n ar = drop_oldest n ?ar\<close> show ?thesis by simp
    qed
    moreover have "k = 0 \<or> ?n < t - k * ?f" using k(5) by (cases k) (simp_all add: diff_diff_left)
    ultimately show ?thesis
      using k(2-4) False less.prems(3) by (intro exI [of _ "Suc k"] exI [of _ b]) (auto simp: diff_diff_left)
  qed
qed

lemma ring_index:
  assumes "(a :: nat) mod n = b mod n"
  shows "(a + i) mod n = (b + i) mod n"
  using assms by (metis mod_add_left_eq)

text \<open>Where the bytes of the window and the new data stand after the write.\<close>

lemma written_cell:
  assumes "reg_ok ar" and "ring ar = Some b" and "g < buffered ar + length data" and "buffered ar + length data \<le> g + buf_size ar"
    and new: "\<And>i. i < length data \<Longrightarrow> length data \<le> i + buf_size ar \<Longrightarrow> b' ! ((write_pos ar + i) mod buf_size ar) = data ! i"
    and old: "\<And>i. length data \<le> i \<Longrightarrow> i < buf_size ar \<Longrightarrow>
      b' ! ((write_pos ar + i) mod buf_size ar) = b ! ((write_pos ar + i) mod buf_size ar)"
  shows "b' ! ((read_pos ar + g) mod buf_size ar) = (ring_bytes ar @ data) ! g"
proof -
  let ?n = "buf_size ar"
  have w: "write_pos ar = (read_pos ar + buffered ar) mod ?n" and n: "buffered ar \<le> ?n" using assms(1) by (simp_all add: reg_ok_def)
  show ?thesis
  proof (cases "g < buffered ar")
    case True
    have "(write_pos ar + (?n + g - buffered ar)) mod ?n = (read_pos ar + buffered ar + (?n + g - buffered ar)) mod ?n"
      by (simp add: w mod_add_left_eq)
    also have "read_pos ar + buffered ar + (?n + g - buffered ar) = (read_pos ar + g) + ?n" using n by simp
    finally have "(write_pos ar + (?n + g - buffered ar)) mod ?n = (read_pos ar + g) mod ?n" by simp
    then have "b' ! ((read_pos ar + g) mod ?n) = b ! ((read_pos ar + g) mod ?n)"
      using old [of "?n + g - buffered ar"] True n assms(4) by simp
    then show ?thesis using True assms(2) by (simp add: nth_append ring_bytes_def)
  next
    case False
    then obtain i where i: "g = buffered ar + i" by (metis le_Suc_ex not_less)
    have "(write_pos ar + i) mod ?n = (read_pos ar + buffered ar + i) mod ?n" unfolding w by (rule mod_add_left_eq)
    then show ?thesis using new [of i] assms(3,4) by (simp add: i nth_append add.assoc)
  qed
qed

lemma push_window:
  assumes ok: "reg_ok ar" and small: "length data \<le> 2 * buf_size ar - write_pos ar"
  shows "\<exists>k ar'. audio_regulator_push ar data = Some (Pushed ar') \<and> reg_ok ar' \<and>
     ring_bytes ar' = drop (k * bytes_per_frame ar) (ring_bytes ar @ data) \<and> bytes_per_frame ar' = bytes_per_frame ar \<and>
     buf_size ar' = buf_size ar \<and> k * bytes_per_frame ar \<le> buffered ar + length data \<and>
     (k = 0 \<or> buf_size ar < buffered ar + length data - (k - 1) * bytes_per_frame ar)"
proof -
  let ?n = "buf_size ar" and ?f = "bytes_per_frame ar" and ?t = "buffered ar + length data"
  obtain b where b: "ring ar = Some b" "length b = ?n" using ok by (auto simp: reg_ok_def)
  have n: "0 < ?n" "?n < 2 ^ 30" "0 < ?f" "?f \<le> ?n" "read_pos ar < ?n" "buffered ar \<le> ?n"
    and w: "write_pos ar = (read_pos ar + buffered ar) mod ?n" using ok by (simp_all add: reg_ok_def)
  have wn: "write_pos ar < ?n" using n(1) w by simp
  have t: "u32n ?t = ?t" using n small by simp
  obtain k c where k: "drop_oldest (length data) ar =
      Some (ar\<lparr>read_pos := (read_pos ar + k * ?f) mod ?n, buffered := c\<rparr>)"
    "u32n (c + length data) = ?t - k * ?f" "k * ?f \<le> ?t" "?t - k * ?f \<le> ?n"
    "k = 0 \<or> ?n < ?t - (k - 1) * ?f"
    using drop_oldest_drops [of ar "length data" ?t] t n by auto
  obtain b' where b': "ring_write b ?n (write_pos ar) data = Some b'" "length b' = ?n"
    and new: "\<And>i. i < length data \<Longrightarrow> length data \<le> i + ?n \<Longrightarrow> b' ! ((write_pos ar + i) mod ?n) = data ! i"
    and old: "\<And>i. length data \<le> i \<Longrightarrow> i < ?n \<Longrightarrow> b' ! ((write_pos ar + i) mod ?n) = b ! ((write_pos ar + i) mod ?n)"
    by (rule ring_write_ok [OF b(2) wn small]) blast
  let ?ar = "ar\<lparr>ring := Some b', write_pos := (write_pos ar + length data) mod ?n,
     read_pos := (read_pos ar + k * ?f) mod ?n, buffered := ?t - k * ?f\<rparr>"
  have wl: "u32n (write_pos ar + length data) = write_pos ar + length data" using wn small n by simp
  have push: "audio_regulator_push ar data = Some (Pushed ?ar)"
    using k(1,2) b b'(1) n(1) wl by (simp add: audio_regulator_push_def)
  have f: "bytes_per_frame ?ar = ?f" by (simp add: bytes_per_frame_def)
  have "(read_pos ar + buffered ar + length data) mod ?n = (read_pos ar + k * ?f + (?t - k * ?f)) mod ?n"
    using k(3) by (simp add: add.assoc)
  then have "write_pos ?ar = (read_pos ?ar + buffered ?ar) mod buf_size ?ar"
    by (simp add: w mod_add_left_eq)
  then have ok': "reg_ok ?ar" using n k(4) b'(2) unfolding reg_ok_def f by simp
  have "ring_bytes ?ar = drop (k * ?f) (ring_bytes ar @ data)"
  proof (rule nth_equalityI)
    show "length (ring_bytes ?ar) = length (drop (k * ?f) (ring_bytes ar @ data))" by simp
  next
    fix j assume "j < length (ring_bytes ?ar)"
    then have j: "j < ?t - k * ?f" by simp
    let ?g = "k * ?f + j"
    have at': "ring_bytes ?ar ! j = b' ! ((read_pos ar + ?g) mod ?n)"
      using j by (simp add: ring_bytes_def mod_add_left_eq add.assoc)
    have g: "?g < ?t" "?t \<le> ?g + ?n" using j k(3,4) by linarith+
    have "drop (k * ?f) (ring_bytes ar @ data) ! j = (ring_bytes ar @ data) ! ?g"
      by (rule nth_drop) (use k(3) in simp)
    then show "ring_bytes ?ar ! j = drop (k * ?f) (ring_bytes ar @ data) ! j"
      using at' written_cell [OF ok b(1) g new old] by simp
  qed
  with push ok' f k(3,5) show ?thesis by (intro exI [of _ k] exI [of _ ?ar]) simp
qed

lemma push_overrun:
  assumes ok: "reg_ok ar" and big: "2 * buf_size ar - write_pos ar < length data" and small: "length data < 2 ^ 31"
  shows "audio_regulator_push ar data = Some Ring_Fault"
proof -
  let ?n = "buf_size ar"
  obtain b where b: "ring ar = Some b" "length b = ?n" using ok by (auto simp: reg_ok_def)
  have n: "0 < ?n" "?n < 2 ^ 30" "0 < bytes_per_frame ar" "bytes_per_frame ar \<le> ?n" "read_pos ar < ?n"
    "buffered ar \<le> ?n" "write_pos ar < ?n" using ok by (auto simp: reg_ok_def)
  obtain k c where "drop_oldest (length data) ar =
      Some (ar\<lparr>read_pos := (read_pos ar + k * bytes_per_frame ar) mod ?n, buffered := c\<rparr>)"
    using drop_oldest_drops [of ar "length data" "buffered ar + length data"] n small by auto
  then show ?thesis using b n(1) ring_write_overrun [OF b(2) n(7) big] by (simp add: audio_regulator_push_def)
qed

text \<open>C24. Pushing onto the ring keeps the latest bytes: the window after a push is the window before
  followed by the data, less the smallest number of whole frames from its front that makes it
  fit, for every amount of data that ends before the write position comes round a second
  time. With more data than that the push writes outside the ring.\<close>

theorem audio_regulator_push_window:
  assumes "reg_ok ar" and "length data < 2 ^ 31"
  shows "if length data \<le> 2 * buf_size ar - write_pos ar
     then \<exists>k ar'. audio_regulator_push ar data = Some (Pushed ar') \<and> reg_ok ar' \<and>
            ring_bytes ar' = drop (k * bytes_per_frame ar) (ring_bytes ar @ data) \<and>
            (k = 0 \<or> buf_size ar < buffered ar + length data - (k - 1) * bytes_per_frame ar)
     else audio_regulator_push ar data = Some Ring_Fault"
  using push_window [OF assms(1), of data] push_overrun [OF assms(1) _ assms(2)] by auto

lemma init_ok:
  assumes "u32n (rate * 50) div 1000 * chans * bps < 2 ^ 30" and "0 < u32n (rate * 50) div 1000"
    and "0 < chans * bps" and "mal (ring_size rate chans bps) = Some b" and "length b = ring_size rate chans bps"
  shows "reg_ok (snd (audio_regulator_init mal rate chans bps)) \<and>
     buf_size (snd (audio_regulator_init mal rate chans bps)) = u32n (rate * 50) div 1000 * chans * bps"
proof -
  let ?m = "u32n (rate * 50) div 1000"
  have cb: "chans * bps \<le> ?m * (chans * bps)" using mult_le_mono1 [of 1 ?m "chans * bps"] assms(2) by linarith
  have "?m * (chans * bps) < 2 ^ 32" using assms(1) by (simp add: mult.assoc)
  with cb have c: "chans * bps < 2 ^ 32" by (rule le_less_trans)
  then have n: "ring_size rate chans bps = ?m * chans * bps"
    using assms(1) by (simp add: ring_size_def BUFFER_DURATION_MS_def mult.assoc)
  have "0 < ?m * chans * bps" using assms(2,3) by simp
  with n c cb assms show ?thesis
    by (simp add: audio_regulator_init_def reg_ok_def bytes_per_frame_def Let_def mult.assoc)
qed

theorem audio_regulator_push_window_witness:
  "\<exists>ar'. audio_regulator_push
       (snd (audio_regulator_init (\<lambda>n. Some (replicate n 0)) 100 1 2)) [1, 2, 3, 4, 5, 6, 7, 8, 9, 10, 11, 12] = Some (Pushed ar') \<and>
     ring_bytes ar' = [3, 4, 5, 6, 7, 8, 9, 10, 11, 12]"
proof -
  let ?ar = "snd (audio_regulator_init (\<lambda>n. Some (replicate n 0)) 100 1 2)"
  let ?d = "[1, 2, 3, 4, 5, 6, 7, 8, 9, 10, 11, 12] :: bytes"
  have ar: "reg_ok ?ar" "buf_size ?ar = 10"
    using init_ok [of 100 1 2 "\<lambda>n. Some (replicate n 0)"] by (simp_all add: u32n_def)
  have pos: "write_pos ?ar = 0" "buffered ?ar = 0" "bytes_per_frame ?ar = 2"
    by (simp_all add: audio_regulator_init_def Let_def bytes_per_frame_def)
  then have empty: "ring_bytes ?ar = []" by (simp add: ring_bytes_def)
  obtain k ar' where k: "audio_regulator_push ?ar ?d = Some (Pushed ar')" "reg_ok ar'"
    "ring_bytes ar' = drop (k * 2) ?d" "k = 0 \<or> 10 < 12 - (k - 1) * 2"
    using audio_regulator_push_window [OF ar(1), of ?d] ar(2) pos empty by auto
  have "buf_size ar' = 10 \<and> length (ring_bytes ar') \<le> buf_size ar'"
  proof -
    obtain ar2 where "audio_regulator_push ?ar ?d = Some (Pushed ar2)" "buf_size ar2 = 10" "reg_ok ar2"
      using push_window [OF ar(1), of ?d] ar(2) pos by auto
    then show ?thesis using k(1) by (simp add: reg_ok_def)
  qed
  then have "length (drop (k * 2) ?d) \<le> 10" using k(3) by simp
  then have "k = 1" using k(4) by auto
  with k show ?thesis by auto
qed

section \<open>Pulling\<close>

lemma ring_read_ok:
  assumes "length b = n" and "pos < n" and "k \<le> n"
  shows "ring_read b n pos k = Some (map (\<lambda>i. b ! ((pos + i) mod n)) [0..<k])"
proof -
  define f where "f = min (n - pos) k"
  have m: "min (n - pos) k = f" and fit: "pos + f \<le> length b" using assms(1,2) by (simp_all add: f_def)
  have one: "take f (drop pos b) = map (\<lambda>i. b ! ((pos + i) mod n)) [0..<f]"
    using assms by (intro nth_equalityI) (auto simp: f_def)
  show ?thesis
  proof (cases "f < k")
    case False
    then have "f = k" by (simp add: f_def)
    with one fit show ?thesis by (simp add: ring_read_def m read_at_def)
  next
    case True
    then have f: "f = n - pos" by (auto simp: f_def)
    have two: "take (k - f) b = map (\<lambda>i. b ! ((pos + (f + i)) mod n)) [0..<k - f]"
      using assms f by (intro nth_equalityI) (auto simp: mod_once)
    have "[0..<k] = [0..<f] @ map (\<lambda>i. f + i) [0..<k - f]"
    proof -
      have "[0..<k] = [0..<f] @ [f..<k]" using upt_add_eq_append [of 0 f "k - f"] True by simp
      moreover have "[f..<k] = map (\<lambda>i. f + i) [0..<k - f]" using True map_add_upt [of f "k - f"] by (simp add: add.commute)
      ultimately show ?thesis by simp
    qed
    then have "map (\<lambda>i. b ! ((pos + i) mod n)) [0..<k] = take f (drop pos b) @ take (k - f) b"
      using one two by (simp add: o_def)
    then show ?thesis
      using True fit assms f by (simp add: ring_read_def m read_at_def)
  qed
qed

text \<open>C25. A pull writes exactly the samples asked for: the front of the window, and silence for what the
  window lacks; the window loses what was read.\<close>

theorem audio_regulator_pull_window:
  assumes "reg_ok ar" and "samples * reg_channels ar * bytes_per_sample ar < 2 ^ 31" and "0 < bytes_per_sample ar"
  shows "\<exists>out ar'. audio_regulator_pull ar samples = Some (out, ar') \<and> reg_ok ar' \<and>
     length out = samples * reg_channels ar * bytes_per_sample ar \<and>
     out = take (length out) (ring_bytes ar) @ replicate (length out - buffered ar) 0 \<and>
     ring_bytes ar' = drop (length out) (ring_bytes ar)"
proof -
  let ?n = "buf_size ar" and ?k = "samples * reg_channels ar * bytes_per_sample ar"
  obtain b where b: "ring ar = Some b" "length b = ?n" using assms(1) by (auto simp: reg_ok_def)
  have n: "0 < ?n" "?n < 2 ^ 30" "read_pos ar < ?n" "buffered ar \<le> ?n"
    and w: "write_pos ar = (read_pos ar + buffered ar) mod ?n" using assms(1) by (simp_all add: reg_ok_def)
  have "samples * reg_channels ar \<le> ?k"
    using mult_le_mono2 [of 1 "bytes_per_sample ar" "samples * reg_channels ar"] assms(3) by linarith
  then have "samples * reg_channels ar < 2 ^ 31" using assms(2) by (rule le_less_trans)
  then have "samples * reg_channels ar < 2 ^ 32" by simp
  then have k: "u32n (u32n (samples * reg_channels ar) * bytes_per_sample ar) = ?k" using assms(2) by simp
  have rd: "ring_read b ?n (read_pos ar) j = Some (take j (ring_bytes ar))" if "j \<le> buffered ar" for j
    using ring_read_ok [OF b(2) n(3), of j] that n(4) b(1) by (simp add: ring_bytes_def take_map)
  have f: "bytes_per_frame (ar\<lparr>read_pos := r, buffered := m\<rparr>) = bytes_per_frame ar"
    "bytes_per_frame (ar\<lparr>read_pos := r, write_pos := p, buffered := m, underflow_count := u\<rparr>) = bytes_per_frame ar"
    for r m p u by (simp_all add: bytes_per_frame_def)
  show ?thesis
  proof (cases "?k \<le> buffered ar")
    case True
    let ?ar = "ar\<lparr>read_pos := (read_pos ar + ?k) mod ?n, buffered := buffered ar - ?k\<rparr>"
    have "(read_pos ar + ?k) < 2 ^ 32" using n(2,3) assms(2) by simp
    then have pull: "audio_regulator_pull ar samples = Some (take ?k (ring_bytes ar), ?ar)"
      using True b(1) n(1) by (simp add: audio_regulator_pull_def k rd Let_def)
    have "((read_pos ar + ?k) mod ?n + (buffered ar - ?k)) mod ?n = (read_pos ar + ?k + (buffered ar - ?k)) mod ?n"
      by (rule mod_add_left_eq)
    then have "write_pos ?ar = (read_pos ?ar + buffered ?ar) mod buf_size ?ar" using True by (simp add: w)
    then have "reg_ok ?ar" using assms(1) n f(1) by (simp add: reg_ok_def)
    moreover have "ring_bytes ?ar = drop ?k (ring_bytes ar)"
      by (rule nth_equalityI) (auto simp: ring_bytes_def mod_add_left_eq add.assoc)
    ultimately show ?thesis
      using pull True by (intro exI [of _ "take ?k (ring_bytes ar)"] exI [of _ ?ar]) (simp add: min_def)
  next
    case False
    let ?ar = "ar\<lparr>read_pos := 0, write_pos := 0, buffered := 0, underflow_count := u32n (underflow_count ar + 1)\<rparr>"
    let ?out = "ring_bytes ar @ replicate (?k - buffered ar) 0"
    have "buffered ar = 0 \<Longrightarrow> ring_bytes ar = []" by (simp add: ring_bytes_def)
    then have pull: "audio_regulator_pull ar samples = Some (?out, ?ar)"
      using False b(1) rd [of "buffered ar"] by (simp add: audio_regulator_pull_def k Let_def)
    have "reg_ok ?ar" using assms(1) n f(2) by (simp add: reg_ok_def)
    moreover have "ring_bytes ?ar = []" by (simp add: ring_bytes_def)
    ultimately show ?thesis
      using pull False by (intro exI [of _ ?out] exI [of _ ?ar]) simp
  qed
qed

theorem audio_regulator_pull_window_witness:
  "\<exists>ar'. audio_regulator_pull (snd (audio_regulator_init (\<lambda>n. Some (replicate n 0)) 100 1 2)) 2 = Some ([0, 0, 0, 0], ar') \<and>
     ring_bytes ar' = []"
proof -
  let ?ar = "snd (audio_regulator_init (\<lambda>n. Some (replicate n 0)) 100 1 2)"
  have ar: "reg_ok ?ar" using init_ok [of 100 1 2 "\<lambda>n. Some (replicate n 0)"] by (simp_all add: u32n_def)
  have p: "reg_channels ?ar = 1" "bytes_per_sample ?ar = 2" "buffered ?ar = 0"
    by (simp_all add: audio_regulator_init_def Let_def)
  have empty: "ring_bytes ?ar = []" using p by (simp add: ring_bytes_def)
  have "\<exists>out ar'. audio_regulator_pull ?ar 2 = Some (out, ar') \<and> reg_ok ar' \<and> length out = 4 \<and>
     out = take (length out) (ring_bytes ?ar) @ replicate (length out - buffered ?ar) 0 \<and>
     ring_bytes ar' = drop (length out) (ring_bytes ?ar)"
    using audio_regulator_pull_window [OF ar, of 2] unfolding p by simp
  then show ?thesis using empty p by (auto simp: eval_nat_numeral)
qed

end
