(* ===== verification/Tls.thy ===== *)
theory Tls
  imports Sockets
begin

text \<open>
  The transport half of \<open>src/adb/tls.c\<close>: \<open>tls_send\<close>, \<open>tls_recv\<close> and the handshake loop
  over the mbedTLS calls, whose outcomes are scripts as the socket calls' are. The
  repeated reads and writes of \<open>src/adb/protocol.c\<close> over TLS are here too, so that both
  transports give the same interface \<open>byte_reader\<close>.
\<close>

section \<open>Outcomes of the mbedTLS calls\<close>

text \<open>
  \<open>mbedtls_ssl_read\<close>: decrypted data (an empty chunk is the return value 0, the closed
  transport), \<open>WANT_READ\<close> or \<open>WANT_WRITE\<close>, a TLS 1.3 session ticket, the peer's close
  notification, or another error. After the last event the transport is closed.
\<close>

datatype ssl_event = Ssl_Data bytes | Ssl_Want | Ssl_Ticket | Ssl_Close_Notify | Ssl_Error

text \<open>\<open>mbedtls_ssl_write\<close>: the number of bytes taken, a want report, or an error.\<close>

datatype ssl_send_event = Ssl_Accept nat | Ssl_Send_Want | Ssl_Send_Error

text \<open>The context \<open>tls_ctx_t\<close>: what the session will report, and what it was given to send.\<close>

record tls_ctx =
  ssl_in :: "ssl_event list"
  ssl_out :: "ssl_send_event list"
  ssl_wire :: bytes

section \<open>tls\_recv and tls\_send\<close>

text \<open>The return values \<open>n > 0\<close>, 0 and -1.\<close>

datatype tls_result = Tls_Got bytes | Tls_Again | Tls_Fail

fun tls_recv :: "nat \<Rightarrow> ssl_event list \<Rightarrow> tls_result \<times> ssl_event list" where
  "tls_recv len [] = (Tls_Fail, [])"
| "tls_recv len (Ssl_Data bs # es) =
     (if bs = [] then (Tls_Fail, es)
      else if length bs \<le> len then (Tls_Got bs, es)
      else (Tls_Got (take len bs), Ssl_Data (drop len bs) # es))"
| "tls_recv len (Ssl_Want # es) = (Tls_Again, es)"
| "tls_recv len (Ssl_Ticket # es) = tls_recv len es"
| "tls_recv len (Ssl_Close_Notify # es) = (Tls_Again, es)"
| "tls_recv len (Ssl_Error # es) = (Tls_Fail, es)"

datatype tls_send_result = Tls_Sent nat | Tls_Send_Fail

text \<open>\<open>Tls_Sent 0\<close> is the return value 0, both for a want report and for a write of 0 bytes.\<close>

definition tls_send :: "bytes \<Rightarrow> tls_ctx \<Rightarrow> tls_send_result \<times> tls_ctx" where
  "tls_send bs ctx =
     (case ssl_out ctx of
        [] \<Rightarrow> (Tls_Sent (length bs), ctx\<lparr>ssl_wire := ssl_wire ctx @ bs\<rparr>)
      | Ssl_Accept k # es \<Rightarrow>
          (Tls_Sent (min k (length bs)), ctx\<lparr>ssl_out := es, ssl_wire := ssl_wire ctx @ take k bs\<rparr>)
      | Ssl_Send_Want # es \<Rightarrow> (Tls_Sent 0, ctx\<lparr>ssl_out := es\<rparr>)
      | Ssl_Send_Error # es \<Rightarrow> (Tls_Send_Fail, ctx\<lparr>ssl_out := es\<rparr>))"

section \<open>The handshake loop\<close>

text \<open>
  \<open>tls_handshake\<close>: without \<open>tls_init\<close>, without memory or when \<open>mbedtls_ssl_setup\<close> fails
  there is no context; otherwise \<open>mbedtls_ssl_handshake\<close> is called until it succeeds or
  reports something other than a want. \<open>session\<close> is the context of a finished handshake.
\<close>

datatype handshake_event = Hs_Done | Hs_Want | Hs_Error

fun handshake_loop :: "handshake_event list \<Rightarrow> bool" where
  "handshake_loop [] = False"
| "handshake_loop (Hs_Done # es) = True"
| "handshake_loop (Hs_Want # es) = handshake_loop es"
| "handshake_loop (Hs_Error # es) = False"

definition tls_handshake ::
  "bool \<Rightarrow> bool \<Rightarrow> bool \<Rightarrow> handshake_event list \<Rightarrow> tls_ctx \<Rightarrow> tls_ctx option" where
  "tls_handshake tls_initialized calloc_ok setup_ok hs session =
     (if \<not> tls_initialized then None
      else if \<not> calloc_ok then None
      else if \<not> setup_ok then None
      else if handshake_loop hs then Some session else None)"

section \<open>Repeated reads\<close>

text \<open>
  The read loops of \<open>adb_recv_msg_tls\<close>: a want report ends the loop with return value 0
  after some bytes have already been taken from the session (\<open>Tls_Partial\<close>).
\<close>

datatype tls_read = Tls_Full bytes | Tls_Partial bytes | Tls_Broken

lemma tls_recv_Got:
  assumes "tls_recv n es = (Tls_Got bs, es')" and "0 < n"
  shows "0 < length bs" and "length bs \<le> n" and "length es' \<le> length es"
  using assms by (induction n es rule: tls_recv.induct) (auto split: if_splits)

function tls_read_loop :: "nat \<Rightarrow> ssl_event list \<Rightarrow> tls_read \<times> ssl_event list" where
  "tls_read_loop n es =
     (if n = 0 then (Tls_Full [], es)
      else case tls_recv n es of
        (Tls_Got bs, es') \<Rightarrow>
          (case tls_read_loop (n - length bs) es' of
             (Tls_Full rest, es'') \<Rightarrow> (Tls_Full (bs @ rest), es'')
           | (Tls_Partial rest, es'') \<Rightarrow> (Tls_Partial (bs @ rest), es'')
           | (Tls_Broken, es'') \<Rightarrow> (Tls_Broken, es''))
      | (Tls_Again, es') \<Rightarrow> (Tls_Partial [], es')
      | (Tls_Fail, es') \<Rightarrow> (Tls_Broken, es'))"
  by pat_completeness auto
termination
proof (relation "measure (\<lambda>(n, es). n + length es)")
  show "wf (measure (\<lambda>(n, es :: ssl_event list). n + length es))" by simp
next
  fix n :: nat and es :: "ssl_event list" and r es' bs
  assume "n \<noteq> 0" and "(r, es') = tls_recv n es" and "r = Tls_Got bs"
  then have "tls_recv n es = (Tls_Got bs, es')" and "0 < n" by simp_all
  from tls_recv_Got [OF this]
  show "((n - length bs, es'), n, es) \<in> measure (\<lambda>(n, es). n + length es)"
    unfolding in_measure prod.case by linarith
qed

declare tls_read_loop.simps [simp del]

definition tls_get :: "nat \<Rightarrow> ssl_event list \<Rightarrow> bytes option \<times> ssl_event list" where
  "tls_get n es =
     (case tls_read_loop n es of (Tls_Full bs, es') \<Rightarrow> (Some bs, es') | (_, es') \<Rightarrow> (None, es'))"

text \<open>The bytes a session delivers before it reports anything but data and tickets.\<close>

fun ssl_ready :: "ssl_event list \<Rightarrow> bytes" where
  "ssl_ready [] = []"
| "ssl_ready (Ssl_Data bs # es) = (if bs = [] then [] else bs @ ssl_ready es)"
| "ssl_ready (Ssl_Want # es) = []"
| "ssl_ready (Ssl_Ticket # es) = ssl_ready es"
| "ssl_ready (Ssl_Close_Notify # es) = []"
| "ssl_ready (Ssl_Error # es) = []"

lemma tls_recv_ready:
  assumes "0 < n"
  shows "case tls_recv n es of (Tls_Got bs, es') \<Rightarrow> ssl_ready es = bs @ ssl_ready es' | _ \<Rightarrow> ssl_ready es = []"
  using assms by (induction n es rule: tls_recv.induct) (auto split: prod.splits tls_result.splits)

lemma tls_read_loop_spec:
  "case tls_read_loop n es of
      (Tls_Full bs, es') \<Rightarrow> length bs = n \<and> ssl_ready es = bs @ ssl_ready es'
    | (Tls_Partial bs, es') \<Rightarrow> length bs < n \<and> ssl_ready es = bs
    | (Tls_Broken, es') \<Rightarrow> length (ssl_ready es) < n"
proof (induction n es rule: tls_read_loop.induct)
  case (1 n es)
  show ?case
  proof (cases "n = 0")
    case True
    then show ?thesis by (simp add: tls_read_loop.simps)
  next
    case False
    then have n: "0 < n" by simp
    note st = tls_recv_ready [OF n, of es]
    obtain r es' where r: "tls_recv n es = (r, es')" by (cases "tls_recv n es")
    show ?thesis
    proof (cases r)
      case (Tls_Got bs)
      with r have g: "tls_recv n es = (Tls_Got bs, es')" by simp
      from "1.IH" [OF False r [symmetric] Tls_Got] g st tls_recv_Got [OF g n] False
      show ?thesis
        by (auto simp: tls_read_loop.simps [of n es] split: tls_read.splits prod.splits)
    qed (use r st n in \<open>simp_all add: tls_read_loop.simps [of n es]\<close>)
  qed
qed

lemma tls_get_spec:
  "case tls_get n es of
      (Some bs, es') \<Rightarrow> length bs = n \<and> ssl_ready es = bs @ ssl_ready es'
    | (None, es') \<Rightarrow> length (ssl_ready es) < n"
  using tls_read_loop_spec [of n es]
  by (auto simp: tls_get_def split: prod.splits tls_read.splits)

interpretation secure: byte_reader tls_get ssl_ready
  by (rule byte_reader_by_cases) (rule tls_get_spec)

section \<open>Repeated writes\<close>

text \<open>
  The write loop of \<open>adb_send_msg_tls\<close>: progress resets the retry counter, 500 want
  reports in a row end the loop. The result is \<open>sent == total_len\<close>, or failure.
\<close>

function tls_write_loop :: "nat \<Rightarrow> bytes \<Rightarrow> tls_ctx \<Rightarrow> bool \<times> tls_ctx" where
  "tls_write_loop retries bs ctx =
     (if bs = [] then (True, ctx)
      else if retries \<ge> 500 then (False, ctx)
      else case tls_send bs ctx of
        (Tls_Sent n, ctx') \<Rightarrow>
          if n > 0 then tls_write_loop 0 (drop n bs) ctx'
          else tls_write_loop (retries + 1) bs ctx'
      | (Tls_Send_Fail, ctx') \<Rightarrow> (False, ctx'))"
  by pat_completeness auto
termination
  by (relation "measure (\<lambda>(retries, bs, ctx). length bs + length (ssl_out ctx))")
    (auto simp: tls_send_def split: list.splits ssl_send_event.splits)

declare tls_write_loop.simps [simp del]

lemma tls_send_wire:
  "tls_send bs ctx = (Tls_Sent n, ctx') \<Longrightarrow> ssl_wire ctx' = ssl_wire ctx @ take n bs"
  by (auto simp: tls_send_def min_def split: list.splits ssl_send_event.splits if_splits)

lemma tls_write_loop_success:
  "tls_write_loop retries bs ctx = (True, ctx') \<Longrightarrow> ssl_wire ctx' = ssl_wire ctx @ bs"
proof (induction retries bs ctx rule: tls_write_loop.induct)
  case (1 retries bs ctx)
  show ?case
  proof (cases "bs = [] \<or> retries \<ge> 500")
    case True
    with "1.prems" show ?thesis by (auto simp: tls_write_loop.simps [of retries] split: if_splits)
  next
    case False
    then have ne: "bs \<noteq> []" "\<not> retries \<ge> 500" by simp_all
    obtain r ctx1 where r: "tls_send bs ctx = (r, ctx1)" by (cases "tls_send bs ctx")
    show ?thesis
    proof (cases r)
      case (Tls_Sent n)
      then show ?thesis
        using "1.IH"(1) [OF ne r [symmetric] Tls_Sent] "1.IH"(2) [OF ne r [symmetric] Tls_Sent]
          "1.prems" r ne tls_send_wire [of bs ctx n ctx1]
        by (cases "n > 0") (simp_all add: tls_write_loop.simps [of retries bs ctx])
    next
      case Tls_Send_Fail
      with "1.prems" r ne show ?thesis by (simp add: tls_write_loop.simps [of retries bs ctx])
    qed
  qed
qed

lemma tls_write_loop_idle [io_simps]:
  "ssl_out ctx = [] \<Longrightarrow> retries < 500 \<Longrightarrow>
     tls_write_loop retries bs ctx = (True, ctx\<lparr>ssl_wire := ssl_wire ctx @ bs\<rparr>)"
  by (cases "bs = []"; cases ctx)
    (simp_all add: tls_write_loop.simps [of retries bs] tls_write_loop.simps [of 0 "[]"]
      tls_write_loop.simps [of retries "[]"] tls_send_def)

text \<open>\<open>k\<close> want reports in a row are survived exactly when they stay below the bound.\<close>

lemma tls_write_loop_wants:
  "bs \<noteq> [] \<Longrightarrow> ssl_out ctx = replicate k Ssl_Send_Want @ es \<Longrightarrow> retries + k \<le> 500 \<Longrightarrow>
     tls_write_loop retries bs ctx = tls_write_loop (retries + k) bs (ctx\<lparr>ssl_out := es\<rparr>)"
proof (induction k arbitrary: retries ctx)
  case 0
  then show ?case by (cases ctx) simp
next
  case (Suc k)
  then have "tls_write_loop retries bs ctx =
      tls_write_loop (Suc retries) bs (ctx\<lparr>ssl_out := replicate k Ssl_Send_Want @ es\<rparr>)"
    by (simp add: tls_write_loop.simps [of retries bs ctx] tls_send_def)
  also have "\<dots> = tls_write_loop (Suc retries + k) bs (ctx\<lparr>ssl_out := es\<rparr>)"
    using Suc.prems Suc.IH [of "ctx\<lparr>ssl_out := replicate k Ssl_Send_Want @ es\<rparr>" "Suc retries"] by simp
  finally show ?case by simp
qed

text \<open>Writing touches nothing that is still to be read.\<close>

lemma tls_write_loop_ssl_in [simp]: "ssl_in (snd (tls_write_loop retries bs ctx)) = ssl_in ctx"
proof (induction retries bs ctx rule: tls_write_loop.induct)
  case (1 retries bs ctx)
  show ?case
  proof (cases "bs = [] \<or> retries \<ge> 500")
    case True
    then show ?thesis by (auto simp: tls_write_loop.simps [of retries])
  next
    case False
    then have ne: "bs \<noteq> []" "\<not> retries \<ge> 500" by simp_all
    obtain r ctx1 where r: "tls_send bs ctx = (r, ctx1)" by (cases "tls_send bs ctx")
    then have same: "ssl_in ctx1 = ssl_in ctx"
      by (auto simp: tls_send_def split: list.splits ssl_send_event.splits if_splits)
    show ?thesis
    proof (cases r)
      case (Tls_Sent n)
      then show ?thesis
        using "1.IH"(1) [OF ne r [symmetric] Tls_Sent] "1.IH"(2) [OF ne r [symmetric] Tls_Sent]
          r ne same by (cases "n > 0") (simp_all add: tls_write_loop.simps [of retries bs ctx])
    next
      case Tls_Send_Fail
      with r ne same show ?thesis by (simp add: tls_write_loop.simps [of retries bs ctx])
    qed
  qed
qed

end
