(* ===== verification/Adb_Protocol.thy ===== *)
theory Adb_Protocol
  imports Tls
begin

text \<open>
  The ADB message layer of \<open>src/adb/protocol.c\<close> with the constants and the header of
  \<open>src/adb/adb.h\<close>: checksum, framing, and the receive paths over a plain socket and over
  TLS. A header is a packed structure of six 32-bit fields, sent as it lies in the memory
  of a little-endian machine.
\<close>

section \<open>Constants and header\<close>

definition ADB_VERSION_SKIP_CHECKSUM :: u32 where "ADB_VERSION_SKIP_CHECKSUM = 0x01000001"
definition ADB_VERSION :: u32 where "ADB_VERSION = 0x01000001"
definition ADB_MAX_PAYLOAD :: nat where "ADB_MAX_PAYLOAD = 1024 * 1024"
definition ADB_CNXN :: u32 where "ADB_CNXN = 0x4e584e43"
definition ADB_AUTH :: u32 where "ADB_AUTH = 0x48545541"
definition ADB_OPEN :: u32 where "ADB_OPEN = 0x4e45504f"
definition ADB_OKAY :: u32 where "ADB_OKAY = 0x59414b4f"
definition ADB_WRTE :: u32 where "ADB_WRTE = 0x45545257"
definition ADB_CLSE :: u32 where "ADB_CLSE = 0x45534c43"
definition ADB_STLS :: u32 where "ADB_STLS = 0x534c5453"
definition ADB_STLS_VERSION :: u32 where "ADB_STLS_VERSION = 0x01000000"
definition ADB_AUTH_TYPE_TOKEN :: u32 where "ADB_AUTH_TYPE_TOKEN = 1"
definition ADB_AUTH_TYPE_RSAKEY :: u32 where "ADB_AUTH_TYPE_RSAKEY = 2"

lemmas adb_commands =
  ADB_CNXN_def ADB_AUTH_def ADB_OPEN_def ADB_OKAY_def ADB_WRTE_def ADB_CLSE_def ADB_STLS_def

record adb_message =
  command :: u32
  arg0 :: u32
  arg1 :: u32
  data_length :: u32
  data_check :: u32
  magic :: u32

definition ADB_MSG_HEADER_SIZE :: nat where "ADB_MSG_HEADER_SIZE = 24"

text \<open>The structure as bytes, and bytes read back as the structure.\<close>

definition header_bytes :: "adb_message \<Rightarrow> bytes" where
  "header_bytes m =
     write32le (command m) @ write32le (arg0 m) @ write32le (arg1 m) @
     write32le (data_length m) @ write32le (data_check m) @ write32le (magic m)"

definition header_of :: "bytes \<Rightarrow> adb_message" where
  "header_of bs =
     \<lparr>command = read32le bs, arg0 = read32le (drop 4 bs), arg1 = read32le (drop 8 bs),
      data_length = read32le (drop 12 bs), data_check = read32le (drop 16 bs),
      magic = read32le (drop 20 bs)\<rparr>"

lemma length_header_bytes [simp]: "length (header_bytes m) = 24"
  by (simp add: header_bytes_def)

lemma drop_write32le: "4 \<le> k \<Longrightarrow> drop k (write32le v @ xs) = drop (k - 4) xs"
  by simp

interpretation header: byte_codec 24 header_bytes header_of
proof unfold_locales
  fix v rest show "header_of (header_bytes v @ rest) = v"
    by (cases v) (simp add: header_of_def header_bytes_def drop_write32le codec_simps)
next
  fix bs :: bytes assume len: "length bs = 24"
  have rd: "write32le (read32le (drop k bs)) = take 4 (drop k bs)" if "k \<le> 20" for k
    using len that le32.dec_take [of "drop k bs"] le32.enc_dec [of "take 4 (drop k bs)"] by simp
  have "header_bytes (header_of bs) = take 4 (drop 0 bs) @ take 4 (drop 4 bs) @ take 4 (drop 8 bs) @
      take 4 (drop 12 bs) @ take 4 (drop 16 bs) @ take 4 (drop 20 bs)"
    using rd [of 0] rd [of 4] rd [of 8] rd [of 12] rd [of 16] rd [of 20]
    by (simp add: header_bytes_def header_of_def)
  also have "\<dots> = take 24 bs"
    using take_drop_split [of 20 24 bs] take_drop_split [of 16 20 bs] take_drop_split [of 12 16 bs]
      take_drop_split [of 8 12 bs] take_drop_split [of 4 8 bs] by simp
  finally show "header_bytes (header_of bs) = bs" using len by simp
qed simp

section \<open>adb\_checksum\<close>

definition adb_checksum :: "bytes \<Rightarrow> u32" where
  "adb_checksum data = foldl (\<lambda>sum b. sum + ucast b) 0 data"

lemma checksum_foldl: "foldl (\<lambda>sum b. sum + ucast b) (a :: u32) data = a + sum_list (map ucast data)"
  by (induction data arbitrary: a) (simp_all add: add.assoc)

lemma adb_checksum_append: "adb_checksum (xs @ ys) = adb_checksum xs + adb_checksum ys"
  by (simp add: adb_checksum_def checksum_foldl)

lemma adb_checksum_Cons: "adb_checksum (x # xs) = ucast x + adb_checksum xs"
  by (simp add: adb_checksum_def checksum_foldl)

lemma unat_adb_checksum: "unat (adb_checksum data) = sum_list (map unat data) mod 2 ^ 32"
proof (induction data)
  case Nil
  then show ?case by (simp add: adb_checksum_def)
next
  case (Cons b data)
  then show ?case
    by (simp add: adb_checksum_Cons unat_word_ariths mod_add_right_eq)
qed

section \<open>Sending\<close>

definition make_header :: "u32 \<Rightarrow> u32 \<Rightarrow> u32 \<Rightarrow> u32 \<Rightarrow> u32 \<Rightarrow> adb_message" where
  "make_header cmd a0 a1 len check =
     \<lparr>command = cmd, arg0 = a0, arg1 = a1, data_length = len, data_check = check,
      magic = cmd XOR 0xffffffff\<rparr>"

text \<open>
  The callers pass a pointer with its length, or \<open>NULL\<close> with length 0; both are a byte
  list here. The result is \<open>True\<close> for 0 and \<open>False\<close> for -1.
\<close>

definition adb_send_msg ::
  "u32 \<Rightarrow> u32 \<Rightarrow> u32 \<Rightarrow> bytes \<Rightarrow> bool \<Rightarrow> outbound \<Rightarrow> bool \<times> outbound" where
  "adb_send_msg cmd a0 a1 data skip_checksum out =
     (let msg = make_header cmd a0 a1 (word_of_nat (length data))
                  (if skip_checksum then 0 else adb_checksum data)
      in case send_all (header_bytes msg) out of
           (False, out1) \<Rightarrow> (False, out1)
         | (True, out1) \<Rightarrow> if length data > 0 then send_all data out1 else (True, out1))"

text \<open>
  Over TLS the header and the data go out as one buffer, for which \<open>malloc\<close> is asked.
\<close>

definition adb_send_msg_tls ::
  "(nat \<Rightarrow> bool) \<Rightarrow> u32 \<Rightarrow> u32 \<Rightarrow> u32 \<Rightarrow> bytes \<Rightarrow> bool \<Rightarrow> tls_ctx \<Rightarrow> bool \<times> tls_ctx" where
  "adb_send_msg_tls malloc cmd a0 a1 data skip_checksum ctx =
     (let msg = make_header cmd a0 a1 (word_of_nat (length data))
                  (if data \<noteq> [] \<and> \<not> skip_checksum then adb_checksum data else 0)
      in if \<not> malloc (ADB_MSG_HEADER_SIZE + length data) then (False, ctx)
         else tls_write_loop 0 (header_bytes msg @ data) ctx)"

section \<open>Receiving\<close>

text \<open>
  The return values 1, 0 and -1 of the receive functions, and the case that the code does
  not survive: a \<open>data_length\<close> of \<open>2 ^ 31\<close> or more is negative as an \<open>int\<close>, passes the
  size check, and makes the payload loop call \<open>recv\<close> with a negative length
  (\<open>Recv_Overrun\<close>).
\<close>

datatype recv_status = Recv_Ok | Recv_Again | Recv_Fail | Recv_Overrun

record recv_outcome =
  status :: recv_status
  out_hdr :: adb_message
  out_payload :: bytes

text \<open>
  The checks between the two reads, on a complete header: the magic, then the size. The
  result says whether the function goes on to read a payload, and of what length.
\<close>

datatype header_verdict = Bad_Header | Too_Large | No_Payload | Negative_Length | Payload nat

definition check_header :: "int \<Rightarrow> adb_message \<Rightarrow> header_verdict" where
  "check_header max_payload hdr =
     (if magic hdr \<noteq> command hdr XOR 0xffffffff then Bad_Header
      else if data_length hdr > 0 then
        if sint (data_length hdr) > max_payload then Too_Large
        else if sint (data_length hdr) < 0 then Negative_Length
        else Payload (unat (data_length hdr))
      else No_Payload)"

definition checksum_ok :: "bool \<Rightarrow> adb_message \<Rightarrow> bytes \<Rightarrow> bool" where
  "checksum_ok skip_checksum hdr data \<longleftrightarrow> skip_checksum \<or> adb_checksum data = data_check hdr"

text \<open>
  \<open>hdr0\<close> and \<open>pl0\<close> are what the caller's two output buffers hold before the call; bytes
  the function does not write keep these values. After a failure no caller reads them.
\<close>

definition adb_recv_msg ::
  "int \<Rightarrow> bool \<Rightarrow> bytes \<Rightarrow> bytes \<Rightarrow> inbound \<Rightarrow> recv_outcome \<times> inbound" where
  "adb_recv_msg max_payload skip_checksum hdr0 pl0 s =
     (case recv_strict ADB_MSG_HEADER_SIZE s of
        (None, s1) \<Rightarrow> (\<lparr>status = Recv_Fail, out_hdr = header_of hdr0, out_payload = pl0\<rparr>, s1)
      | (Some hb, s1) \<Rightarrow>
          let hdr = header_of hb;
              stop = (\<lambda>st pl. \<lparr>status = st, out_hdr = hdr, out_payload = pl\<rparr>)
          in case check_header max_payload hdr of
               Bad_Header \<Rightarrow> (stop Recv_Fail pl0, s1)
             | Too_Large \<Rightarrow> (stop Recv_Fail pl0, s1)
             | Negative_Length \<Rightarrow> (stop Recv_Overrun pl0, s1)
             | No_Payload \<Rightarrow> (stop Recv_Ok pl0, s1)
             | Payload n \<Rightarrow>
                 (case recv_strict n s1 of
                    (None, s2) \<Rightarrow> (stop Recv_Fail pl0, s2)
                  | (Some data, s2) \<Rightarrow>
                      (stop (if checksum_ok skip_checksum hdr data then Recv_Ok else Recv_Fail)
                         (blit data pl0), s2)))"

definition adb_recv_msg_tls ::
  "int \<Rightarrow> bool \<Rightarrow> bytes \<Rightarrow> bytes \<Rightarrow> ssl_event list \<Rightarrow> recv_outcome \<times> ssl_event list" where
  "adb_recv_msg_tls max_payload skip_checksum hdr0 pl0 es =
     (case tls_read_loop ADB_MSG_HEADER_SIZE es of
        (Tls_Broken, es1) \<Rightarrow> (\<lparr>status = Recv_Fail, out_hdr = header_of hdr0, out_payload = pl0\<rparr>, es1)
      | (Tls_Partial part, es1) \<Rightarrow>
          (\<lparr>status = Recv_Again, out_hdr = header_of (blit part hdr0), out_payload = pl0\<rparr>, es1)
      | (Tls_Full hb, es1) \<Rightarrow>
          let hdr = header_of hb;
              stop = (\<lambda>st pl. \<lparr>status = st, out_hdr = hdr, out_payload = pl\<rparr>)
          in case check_header max_payload hdr of
               Bad_Header \<Rightarrow> (stop Recv_Fail pl0, es1)
             | Too_Large \<Rightarrow> (stop Recv_Fail pl0, es1)
             | Negative_Length \<Rightarrow> (stop Recv_Overrun pl0, es1)
             | No_Payload \<Rightarrow> (stop Recv_Ok pl0, es1)
             | Payload n \<Rightarrow>
                 (case tls_read_loop n es1 of
                    (Tls_Broken, es2) \<Rightarrow> (stop Recv_Fail pl0, es2)
                  | (Tls_Partial part, es2) \<Rightarrow> (stop Recv_Again (blit part pl0), es2)
                  | (Tls_Full data, es2) \<Rightarrow>
                      (stop (if checksum_ok skip_checksum hdr data then Recv_Ok else Recv_Fail)
                         (blit data pl0), es2)))"

section \<open>Dispatch on the transport\<close>

text \<open>The part of a connection the message layer works on.\<close>

record link =
  rx :: inbound
  tx :: outbound
  tls :: "tls_ctx option"

definition adb_send_msg_conn ::
  "(nat \<Rightarrow> bool) \<Rightarrow> u32 \<Rightarrow> u32 \<Rightarrow> u32 \<Rightarrow> bytes \<Rightarrow> bool \<Rightarrow> 'a link_scheme \<Rightarrow> bool \<times> 'a link_scheme" where
  "adb_send_msg_conn malloc cmd a0 a1 data skip_checksum c =
     (case tls c of
        Some ctx \<Rightarrow>
          (case adb_send_msg_tls malloc cmd a0 a1 data skip_checksum ctx of
             (ok, ctx') \<Rightarrow> (ok, c\<lparr>tls := Some ctx'\<rparr>))
      | None \<Rightarrow>
          (case adb_send_msg cmd a0 a1 data skip_checksum (tx c) of
             (ok, out') \<Rightarrow> (ok, c\<lparr>tx := out'\<rparr>)))"

definition adb_recv_msg_conn ::
  "int \<Rightarrow> bool \<Rightarrow> bytes \<Rightarrow> bytes \<Rightarrow> 'a link_scheme \<Rightarrow> recv_outcome \<times> 'a link_scheme" where
  "adb_recv_msg_conn max_payload skip_checksum hdr0 pl0 c =
     (case tls c of
        Some ctx \<Rightarrow>
          (case adb_recv_msg_tls max_payload skip_checksum hdr0 pl0 (ssl_in ctx) of
             (r, es) \<Rightarrow> (r, c\<lparr>tls := Some (ctx\<lparr>ssl_in := es\<rparr>)\<rparr>))
      | None \<Rightarrow>
          (case adb_recv_msg max_payload skip_checksum hdr0 pl0 (rx c) of
             (r, s) \<Rightarrow> (r, c\<lparr>rx := s\<rparr>)))"

section \<open>What is sent and what arrives, on either transport\<close>

definition sent_bytes :: "'a link_scheme \<Rightarrow> bytes" where
  "sent_bytes c = (case tls c of None \<Rightarrow> wire (tx c) | Some ctx \<Rightarrow> ssl_wire ctx)"

definition arriving :: "'a link_scheme \<Rightarrow> bytes" where
  "arriving c = (case tls c of None \<Rightarrow> ready (rx c) | Some ctx \<Rightarrow> ssl_ready (ssl_in ctx))"

text \<open>The message that a send puts on the wire.\<close>

definition sent_message :: "u32 \<Rightarrow> u32 \<Rightarrow> u32 \<Rightarrow> bytes \<Rightarrow> bool \<Rightarrow> adb_message" where
  "sent_message cmd a0 a1 data skip =
     make_header cmd a0 a1 (word_of_nat (length data)) (if skip then 0 else adb_checksum data)"

lemma tls_check_value:
  "(if data \<noteq> [] \<and> \<not> skip then adb_checksum data else 0) = (if skip then 0 else adb_checksum data)"
  by (auto simp: adb_checksum_def)

lemma adb_send_msg_wire:
  "adb_send_msg cmd a0 a1 data skip out = (True, out') \<Longrightarrow>
     wire out' = wire out @ header_bytes (sent_message cmd a0 a1 data skip) @ data"
  by (auto simp: adb_send_msg_def sent_message_def Let_def dest!: send_all_success
      split: prod.splits bool.splits if_splits)

lemma adb_send_msg_conn_wire:
  assumes "adb_send_msg_conn mal cmd a0 a1 data skip c = (True, c')"
  shows "sent_bytes c' = sent_bytes c @ header_bytes (sent_message cmd a0 a1 data skip) @ data"
proof (cases "tls c")
  case None
  with assms show ?thesis
    by (auto simp: adb_send_msg_conn_def sent_bytes_def dest!: adb_send_msg_wire split: prod.splits)
next
  case (Some ctx)
  with assms show ?thesis
    unfolding adb_send_msg_conn_def adb_send_msg_tls_def tls_check_value
    by (auto simp: sent_bytes_def sent_message_def Let_def
        dest!: tls_write_loop_success split: prod.splits if_splits)
qed

text \<open>A plain connection on which the given bytes arrive in one chunk, and a TLS one.\<close>

definition link_with :: "bytes \<Rightarrow> link" where
  "link_with bs = \<lparr>rx = [Arrive bs], tx = \<lparr>sends = [], wire = []\<rparr>, tls = None\<rparr>"

definition tls_link_with :: "ssl_event list \<Rightarrow> ssl_send_event list \<Rightarrow> link" where
  "tls_link_with es os = \<lparr>rx = [], tx = \<lparr>sends = [], wire = []\<rparr>,
     tls = Some \<lparr>ssl_in = es, ssl_out = os, ssl_wire = []\<rparr>\<rparr>"

section \<open>Accepted frames\<close>

definition valid_frame :: "int \<Rightarrow> bool \<Rightarrow> adb_message \<Rightarrow> bytes \<Rightarrow> bool" where
  "valid_frame max_payload skip m data \<longleftrightarrow>
     magic m = command m XOR 0xffffffff \<and>
     length data = unat (data_length m) \<and> length data < 2 ^ 31 \<and>
     (data \<noteq> [] \<longrightarrow> int (length data) \<le> max_payload \<and> checksum_ok skip m data)"

lemma check_header_cases:
  "check_header maxp m = Payload n \<longleftrightarrow>
     magic m = command m XOR 0xffffffff \<and> n = unat (data_length m) \<and> 0 < n \<and> n < 2 ^ 31 \<and> int n \<le> maxp"
  "check_header maxp m = No_Payload \<longleftrightarrow>
     magic m = command m XOR 0xffffffff \<and> unat (data_length m) = 0"
  "0 \<le> maxp \<Longrightarrow> check_header maxp m = Negative_Length \<longleftrightarrow>
     magic m = command m XOR 0xffffffff \<and> 2 ^ 31 \<le> unat (data_length m)"
  using unat_lt32 [of "data_length m"] uint_lt32 [of "data_length m"]
  by (auto simp: check_header_def sint_u32 unat_gt_0 word_greater_zero_iff)

lemma valid_frame_verdict:
  assumes "valid_frame maxp skip m data"
  shows "data \<noteq> [] \<Longrightarrow> check_header maxp m = Payload (length data)"
    and "data = [] \<Longrightarrow> check_header maxp m = No_Payload"
  using assms by (auto simp: valid_frame_def check_header_cases length_greater_0_conv [symmetric]
      simp del: length_greater_0_conv)

lemma tls_read_loop_get:
  "tls_read_loop n es = (Tls_Full bs, es') \<longleftrightarrow> tls_get n es = (Some bs, es')"
  by (auto simp: tls_get_def split: prod.splits tls_read.splits)

text \<open>
  What both receive functions do up to their success, over the reader of their transport.
  For every reader, a frame is accepted exactly when a valid frame heads what is
  available, and exactly the frame is consumed.
\<close>

definition read_frame ::
  "(nat \<Rightarrow> 's \<Rightarrow> bytes option \<times> 's) \<Rightarrow> int \<Rightarrow> bool \<Rightarrow> 's \<Rightarrow> (adb_message \<times> bytes) option \<times> 's" where
  "read_frame get maxp skip s =
     (case get 24 s of
        (None, s1) \<Rightarrow> (None, s1)
      | (Some hb, s1) \<Rightarrow>
          (case check_header maxp (header_of hb) of
             No_Payload \<Rightarrow> (Some (header_of hb, []), s1)
           | Payload n \<Rightarrow>
               (case get n s1 of
                  (None, s2) \<Rightarrow> (None, s2)
                | (Some d, s2) \<Rightarrow>
                    (if checksum_ok skip (header_of hb) d then Some (header_of hb, d) else None, s2))
           | _ \<Rightarrow> (None, s1)))"

context byte_reader
begin

lemma read_frame_sound:
  assumes r: "read_frame get maxp skip s = (Some (m, d), s')"
  shows "avail s = header_bytes m @ d @ avail s' \<and> valid_frame maxp skip m d"
proof -
  from r obtain hb s1 where h: "get 24 s = (Some hb, s1)" and m: "m = header_of hb"
    by (auto simp: read_frame_def split: prod.splits option.splits header_verdict.splits if_splits)
  have hb: "header_bytes m = hb" using get_Some(4) [OF h] m by (simp add: header.enc_dec)
  note first = get_split [OF h]
  show ?thesis
  proof (cases "check_header maxp m")
    case No_Payload
    with r h m have "s' = s1" "d = []" by (simp_all add: read_frame_def)
    with No_Payload first hb show ?thesis by (simp add: valid_frame_def check_header_cases)
  next
    case (Payload n)
    with r h m have g: "get n s1 = (Some d, s')" and ok: "checksum_ok skip m d"
      by (auto simp: read_frame_def split: prod.splits option.splits if_splits)
    have "valid_frame maxp skip m d"
      using Payload ok get_Some(4) [OF g] by (auto simp: valid_frame_def check_header_cases)
    with get_split [OF g] first hb show ?thesis by simp
  qed (use r h m in \<open>simp_all add: read_frame_def\<close>)
qed

lemma read_frame_complete:
  assumes av: "avail s = header_bytes m @ d @ rest" and vf: "valid_frame maxp skip m d"
  shows "\<exists>s'. read_frame get maxp skip s = (Some (m, d), s') \<and> avail s' = rest"
proof -
  from av obtain s1 where h: "get 24 s = (Some (header_bytes m), s1)" and av1: "avail s1 = d @ rest"
    by (rule get_append) simp
  from av1 obtain s2 where g: "get (length d) s1 = (Some d, s2)" and av2: "avail s2 = rest"
    by (rule get_append) simp
  show ?thesis
  proof (cases "d = []")
    case True
    with vf av1 h show ?thesis
      by (simp add: read_frame_def header.dec_enc valid_frame_verdict)
  next
    case False
    with vf av2 h g show ?thesis
      by (simp add: read_frame_def header.dec_enc valid_frame_verdict) (simp add: valid_frame_def)
  qed
qed

lemma header_read_iff:
  "(\<exists>hb s1. get 24 s = (Some hb, s1) \<and> P (header_of hb)) \<longleftrightarrow>
     (\<exists>m rest. avail s = header_bytes m @ rest \<and> P m)"
proof
  assume "\<exists>hb s1. get 24 s = (Some hb, s1) \<and> P (header_of hb)"
  then obtain hb s1 where h: "get 24 s = (Some hb, s1)" and P: "P (header_of hb)" by blast
  have "header_bytes (header_of hb) = hb" using get_Some(4) [OF h] by (simp add: header.enc_dec)
  with get_split [OF h] P show "\<exists>m rest. avail s = header_bytes m @ rest \<and> P m" by metis
next
  assume "\<exists>m rest. avail s = header_bytes m @ rest \<and> P m"
  then obtain m rest where av: "avail s = header_bytes m @ rest" and P: "P m" by blast
  from av obtain s1 where "get 24 s = (Some (header_bytes m), s1)"
    by (rule get_append) simp
  with P show "\<exists>hb s1. get 24 s = (Some hb, s1) \<and> P (header_of hb)"
    by (auto simp: header.dec_enc)
qed

lemma read_frame_iff:
  "(\<exists>s'. read_frame get maxp skip s = (Some (m, d), s') \<and> avail s' = rest) \<longleftrightarrow>
     avail s = header_bytes m @ d @ rest \<and> valid_frame maxp skip m d"
  using read_frame_sound read_frame_complete by blast

end

lemma adb_recv_msg_frame:
  "adb_recv_msg maxp skip hdr0 pl0 s = (\<lparr>status = Recv_Ok, out_hdr = m, out_payload = pl\<rparr>, s') \<longleftrightarrow>
     (\<exists>d. read_frame recv_strict maxp skip s = (Some (m, d), s') \<and> pl = blit d pl0)"
  by (auto simp: adb_recv_msg_def read_frame_def ADB_MSG_HEADER_SIZE_def Let_def
      split: prod.splits option.splits header_verdict.splits if_splits)

lemma adb_recv_msg_tls_frame:
  "adb_recv_msg_tls maxp skip hdr0 pl0 es = (\<lparr>status = Recv_Ok, out_hdr = m, out_payload = pl\<rparr>, es') \<longleftrightarrow>
     (\<exists>d. read_frame tls_get maxp skip es = (Some (m, d), es') \<and> pl = blit d pl0)"
proof -
  note defs = adb_recv_msg_tls_def read_frame_def tls_get_def ADB_MSG_HEADER_SIZE_def Let_def
  obtain r es1 where r: "tls_read_loop 24 es = (r, es1)" by (cases "tls_read_loop 24 es")
  show ?thesis
  proof (cases r)
    case (Tls_Full hb)
    show ?thesis
    proof (cases "check_header maxp (header_of hb)")
      case (Payload n)
      obtain r2 es2 where r2: "tls_read_loop n es1 = (r2, es2)" by (cases "tls_read_loop n es1")
      show ?thesis by (cases r2) (use r Tls_Full Payload r2 in \<open>auto simp: defs\<close>)
    qed (use r Tls_Full in \<open>auto simp: defs\<close>)
  qed (use r in \<open>auto simp: defs\<close>)
qed

lemma adb_recv_msg_conn_plain:
  "tls c = None \<Longrightarrow>
     (\<exists>c'. adb_recv_msg_conn maxp skip hdr0 pl0 c = (r, c') \<and> arriving c' = rest) \<longleftrightarrow>
     (\<exists>s'. adb_recv_msg maxp skip hdr0 pl0 (rx c) = (r, s') \<and> ready s' = rest)"
  by (cases "adb_recv_msg maxp skip hdr0 pl0 (rx c)") (simp add: adb_recv_msg_conn_def arriving_def)

lemma adb_recv_msg_conn_secure:
  "tls c = Some ctx \<Longrightarrow>
     (\<exists>c'. adb_recv_msg_conn maxp skip hdr0 pl0 c = (r, c') \<and> arriving c' = rest) \<longleftrightarrow>
     (\<exists>es'. adb_recv_msg_tls maxp skip hdr0 pl0 (ssl_in ctx) = (r, es') \<and> ssl_ready es' = rest)"
  by (cases "adb_recv_msg_tls maxp skip hdr0 pl0 (ssl_in ctx)")
    (simp add: adb_recv_msg_conn_def arriving_def)

lemma recv_conn_frame:
  "(\<exists>c'. adb_recv_msg_conn maxp skip hdr0 pl0 c =
           (\<lparr>status = Recv_Ok, out_hdr = m, out_payload = pl\<rparr>, c') \<and> arriving c' = rest) \<longleftrightarrow>
   (\<exists>data. arriving c = header_bytes m @ data @ rest \<and> valid_frame maxp skip m data \<and> pl = blit data pl0)"
proof (cases "tls c")
  case None
  then have "arriving c = ready (rx c)" by (simp add: arriving_def)
  then show ?thesis
    unfolding adb_recv_msg_conn_plain [OF None] adb_recv_msg_frame
    using polling.read_frame_iff [of maxp skip "rx c" m _ rest] by (simp only:) blast
next
  case (Some ctx)
  then have "arriving c = ssl_ready (ssl_in ctx)" by (simp add: arriving_def)
  then show ?thesis
    unfolding adb_recv_msg_conn_secure [OF Some] adb_recv_msg_tls_frame
    using secure.read_frame_iff [of maxp skip "ssl_in ctx" m _ rest] by (simp only:) blast
qed

text \<open>C1. A receive on a connection, plain or TLS, reports a message exactly when a valid frame
  heads the arriving bytes: magic matched, size within the limit, checksum right unless
  skipped. It returns that header, copies the payload to the start of the buffer, and
  consumes exactly the frame, however the transport cuts the bytes into chunks.\<close>

theorem adb_recv_msg_conn_ok_iff:
  "(\<exists>c'. adb_recv_msg_conn maxp skip hdr0 pl0 c =
           (\<lparr>status = Recv_Ok, out_hdr = m, out_payload = pl\<rparr>, c') \<and> arriving c' = rest) \<longleftrightarrow>
   (\<exists>data. arriving c = header_bytes m @ data @ rest \<and> valid_frame maxp skip m data \<and> pl = blit data pl0)"
  by (rule recv_conn_frame)

section \<open>Length fields that are negative as an int\<close>

lemma adb_recv_msg_overrun:
  "status (fst (adb_recv_msg maxp skip hdr0 pl0 s)) = Recv_Overrun \<longleftrightarrow>
     (\<exists>hb s1. recv_strict 24 s = (Some hb, s1) \<and> check_header maxp (header_of hb) = Negative_Length)"
  by (auto simp: adb_recv_msg_def ADB_MSG_HEADER_SIZE_def Let_def
      split: prod.splits option.splits header_verdict.splits)

lemma adb_recv_msg_tls_overrun:
  "status (fst (adb_recv_msg_tls maxp skip hdr0 pl0 es)) = Recv_Overrun \<longleftrightarrow>
     (\<exists>hb es1. tls_get 24 es = (Some hb, es1) \<and> check_header maxp (header_of hb) = Negative_Length)"
  by (auto simp: adb_recv_msg_tls_def tls_get_def ADB_MSG_HEADER_SIZE_def Let_def
      split: prod.splits tls_read.splits header_verdict.splits)

lemma adb_recv_msg_conn_fst:
  "fst (adb_recv_msg_conn maxp skip hdr0 pl0 c) =
     (case tls c of None \<Rightarrow> fst (adb_recv_msg maxp skip hdr0 pl0 (rx c))
      | Some ctx \<Rightarrow> fst (adb_recv_msg_tls maxp skip hdr0 pl0 (ssl_in ctx)))"
  by (simp add: adb_recv_msg_conn_def split: option.splits prod.splits)

text \<open>C40. The size check lets a header through whose length field is \<open>2 ^ 31\<close> or more: it is
  negative as an \<open>int\<close>. The receive functions call \<open>recv\<close> or \<open>tls_recv\<close> with a negative
  length on exactly these headers, for every non-negative limit.\<close>

theorem adb_recv_msg_conn_overrun_iff:
  assumes "0 \<le> maxp"
  shows "status (fst (adb_recv_msg_conn maxp skip hdr0 pl0 c)) = Recv_Overrun \<longleftrightarrow>
     (\<exists>m rest. arriving c = header_bytes m @ rest \<and>
        magic m = command m XOR 0xffffffff \<and> 2 ^ 31 \<le> unat (data_length m))"
  using polling.header_read_iff [of "rx c" "\<lambda>h. check_header maxp h = Negative_Length"]
    secure.header_read_iff [of _ "\<lambda>h. check_header maxp h = Negative_Length"]
  by (simp add: adb_recv_msg_conn_fst arriving_def adb_recv_msg_overrun adb_recv_msg_tls_overrun
      check_header_cases(3) [OF assms] split: option.splits)

theorem adb_recv_msg_conn_overrun_witness:
  "status (fst (adb_recv_msg_conn 4096 True [] []
      (link_with (header_bytes (make_header ADB_WRTE 7 1 0x80000000 0))))) = Recv_Overrun"
proof (rule adb_recv_msg_conn_overrun_iff [THEN iffD2])
  show "\<exists>m rest. arriving (link_with (header_bytes (make_header ADB_WRTE 7 1 0x80000000 0))) =
        header_bytes m @ rest \<and>
      magic m = command m XOR 0xffffffff \<and> 2 ^ 31 \<le> unat (data_length m)"
    by (intro exI [of _ "make_header ADB_WRTE 7 1 0x80000000 0"] exI [of _ "[]"])
      (simp add: arriving_def make_header_def header_bytes_def link_with_def)
qed simp

section \<open>Round trip\<close>

text \<open>C29. A message sent on one connection and arriving on another, over either transport and in
  any chunks, is received with the same command, arguments and payload, provided the
  payload is within the receiver's limit; what follows it stays to be read.\<close>

theorem adb_send_recv_roundtrip:
  assumes "adb_send_msg_conn mal cmd a0 a1 data skip c = (True, c')"
    and "arriving d = drop (length (sent_bytes c)) (sent_bytes c') @ rest"
    and "int (length data) \<le> maxp" and "maxp < 2 ^ 31"
  shows "\<exists>d'. adb_recv_msg_conn maxp skip hdr0 pl0 d =
      (\<lparr>status = Recv_Ok, out_hdr = sent_message cmd a0 a1 data skip, out_payload = blit data pl0\<rparr>, d') \<and>
      arriving d' = rest"
proof -
  have "unat (word_of_nat (length data) :: u32) = length data"
    using assms(3,4) by (intro unat_of_nat32) simp
  then have "valid_frame maxp skip (sent_message cmd a0 a1 data skip) data"
    using assms(3,4) by (simp add: valid_frame_def sent_message_def make_header_def checksum_ok_def)
  moreover have "arriving d = header_bytes (sent_message cmd a0 a1 data skip) @ data @ rest"
    using assms(2) adb_send_msg_conn_wire [OF assms(1)] by simp
  ultimately show ?thesis
    by (intro recv_conn_frame [THEN iffD2]) blast
qed

theorem adb_send_recv_roundtrip_witness:
  "\<exists>d'. adb_recv_msg_conn 4096 False [] [0, 0, 0, 9] (link_with
        (header_bytes (sent_message ADB_WRTE 5 7 [1, 2, 3] False) @ [1, 2, 3])) =
      (\<lparr>status = Recv_Ok, out_hdr = sent_message ADB_WRTE 5 7 [1, 2, 3] False,
        out_payload = blit [1, 2, 3] [0, 0, 0, 9]\<rparr>, d') \<and> arriving d' = []"
proof (rule adb_send_recv_roundtrip)
  show "adb_send_msg_conn (\<lambda>_. True) ADB_WRTE 5 7 [1, 2, 3] False (link_with []) =
      (True, (link_with [])\<lparr>tx := \<lparr>sends = [],
         wire = header_bytes (sent_message ADB_WRTE 5 7 [1, 2, 3] False) @ [1, 2, 3]\<rparr>\<rparr>)"
    by (simp add: adb_send_msg_conn_def adb_send_msg_def sent_message_def link_with_def io_simps)
  show "arriving (link_with (header_bytes (sent_message ADB_WRTE 5 7 [1, 2, 3] False) @ [1, 2, 3])) =
      drop (length (sent_bytes (link_with []))) (sent_bytes ((link_with [])\<lparr>tx := \<lparr>sends = [],
         wire = header_bytes (sent_message ADB_WRTE 5 7 [1, 2, 3] False) @ [1, 2, 3]\<rparr>\<rparr>)) @ []"
    by (simp add: arriving_def sent_bytes_def link_with_def)
qed simp_all

section \<open>Corruption\<close>

lemma checksum_update:
  assumes "i < length data" and "b \<noteq> data ! i"
  shows "adb_checksum (data[i := b]) \<noteq> adb_checksum data"
proof -
  have split: "adb_checksum (xs @ x # ys) = adb_checksum xs + (ucast x + adb_checksum ys)" for x xs ys
    by (simp add: adb_checksum_append adb_checksum_Cons)
  have "adb_checksum (data[i := b]) - adb_checksum data = ucast b - (ucast (data ! i) :: u32)"
    using assms(1) split [of "take i data" b "drop (Suc i) data"]
      split [of "take i data" "data ! i" "drop (Suc i) data"]
    by (simp add: upd_conv_take_nth_drop id_take_nth_drop [symmetric])
  moreover have "(ucast b :: u32) \<noteq> ucast (data ! i)"
    using assms(2) by (metis unat_ucast_byte word_unat_eq_iff)
  ultimately show ?thesis by auto
qed

text \<open>With checksums on, a frame in which one payload byte was changed on the way is never
  reported as a message.\<close>

theorem adb_recv_detects_byte_change:
  assumes "valid_frame maxp False m data" and "i < length data" and "b \<noteq> data ! i"
    and "arriving c = header_bytes m @ data[i := b] @ rest"
  shows "status (fst (adb_recv_msg_conn maxp False hdr0 pl0 c)) \<noteq> Recv_Ok"
proof
  assume ok: "status (fst (adb_recv_msg_conn maxp False hdr0 pl0 c)) = Recv_Ok"
  obtain r c' where r: "adb_recv_msg_conn maxp False hdr0 pl0 c = (r, c')"
    by (cases "adb_recv_msg_conn maxp False hdr0 pl0 c")
  with ok have "adb_recv_msg_conn maxp False hdr0 pl0 c =
      (\<lparr>status = Recv_Ok, out_hdr = out_hdr r, out_payload = out_payload r\<rparr>, c')" by (cases r) simp
  then obtain d where d: "arriving c = header_bytes (out_hdr r) @ d @ arriving c'"
    and vf: "valid_frame maxp False (out_hdr r) d"
    using recv_conn_frame [of maxp False hdr0 pl0 c "out_hdr r" "out_payload r" "arriving c'"]
    by blast
  from d assms(4) have m: "out_hdr r = m" and pl: "d @ arriving c' = data[i := b] @ rest"
    using header.dec_enc_append by (metis, metis append_eq_append_conv length_header_bytes)
  with vf assms(1) have "d = data[i := b]"
    by (simp add: valid_frame_def append_eq_append_conv)
  with vf m assms have "adb_checksum (data[i := b]) = adb_checksum data"
    by (auto simp: valid_frame_def checksum_ok_def)
  with checksum_update [OF assms(2,3)] show False by blast
qed

theorem adb_recv_detects_byte_change_witness:
  "status (fst (adb_recv_msg_conn 4096 False [] []
      (link_with (header_bytes (sent_message ADB_WRTE 5 7 [1, 2, 3] False) @ [1, 4, 3])))) \<noteq> Recv_Ok"
proof (rule adb_recv_detects_byte_change [where data = "[1, 2, 3]" and i = 1 and b = 4 and rest = "[]"])
  show "valid_frame 4096 False (sent_message ADB_WRTE 5 7 [1, 2, 3] False) [1, 2, 3]"
    by (simp add: valid_frame_def sent_message_def make_header_def checksum_ok_def)
qed (simp_all add: arriving_def link_with_def)

section \<open>A want report inside a message\<close>

text \<open>Over TLS, when the first \<open>k\<close> bytes of a header have arrived and the session then reports
  a want, the receive function returns 0 so that the caller may retry, but the \<open>k\<close> bytes
  are gone: what arrives for the retry starts after them.\<close>

theorem adb_recv_tls_want_loses_prefix:
  assumes "tls c = Some ctx" and "0 < k" and "k < 24"
    and "ssl_in ctx = Ssl_Data (take k (header_bytes m)) # Ssl_Want # es"
  shows "\<exists>c'. adb_recv_msg_conn maxp skip hdr0 pl0 c =
      (\<lparr>status = Recv_Again, out_hdr = header_of (blit (take k (header_bytes m)) hdr0),
        out_payload = pl0\<rparr>, c') \<and> arriving c' = ssl_ready es"
proof -
  have ne: "take k (header_bytes m) \<noteq> []"
    using assms(2) length_header_bytes [of m] by (auto simp: take_eq_Nil simp del: length_header_bytes)
  then have "tls_read_loop 24 (ssl_in ctx) = (Tls_Partial (take k (header_bytes m)), es)"
    using assms by (simp add: tls_read_loop.simps)
  then show ?thesis
    using assms(1)
    by (simp add: adb_recv_msg_conn_def adb_recv_msg_tls_def ADB_MSG_HEADER_SIZE_def arriving_def)
qed

theorem adb_recv_tls_want_loses_prefix_witness:
  "\<exists>c'. adb_recv_msg_conn 4096 True (replicate 24 0) []
        (tls_link_with [Ssl_Data (take 4 (header_bytes (make_header ADB_OKAY 2 1 0 0))), Ssl_Want,
           Ssl_Data (drop 4 (header_bytes (make_header ADB_OKAY 2 1 0 0)))] []) =
      (\<lparr>status = Recv_Again, out_hdr = header_of (blit
          (take 4 (header_bytes (make_header ADB_OKAY 2 1 0 0))) (replicate 24 0)), out_payload = []\<rparr>, c') \<and>
     arriving c' = ssl_ready [Ssl_Data (drop 4 (header_bytes (make_header ADB_OKAY 2 1 0 0)))]"
  by (rule adb_recv_tls_want_loses_prefix) (simp add: tls_link_with_def, simp_all)

text \<open>A send over TLS survives fewer than 500 want reports in a row and gives up at 500 (with
  memory for its buffer, on a session that then takes everything).\<close>

theorem adb_send_tls_want_bound:
  assumes "tls c = Some ctx" and "ssl_out ctx = replicate k Ssl_Send_Want"
    and "mal (24 + length data)"
  shows "fst (adb_send_msg_conn mal cmd a0 a1 data skip c) \<longleftrightarrow> k < 500"
proof -
  let ?bs = "header_bytes (sent_message cmd a0 a1 data skip) @ data"
  have ne: "?bs \<noteq> []"
    by (metis append_is_Nil_conv length_header_bytes list.size(3) zero_neq_numeral)
  have "fst (tls_write_loop 0 ?bs ctx) \<longleftrightarrow> k < 500"
  proof (cases "k < 500")
    case True
    then show ?thesis
      using tls_write_loop_wants [OF ne, of ctx k "[]" 0] assms(2) by (simp add: io_simps)
  next
    case False
    then have "ssl_out ctx = replicate 500 Ssl_Send_Want @ replicate (k - 500) Ssl_Send_Want"
      using assms(2) by (simp add: replicate_add [symmetric])
    from tls_write_loop_wants [OF ne this, of 0] False ne show ?thesis
      by (simp add: tls_write_loop.simps [of 500])
  qed
  moreover have "adb_send_msg_tls mal cmd a0 a1 data skip ctx = tls_write_loop 0 ?bs ctx"
    using assms(3) unfolding adb_send_msg_tls_def tls_check_value sent_message_def
    by (simp only: ADB_MSG_HEADER_SIZE_def Let_def not_True_eq_False if_False)
  ultimately show ?thesis
    using assms(1) by (cases "tls_write_loop 0 ?bs ctx") (simp add: adb_send_msg_conn_def)
qed

theorem adb_send_tls_want_bound_witness:
  "\<not> fst (adb_send_msg_conn (\<lambda>_. True) ADB_OKAY 1 2 [] True
       (tls_link_with [] (replicate 600 Ssl_Send_Want)))"
  using adb_send_tls_want_bound [of "tls_link_with [] (replicate 600 Ssl_Send_Want)"
      "\<lparr>ssl_in = [], ssl_out = replicate 600 Ssl_Send_Want, ssl_wire = []\<rparr>" 600 "\<lambda>_. True" "[]" ADB_OKAY 1 2 True]
  by (simp add: tls_link_with_def)

end
