(* ===== verification/Adb_Session.thy ===== *)
theory Adb_Session
  imports Adb_Protocol
begin

text \<open>
  The session layer of \<open>src/adb/session.c\<close> on the connection structure of
  \<open>src/adb/adb.h\<close>: channels, the handler of incoming messages with the TLS upgrade,
  polling and teardown. A channel pointer is the channel's index in the table.
\<close>

section \<open>State\<close>

datatype adb_conn_state =
    ADB_STATE_DISCONNECTED | ADB_STATE_CONNECTING | ADB_STATE_AUTH_SENT
  | ADB_STATE_AUTH_RSAPUB_SENT | ADB_STATE_CONNECTED | ADB_STATE_TLS_NEGOTIATING

datatype adb_chan_state = CHAN_OPENING | CHAN_OPEN | CHAN_CLOSING | CHAN_CLOSED

record adb_channel =
  local_id :: u32
  remote_id :: u32
  service :: string
  chan_state :: adb_chan_state

definition MAX_CHANNELS :: nat where "MAX_CHANNELS = 64"
definition SERVICE_NAME_MAX :: nat where "SERVICE_NAME_MAX = 256"
definition BANNER_MAX :: nat where "BANNER_MAX = 512"

text \<open>
  \<open>channels\<close> is the table up to \<open>channel_count\<close>; \<open>fd\<close> says whether the socket is open;
  \<open>banner\<close> is the string in the banner buffer. The callbacks are recorded as what they
  were called with. \<open>selects\<close> is the script of \<open>select\<close> results on the socket (0, a
  timeout, when it is used up). \<open>fault\<close> is set where the C code would copy or receive
  with a negative length; nothing is claimed of a connection after that.
\<close>

record adb_connection = link +
  fd :: bool
  state :: adb_conn_state
  channels :: "adb_channel list"
  next_local_id :: u32
  banner :: bytes
  protocol_version :: int
  max_payload :: nat
  cnxn_sent :: bool
  stls_sent :: bool
  on_connected :: bool
  on_shell_output :: bool
  connected_calls :: nat
  shell_output :: "bytes list"
  selects :: "int list"
  fault :: bool

text \<open>
  What the session code calls outside this layer: \<open>malloc\<close> for a size,
  \<open>crypto_sign_token\<close> (a signature or failure), and the context \<open>tls_handshake\<close> returns
  for the socket.
\<close>

record services =
  malloc :: "nat \<Rightarrow> bool"
  sign_token :: "bytes \<Rightarrow> bytes option"
  handshake :: "tls_ctx option"

definition ADB_BANNER :: string where "ADB_BANNER = ''host::features=shell_v2''"

definition zero_header :: bytes where "zero_header = replicate 24 0"

section \<open>Sending messages\<close>

definition session_send_cnxn :: "services \<Rightarrow> adb_connection \<Rightarrow> adb_connection" where
  "session_send_cnxn sv c =
     (if cnxn_sent c then c
      else snd (adb_send_msg_conn (malloc sv) ADB_CNXN ADB_VERSION (word_of_nat ADB_MAX_PAYLOAD)
                 (cstr ADB_BANNER) True (c\<lparr>cnxn_sent := True, state := ADB_STATE_AUTH_SENT\<rparr>)))"

definition session_start_auth :: "services \<Rightarrow> adb_connection \<Rightarrow> int \<times> adb_connection" where
  "session_start_auth sv c = (0, session_send_cnxn sv c)"

text \<open>The name in the table is cut to its array; the name in the message is not.\<close>

definition session_open_channel ::
  "services \<Rightarrow> string \<Rightarrow> adb_connection \<Rightarrow> nat option \<times> adb_connection" where
  "session_open_channel sv serv c =
     (if length (channels c) \<ge> MAX_CHANNELS then (None, c)
      else
        let lid = next_local_id c;
            chan = \<lparr>local_id = lid, remote_id = 0, service = cut SERVICE_NAME_MAX serv,
                    chan_state = CHAN_OPENING\<rparr>;
            c1 = c\<lparr>channels := channels c @ [chan], next_local_id := lid + 1\<rparr>
        in case adb_send_msg_conn (malloc sv) ADB_OPEN lid 0 (cstr serv) True c1 of
             (False, c2) \<Rightarrow> (None, c2\<lparr>channels := butlast (channels c2)\<rparr>)
           | (True, c2) \<Rightarrow> (Some (length (channels c)), c2))"

definition session_close_channel :: "services \<Rightarrow> nat \<Rightarrow> adb_connection \<Rightarrow> adb_connection" where
  "session_close_channel sv i c =
     (let chan = channels c ! i
      in if chan_state chan = CHAN_CLOSED then c
         else
           let c1 = (if remote_id chan \<noteq> 0
                     then snd (adb_send_msg_conn (malloc sv) ADB_CLSE (local_id chan) (remote_id chan)
                                 [] True c)
                     else c)
           in c1\<lparr>channels := (channels c1)[i := chan\<lparr>chan_state := CHAN_CLOSED\<rparr>]\<rparr>)"

section \<open>Steps of the message handler\<close>

text \<open>The loops over the table that stop at the first channel with the given property.\<close>

fun update_first :: "('a \<Rightarrow> bool) \<Rightarrow> ('a \<Rightarrow> 'a) \<Rightarrow> 'a list \<Rightarrow> 'a list" where
  "update_first P f [] = []"
| "update_first P f (x # xs) = (if P x then f x # xs else x # update_first P f xs)"

definition open_channel_entry :: "u32 \<Rightarrow> u32 \<Rightarrow> adb_channel list \<Rightarrow> adb_channel list" where
  "open_channel_entry lid rid =
     update_first (\<lambda>ch. local_id ch = lid) (\<lambda>ch. ch\<lparr>remote_id := rid, chan_state := CHAN_OPEN\<rparr>)"

definition close_channel_entry :: "u32 \<Rightarrow> adb_channel list \<Rightarrow> adb_channel list" where
  "close_channel_entry lid =
     update_first (\<lambda>ch. local_id ch = lid) (\<lambda>ch. ch\<lparr>chan_state := CHAN_CLOSED\<rparr>)"

text \<open>
  The banner copy: \<open>int cl = (int) data_length; if (cl >= BANNER_MAX) cl = BANNER_MAX - 1\<close>,
  then a \<open>memcpy\<close> of \<open>cl\<close> bytes.
\<close>

definition copy_banner :: "u32 \<Rightarrow> bytes \<Rightarrow> adb_connection \<Rightarrow> adb_connection" where
  "copy_banner len payload c =
     (let cl = (if sint len \<ge> int BANNER_MAX then int BANNER_MAX - 1 else sint len)
      in if cl < 0 then c\<lparr>fault := True\<rparr> else c\<lparr>banner := take (nat cl) payload\<rparr>)"

definition set_peer_limits :: "adb_message \<Rightarrow> adb_connection \<Rightarrow> adb_connection" where
  "set_peer_limits msg c =
     c\<lparr>protocol_version := int (unat (min (arg0 msg) ADB_VERSION)),
       max_payload := unat (min (arg1 msg) (word_of_nat ADB_MAX_PAYLOAD))\<rparr>"

definition handle_cnxn :: "adb_message \<Rightarrow> bytes \<Rightarrow> adb_connection \<Rightarrow> adb_connection" where
  "handle_cnxn msg payload c =
     (let c1 = (if data_length msg > 0 then copy_banner (data_length msg) payload c else c);
          c2 = (set_peer_limits msg c1)\<lparr>state := ADB_STATE_CONNECTED\<rparr>
      in if on_connected c2 then c2\<lparr>connected_calls := connected_calls c2 + 1\<rparr> else c2)"

text \<open>
  The exchange after the TLS handshake: at most 50 receives, a message structure zeroed
  before each, one payload buffer \<open>rpl\<close> for all of them. A return value of 0 (a want
  report) is not told from 1: the partly filled structure is looked at all the same.
\<close>

fun stls_exchange :: "services \<Rightarrow> nat \<Rightarrow> bytes \<Rightarrow> adb_connection \<Rightarrow> adb_connection" where
  "stls_exchange sv 0 rpl c = c"
| "stls_exchange sv (Suc t) rpl c =
     (if state c = ADB_STATE_CONNECTED then c
      else case adb_recv_msg_conn (int ADB_MAX_PAYLOAD) True zero_header rpl c of (r, c1) \<Rightarrow>
        let rm = out_hdr r; rpl1 = out_payload r
        in case status r of
             Recv_Overrun \<Rightarrow> c1\<lparr>fault := True\<rparr>
           | Recv_Fail \<Rightarrow> stls_exchange sv t rpl1 c1
           | _ \<Rightarrow>
               if command rm = ADB_AUTH \<and> arg0 rm = ADB_AUTH_TYPE_TOKEN then
                 stls_exchange sv t rpl1
                   (case sign_token sv (take (unat (data_length rm)) rpl1) of
                      Some sig \<Rightarrow> snd (adb_send_msg_conn (malloc sv) ADB_AUTH ADB_AUTH_TYPE_RSAKEY 0
                                         sig True c1)
                    | None \<Rightarrow> c1)
               else if command rm = ADB_STLS then
                 stls_exchange sv t rpl1
                   (snd (adb_send_msg_conn (malloc sv) ADB_STLS ADB_STLS_VERSION 0 [] False c1))
               else if command rm = ADB_CNXN then
                 (let c2 = (set_peer_limits rm c1)\<lparr>state := ADB_STATE_CONNECTED\<rparr>
                  in if data_length rm > 0 then copy_banner (data_length rm) rpl1 c2 else c2)
               else stls_exchange sv t rpl1 c1)"

definition handle_stls :: "services \<Rightarrow> bytes \<Rightarrow> adb_connection \<Rightarrow> adb_connection" where
  "handle_stls sv junk c =
     (if tls c \<noteq> None then c
      else
        let c1 = c\<lparr>state := ADB_STATE_TLS_NEGOTIATING\<rparr>;
            c2 = snd (adb_send_msg_conn (malloc sv) ADB_STLS ADB_STLS_VERSION 0 [] False c1);
            c3 = c2\<lparr>stls_sent := True, tls := handshake sv\<rparr>
        in if tls c3 = None then c3
           else if \<not> malloc sv ADB_MAX_PAYLOAD then c3
           else stls_exchange sv 50 junk c3)"

definition handle_auth :: "services \<Rightarrow> adb_message \<Rightarrow> bytes \<Rightarrow> adb_connection \<Rightarrow> adb_connection" where
  "handle_auth sv msg payload c =
     (if arg0 msg = ADB_AUTH_TYPE_TOKEN then
        case sign_token sv (take (unat (data_length msg)) payload) of
          Some sig \<Rightarrow>
            (snd (adb_send_msg_conn (malloc sv) ADB_AUTH ADB_AUTH_TYPE_RSAKEY 0 sig True c))
              \<lparr>state := ADB_STATE_AUTH_SENT\<rparr>
        | None \<Rightarrow> c
      else c)"

definition handle_open :: "services \<Rightarrow> adb_message \<Rightarrow> adb_connection \<Rightarrow> adb_connection" where
  "handle_open sv msg c =
     snd (adb_send_msg_conn (malloc sv) ADB_OKAY (arg1 msg) (arg0 msg) [] True
            (c\<lparr>channels := open_channel_entry (arg1 msg) (arg0 msg) (channels c)\<rparr>))"

definition handle_okay :: "adb_message \<Rightarrow> adb_connection \<Rightarrow> adb_connection" where
  "handle_okay msg c = c\<lparr>channels := open_channel_entry (arg1 msg) (arg0 msg) (channels c)\<rparr>"

definition handle_wrte :: "services \<Rightarrow> adb_message \<Rightarrow> bytes \<Rightarrow> adb_connection \<Rightarrow> adb_connection" where
  "handle_wrte sv msg payload c =
     (if \<exists>ch \<in> set (channels c). local_id ch = arg1 msg \<and> remote_id ch = arg0 msg then
        snd (adb_send_msg_conn (malloc sv) ADB_OKAY (arg1 msg) (arg0 msg) [] True
          (if on_shell_output c
           then c\<lparr>shell_output := shell_output c @ [take (unat (data_length msg)) payload]\<rparr> else c))
      else c)"

definition handle_clse :: "adb_message \<Rightarrow> adb_connection \<Rightarrow> adb_connection" where
  "handle_clse msg c = c\<lparr>channels := close_channel_entry (arg0 msg) (channels c)\<rparr>"

section \<open>session\_handle\_message\<close>

text \<open>\<open>junk\<close> is what a freshly allocated buffer of the TLS branch holds.\<close>

definition session_handle_message ::
  "services \<Rightarrow> bytes \<Rightarrow> adb_message \<Rightarrow> bytes \<Rightarrow> adb_connection \<Rightarrow> adb_connection" where
  "session_handle_message sv junk msg payload c =
     (if command msg = ADB_CNXN then handle_cnxn msg payload c
      else if command msg = ADB_STLS then handle_stls sv junk c
      else if command msg = ADB_AUTH then handle_auth sv msg payload c
      else if command msg = ADB_OPEN then handle_open sv msg c
      else if command msg = ADB_OKAY then handle_okay msg c
      else if command msg = ADB_WRTE then handle_wrte sv msg payload c
      else if command msg = ADB_CLSE then handle_clse msg c
      else c)"

section \<open>Teardown and polling\<close>

definition close_all :: "services \<Rightarrow> adb_connection \<Rightarrow> adb_connection" where
  "close_all sv c = foldl (\<lambda>c i. session_close_channel sv i c) c [0..<length (channels c)]"

definition session_disconnect :: "services \<Rightarrow> adb_connection \<Rightarrow> adb_connection" where
  "session_disconnect sv c = (close_all sv c)\<lparr>fd := False, state := ADB_STATE_DISCONNECTED\<rparr>"

definition skip_checksum :: "adb_connection \<Rightarrow> bool" where
  "skip_checksum c \<longleftrightarrow> protocol_version c \<ge> int (unat ADB_VERSION_SKIP_CHECKSUM)"

definition session_recv_msg ::
  "int \<Rightarrow> bytes \<Rightarrow> bytes \<Rightarrow> adb_connection \<Rightarrow> recv_outcome \<times> adb_connection" where
  "session_recv_msg maxp hdr0 pl0 c = adb_recv_msg_conn maxp (skip_checksum c) hdr0 pl0 c"

definition do_select :: "adb_connection \<Rightarrow> int \<times> adb_connection" where
  "do_select c = (case selects c of [] \<Rightarrow> (0, c) | r # rs \<Rightarrow> (r, c\<lparr>selects := rs\<rparr>))"

text \<open>
  \<open>session_poll\<close>: the message structure is a local variable with no initial value
  (\<open>hdr0\<close>), the payload buffer is freshly allocated (\<open>junk\<close>); only a negative return
  value of the receive function ends the call early.
\<close>

definition session_poll ::
  "services \<Rightarrow> bytes \<Rightarrow> bytes \<Rightarrow> adb_connection \<Rightarrow> int \<times> adb_connection" where
  "session_poll sv hdr0 junk c =
     (if \<not> fd c then (-1, c)
      else case do_select c of (ret, c1) \<Rightarrow>
        if ret \<le> 0 then (ret, c1)
        else if \<not> malloc sv ADB_MAX_PAYLOAD then (-1, c1)
        else case adb_recv_msg_conn (int ADB_MAX_PAYLOAD) (skip_checksum c1) hdr0 junk c1 of
          (r, c2) \<Rightarrow>
            (case status r of
               Recv_Overrun \<Rightarrow> (-1, c2\<lparr>fault := True\<rparr>)
             | Recv_Fail \<Rightarrow> (-1, c2)
             | _ \<Rightarrow> (1, session_handle_message sv junk (out_hdr r) (out_payload r) c2)))"

text \<open>Services of a machine with memory and without key or TLS, for the examples.\<close>

definition plain_services :: services where
  "plain_services = \<lparr>malloc = (\<lambda>_. True), sign_token = (\<lambda>_. None), handshake = None\<rparr>"

definition example_connection :: adb_connection where
  "example_connection =
     \<lparr>rx = [], tx = \<lparr>sends = [], wire = []\<rparr>, tls = None, fd = True, state = ADB_STATE_CONNECTED,
      channels = [], next_local_id = 1, banner = [], protocol_version = 0x01000001,
      max_payload = 4096, cnxn_sent = True, stls_sent = False, on_connected = False,
      on_shell_output = True, connected_calls = 0, shell_output = [], selects = [], fault = False\<rparr>"

definition shell_channel :: "u32 \<Rightarrow> u32 \<Rightarrow> adb_channel" where
  "shell_channel lid rid =
     \<lparr>local_id = lid, remote_id = rid, service = ''shell:id'', chan_state = CHAN_OPEN\<rparr>"

section \<open>Frames\<close>

text \<open>A message sent or received changes nothing of a connection but its transports.\<close>

lemma send_fields [simp]:
  fixes c :: adb_connection
  shows
    "fd (snd (adb_send_msg_conn mal cmd a0 a1 data skip c)) = fd c"
    "state (snd (adb_send_msg_conn mal cmd a0 a1 data skip c)) = state c"
    "channels (snd (adb_send_msg_conn mal cmd a0 a1 data skip c)) = channels c"
    "next_local_id (snd (adb_send_msg_conn mal cmd a0 a1 data skip c)) = next_local_id c"
    "banner (snd (adb_send_msg_conn mal cmd a0 a1 data skip c)) = banner c"
    "protocol_version (snd (adb_send_msg_conn mal cmd a0 a1 data skip c)) = protocol_version c"
    "max_payload (snd (adb_send_msg_conn mal cmd a0 a1 data skip c)) = max_payload c"
    "cnxn_sent (snd (adb_send_msg_conn mal cmd a0 a1 data skip c)) = cnxn_sent c"
    "stls_sent (snd (adb_send_msg_conn mal cmd a0 a1 data skip c)) = stls_sent c"
    "on_connected (snd (adb_send_msg_conn mal cmd a0 a1 data skip c)) = on_connected c"
    "on_shell_output (snd (adb_send_msg_conn mal cmd a0 a1 data skip c)) = on_shell_output c"
    "connected_calls (snd (adb_send_msg_conn mal cmd a0 a1 data skip c)) = connected_calls c"
    "shell_output (snd (adb_send_msg_conn mal cmd a0 a1 data skip c)) = shell_output c"
    "selects (snd (adb_send_msg_conn mal cmd a0 a1 data skip c)) = selects c"
    "fault (snd (adb_send_msg_conn mal cmd a0 a1 data skip c)) = fault c"
    "rx (snd (adb_send_msg_conn mal cmd a0 a1 data skip c)) = rx c"
    "tls (snd (adb_send_msg_conn mal cmd a0 a1 data skip c)) = None \<longleftrightarrow> tls c = None"
  by (simp_all add: adb_send_msg_conn_def split: option.splits prod.splits)

lemma send_fields_pair:
  fixes c :: adb_connection
  assumes "adb_send_msg_conn mal cmd a0 a1 data skip c = (ok, c')"
  shows "channels c' = channels c" "next_local_id c' = next_local_id c" "state c' = state c"
    "fault c' = fault c" "protocol_version c' = protocol_version c"
    "max_payload c' = max_payload c" "banner c' = banner c"
  using send_fields [of mal cmd a0 a1 data skip c] assms by simp_all

lemma recv_fields:
  fixes c :: adb_connection
  assumes "adb_recv_msg_conn maxp skip hdr0 pl0 c = (r, c')"
  shows "fd c' = fd c" "state c' = state c" "channels c' = channels c"
    "next_local_id c' = next_local_id c" "banner c' = banner c"
    "protocol_version c' = protocol_version c" "max_payload c' = max_payload c"
    "cnxn_sent c' = cnxn_sent c" "stls_sent c' = stls_sent c" "on_connected c' = on_connected c"
    "on_shell_output c' = on_shell_output c" "connected_calls c' = connected_calls c"
    "shell_output c' = shell_output c" "selects c' = selects c" "fault c' = fault c"
    "tx c' = tx c"
  using assms by (auto simp: adb_recv_msg_conn_def split: option.splits prod.splits)

lemma select_fields:
  assumes "do_select c = (r, c')"
  shows "channels c' = channels c" "next_local_id c' = next_local_id c" "state c' = state c"
    "fault c' = fault c" "protocol_version c' = protocol_version c"
    "max_payload c' = max_payload c" "banner c' = banner c" "tls c' = tls c" "rx c' = rx c"
    "fd c' = fd c"
  using assms by (auto simp: do_select_def split: list.splits)

section \<open>The invariant of a connection\<close>

text \<open>
  The table fits its array, every name fits its buffer, the banner fits its buffer with a
  terminator, and the negotiated limits do not exceed the client's own.
\<close>

definition conn_ok :: "adb_connection \<Rightarrow> bool" where
  "conn_ok c \<longleftrightarrow>
     length (channels c) \<le> MAX_CHANNELS \<and>
     (\<forall>ch \<in> set (channels c). length (service ch) < SERVICE_NAME_MAX) \<and>
     length (banner c) < BANNER_MAX \<and>
     0 \<le> protocol_version c \<and> protocol_version c \<le> int (unat ADB_VERSION) \<and>
     max_payload c \<le> ADB_MAX_PAYLOAD"

lemma conn_ok_cong:
  "channels c' = channels c \<Longrightarrow> banner c' = banner c \<Longrightarrow> protocol_version c' = protocol_version c \<Longrightarrow>
     max_payload c' = max_payload c \<Longrightarrow> conn_ok c' = conn_ok c"
  by (simp add: conn_ok_def)

lemma conn_ok_send [simp]: "conn_ok (snd (adb_send_msg_conn mal cmd a0 a1 data skip c)) = conn_ok c"
  by (rule conn_ok_cong) simp_all

lemma conn_ok_recv: "adb_recv_msg_conn maxp skip hdr0 pl0 c = (r, c') \<Longrightarrow> conn_ok c' = conn_ok c"
  by (rule conn_ok_cong) (simp_all add: recv_fields)

lemma conn_ok_updates [simp]:
  "conn_ok (c\<lparr>state := st\<rparr>) = conn_ok c" "conn_ok (c\<lparr>cnxn_sent := b\<rparr>) = conn_ok c"
  "conn_ok (c\<lparr>stls_sent := b\<rparr>) = conn_ok c" "conn_ok (c\<lparr>tls := t\<rparr>) = conn_ok c"
  "conn_ok (c\<lparr>fault := b\<rparr>) = conn_ok c" "conn_ok (c\<lparr>fd := b\<rparr>) = conn_ok c"
  "conn_ok (c\<lparr>shell_output := out\<rparr>) = conn_ok c" "conn_ok (c\<lparr>connected_calls := n\<rparr>) = conn_ok c"
  "conn_ok (c\<lparr>next_local_id := i\<rparr>) = conn_ok c" "conn_ok (c\<lparr>selects := sel\<rparr>) = conn_ok c"
  by (simp_all add: conn_ok_def)

lemma update_first_length [simp]: "length (update_first P f xs) = length xs"
  by (induction xs) simp_all

lemma update_first_map: "(\<And>x. g (f x) = g x) \<Longrightarrow> map g (update_first P f xs) = map g xs"
  by (induction xs) simp_all

lemma update_first_set: "y \<in> set (update_first P f xs) \<Longrightarrow> y \<in> set xs \<or> (\<exists>x \<in> set xs. P x \<and> y = f x)"
  by (induction xs) (auto split: if_splits)

lemma update_first_none: "\<forall>x \<in> set xs. \<not> P x \<Longrightarrow> update_first P f xs = xs"
  by (induction xs) simp_all

lemma update_first_split:
  "\<forall>x \<in> set xs. \<not> P x \<Longrightarrow> P y \<Longrightarrow> update_first P f (xs @ y # ys) = xs @ f y # ys"
  by (induction xs) simp_all

lemma entry_fields [simp]:
  "map local_id (open_channel_entry lid rid chs) = map local_id chs"
  "map local_id (close_channel_entry lid chs) = map local_id chs"
  "map service (open_channel_entry lid rid chs) = map service chs"
  "map service (close_channel_entry lid chs) = map service chs"
  "length (open_channel_entry lid rid chs) = length chs"
  "length (close_channel_entry lid chs) = length chs"
  by (simp_all add: open_channel_entry_def close_channel_entry_def update_first_map)

lemma conn_ok_channels:
  assumes "conn_ok c" and "map service chs = map service (channels c)"
  shows "conn_ok (c\<lparr>channels := chs\<rparr>)"
proof -
  have "length chs = length (channels c)" using assms(2) by (rule map_eq_imp_length_eq)
  moreover have "service ` set chs = service ` set (channels c)" using assms(2) by (metis set_map)
  then have "\<forall>ch \<in> set chs. length (service ch) < SERVICE_NAME_MAX"
    using assms(1) by (metis (no_types, lifting) conn_ok_def imageE imageI)
  ultimately show ?thesis using assms(1) by (simp add: conn_ok_def)
qed

lemma conn_ok_copy_banner: "conn_ok c \<Longrightarrow> conn_ok (copy_banner len payload c)"
  by (auto simp: conn_ok_def copy_banner_def BANNER_MAX_def min_def Let_def)

lemma set_peer_limits_bounds:
  "uint (min (arg0 msg) ADB_VERSION) \<le> uint ADB_VERSION"
  "unat (min (arg1 msg) (word_of_nat ADB_MAX_PAYLOAD)) \<le> ADB_MAX_PAYLOAD"
proof -
  show "uint (min (arg0 msg) ADB_VERSION) \<le> uint ADB_VERSION"
    by (simp add: word_le_def [symmetric])
  have "unat (min (arg1 msg) (word_of_nat ADB_MAX_PAYLOAD)) \<le> unat (word_of_nat ADB_MAX_PAYLOAD :: u32)"
    by (simp add: word_le_nat_alt [symmetric])
  moreover have "unat (word_of_nat ADB_MAX_PAYLOAD :: u32) = ADB_MAX_PAYLOAD"
    by (rule unat_of_nat32) (simp add: ADB_MAX_PAYLOAD_def)
  ultimately show "unat (min (arg1 msg) (word_of_nat ADB_MAX_PAYLOAD)) \<le> ADB_MAX_PAYLOAD" by simp
qed

lemma conn_ok_limits: "conn_ok c \<Longrightarrow> conn_ok (set_peer_limits msg c)"
  by (simp add: conn_ok_def set_peer_limits_def set_peer_limits_bounds)

text \<open>What every step of the exchange keeps, the exchange keeps.\<close>

lemma stls_exchange_keeps:
  assumes recv: "\<And>rpl c r c1. Q c \<Longrightarrow>
      adb_recv_msg_conn (int ADB_MAX_PAYLOAD) True zero_header rpl c = (r, c1) \<Longrightarrow> Q c1"
    and send: "\<And>c cmd a0 a1 d sk. Q c \<Longrightarrow> Q (snd (adb_send_msg_conn (malloc sv) cmd a0 a1 d sk c))"
    and flt: "\<And>c. Q c \<Longrightarrow> Q (c\<lparr>fault := True\<rparr>)"
    and cnxn: "\<And>c m. Q c \<Longrightarrow> Q ((set_peer_limits m c)\<lparr>state := ADB_STATE_CONNECTED\<rparr>)"
    and banner: "\<And>c len pl. Q c \<Longrightarrow> Q (copy_banner len pl c)"
  shows "Q c \<Longrightarrow> Q (stls_exchange sv t rpl c)"
proof (induction t arbitrary: rpl c)
  case 0
  then show ?case by simp
next
  case (Suc t)
  obtain r c1 where r: "adb_recv_msg_conn (int ADB_MAX_PAYLOAD) True zero_header rpl c = (r, c1)"
    by (cases "adb_recv_msg_conn (int ADB_MAX_PAYLOAD) True zero_header rpl c")
  have Q1: "Q c1" by (rule recv [OF Suc.prems r])
  have auth: "Q (case sign_token sv tok of
      Some sig \<Rightarrow> snd (adb_send_msg_conn (malloc sv) ADB_AUTH ADB_AUTH_TYPE_RSAKEY 0 sig True c1)
    | None \<Rightarrow> c1)" for tok
    using send Q1 by (cases "sign_token sv tok") simp_all
  have cn: "Q (let c2 = (set_peer_limits m c1)\<lparr>state := ADB_STATE_CONNECTED\<rparr>
      in if data_length m > 0 then copy_banner (data_length m) pl c2 else c2)" for m pl
    unfolding Let_def using cnxn [OF Q1, of m] banner by (simp split: if_split)
  have step: "Q (stls_exchange sv t rpl c')" if "Q c'" for rpl c' using that by (rule Suc.IH)
  show ?case
    using Suc.prems flt [OF Q1] step [OF auth] cn step [OF Q1] step [OF send [OF Q1]]
    by (cases "state c = ADB_STATE_CONNECTED"; cases "status r")
       (simp_all only: stls_exchange.simps r prod.case Let_def recv_status.case if_True if_False
          split: if_split, simp_all)
qed

lemma conn_ok_stls_exchange: "conn_ok c \<Longrightarrow> conn_ok (stls_exchange sv t rpl c)"
  by (erule stls_exchange_keeps [rotated -1]) (simp_all add: conn_ok_recv conn_ok_limits conn_ok_copy_banner)

lemma copy_banner_fields [simp]:
  "channels (copy_banner len pl c) = channels c" "next_local_id (copy_banner len pl c) = next_local_id c"
  "state (copy_banner len pl c) = state c" "tls (copy_banner len pl c) = tls c"
  "fd (copy_banner len pl c) = fd c" "rx (copy_banner len pl c) = rx c" "tx (copy_banner len pl c) = tx c"
  "shell_output (copy_banner len pl c) = shell_output c"
  by (simp_all add: copy_banner_def Let_def)

lemma set_peer_limits_fields [simp]:
  "channels (set_peer_limits m c) = channels c" "next_local_id (set_peer_limits m c) = next_local_id c"
  "state (set_peer_limits m c) = state c" "tls (set_peer_limits m c) = tls c"
  "fd (set_peer_limits m c) = fd c" "rx (set_peer_limits m c) = rx c" "tx (set_peer_limits m c) = tx c"
  "shell_output (set_peer_limits m c) = shell_output c"
  by (simp_all add: set_peer_limits_def)

lemma channels_stls_exchange [simp]:
  "channels (stls_exchange sv t rpl c) = channels c"
  "next_local_id (stls_exchange sv t rpl c) = next_local_id c"
  by (rule stls_exchange_keeps [where Q = "\<lambda>x. channels x = channels c"])
     (simp_all add: recv_fields,
      rule stls_exchange_keeps [where Q = "\<lambda>x. next_local_id x = next_local_id c"],
      simp_all add: recv_fields)

lemma conn_ok_handle_message:
  assumes "conn_ok c"
  shows "conn_ok (session_handle_message sv junk msg payload c)"
proof -
  have "conn_ok (handle_cnxn msg payload c)"
    using assms by (simp add: handle_cnxn_def Let_def conn_ok_limits conn_ok_copy_banner)
  moreover have "conn_ok (handle_stls sv junk c)"
    using assms by (simp add: handle_stls_def Let_def conn_ok_stls_exchange)
  moreover have "conn_ok (handle_auth sv msg payload c)"
    using assms by (simp add: handle_auth_def split: option.splits)
  moreover have "conn_ok (handle_open sv msg c)" "conn_ok (handle_okay msg c)" "conn_ok (handle_clse msg c)"
    using assms by (simp_all add: handle_open_def handle_okay_def handle_clse_def conn_ok_channels)
  moreover have "conn_ok (handle_wrte sv msg payload c)"
    using assms by (simp add: handle_wrte_def)
  ultimately show ?thesis by (simp add: session_handle_message_def assms)
qed

lemma channels_handle_message:
  "map local_id (channels (session_handle_message sv junk msg payload c)) = map local_id (channels c)"
  "next_local_id (session_handle_message sv junk msg payload c) = next_local_id c"
  by (simp_all add: session_handle_message_def handle_cnxn_def handle_stls_def handle_auth_def
      handle_open_def handle_okay_def handle_wrte_def handle_clse_def Let_def split: option.splits)

section \<open>Opening and closing\<close>

lemma session_open_channel_full:
  "MAX_CHANNELS \<le> length (channels c) \<Longrightarrow> session_open_channel sv serv c = (None, c)"
  by (simp add: session_open_channel_def)

lemma session_open_channel_result:
  assumes "session_open_channel sv serv c = (r, c')"
  shows "channels c' = (case r of None \<Rightarrow> channels c
      | Some i \<Rightarrow> channels c @ [\<lparr>local_id = next_local_id c, remote_id = 0,
                     service = cut SERVICE_NAME_MAX serv, chan_state = CHAN_OPENING\<rparr>])"
    and "r = None \<or> r = Some (length (channels c)) \<and> length (channels c) < MAX_CHANNELS"
    and "next_local_id c' = (if length (channels c) < MAX_CHANNELS then next_local_id c + 1
                             else next_local_id c)"
  using assms
  by (auto simp: session_open_channel_def Let_def send_fields_pair split: if_splits prod.splits bool.splits)

lemma conn_ok_open:
  assumes "conn_ok c" and "session_open_channel sv serv c = (r, c')"
  shows "conn_ok c'"
proof -
  have rest: "banner c' = banner c" "protocol_version c' = protocol_version c" "max_payload c' = max_payload c"
    using assms(2)
    by (auto simp: session_open_channel_def Let_def send_fields_pair split: if_splits prod.splits bool.splits)
  have "length (cut SERVICE_NAME_MAX serv) < SERVICE_NAME_MAX"
    by (simp add: cut_def SERVICE_NAME_MAX_def)
  with assms(1) session_open_channel_result(1,2) [OF assms(2)] rest show ?thesis
    by (auto simp: conn_ok_def)
qed

lemma close_channel_fields:
  assumes "i < length (channels c)"
  shows "map local_id (channels (session_close_channel sv i c)) = map local_id (channels c)"
    "map service (channels (session_close_channel sv i c)) = map service (channels c)"
    "next_local_id (session_close_channel sv i c) = next_local_id c"
    "chan_state (channels (session_close_channel sv i c) ! i) = CHAN_CLOSED"
    "j \<noteq> i \<Longrightarrow> channels (session_close_channel sv i c) ! j = channels c ! j"
  using assms by (auto simp: session_close_channel_def Let_def map_update list_update_same_conv)

lemma conn_ok_close: "conn_ok c \<Longrightarrow> i < length (channels c) \<Longrightarrow> conn_ok (session_close_channel sv i c)"
proof -
  assume ok: "conn_ok c" and i: "i < length (channels c)"
  have "conn_ok ((session_close_channel sv i c)\<lparr>channels := channels c\<rparr>)"
    using ok by (auto simp: session_close_channel_def Let_def conn_ok_def)
  from conn_ok_channels [OF this, of "channels (session_close_channel sv i c)"]
  show ?thesis using close_channel_fields(2) [OF i] by simp
qed

end
