(* ===== verification/Adb_Channels.thy ===== *)
theory Adb_Channels
  imports Adb_Session
begin

text \<open>
  The channel table of a connection over whole runs: a step relation for what a client of
  \<open>src/adb/session.c\<close> does with a connection, the invariant of every run, and the table as a
  map from local ids, which the message handler of the code implements.
\<close>

section \<open>Runs\<close>

text \<open>
  \<open>session_run sv c n c'\<close>: the client takes the connection from \<open>c\<close> to \<open>c'\<close> and asks for
  \<open>n\<close> channels on the way. What the device sends is in the transport scripts of \<open>c\<close>; each
  poll may find anything in its uninitialised buffers. \<open>send\<close> stands for the messages that
  other files send on a channel of their own.
\<close>

inductive session_run :: "services \<Rightarrow> adb_connection \<Rightarrow> nat \<Rightarrow> adb_connection \<Rightarrow> bool"
  for sv c where
  start: "session_run sv c 0 c"
| opens: "session_run sv c n c1 \<Longrightarrow> session_open_channel sv serv c1 = (r, c2) \<Longrightarrow> session_run sv c (Suc n) c2"
| close: "session_run sv c n c1 \<Longrightarrow> i < length (channels c1) \<Longrightarrow>
    session_run sv c n (session_close_channel sv i c1)"
| poll: "session_run sv c n c1 \<Longrightarrow> session_poll sv hdr0 junk c1 = (r, c2) \<Longrightarrow> session_run sv c n c2"
| handle: "session_run sv c n c1 \<Longrightarrow> session_run sv c n (session_handle_message sv junk msg payload c1)"
| send: "session_run sv c n c1 \<Longrightarrow>
    session_run sv c n (snd (adb_send_msg_conn (malloc sv) cmd a0 a1 data skip c1))"

inductive_cases session_runE: "session_run sv c n c'"

lemma session_poll_cases:
  assumes "session_poll sv hdr0 junk c = (r, c')"
  obtains (quiet) "c' = c" | (selected) "do_select c = (r, c')"
    | (no_memory) sel where "do_select c = (sel, c')"
    | (failed) sel c1 o' where "do_select c = (sel, c1)"
        and "adb_recv_msg_conn (int ADB_MAX_PAYLOAD) (skip_checksum c1) hdr0 junk c1 = (o', c')"
    | (overrun) sel c1 o' c2 where "do_select c = (sel, c1)"
        and "adb_recv_msg_conn (int ADB_MAX_PAYLOAD) (skip_checksum c1) hdr0 junk c1 = (o', c2)"
        and "c' = c2\<lparr>fault := True\<rparr>"
    | (handled) sel c1 o' c2 where "do_select c = (sel, c1)"
        and "adb_recv_msg_conn (int ADB_MAX_PAYLOAD) (skip_checksum c1) hdr0 junk c1 = (o', c2)"
        and "c' = session_handle_message sv junk (out_hdr o') (out_payload o') c2"
proof -
  obtain sel c1 where sel: "do_select c = (sel, c1)" by (cases "do_select c")
  obtain o' c2 where rcv: "adb_recv_msg_conn (int ADB_MAX_PAYLOAD) (skip_checksum c1) hdr0 junk c1 = (o', c2)"
    by (cases "adb_recv_msg_conn (int ADB_MAX_PAYLOAD) (skip_checksum c1) hdr0 junk c1")
  consider "\<not> fd c" | "fd c" "sel \<le> 0" | "fd c" "\<not> sel \<le> 0" "\<not> malloc sv ADB_MAX_PAYLOAD"
    | "fd c" "\<not> sel \<le> 0" "malloc sv ADB_MAX_PAYLOAD" by blast
  then show thesis
  proof cases
    case 4
    with assms sel rcv have res: "(r, c') = (case status o' of Recv_Overrun \<Rightarrow> (-1, c2\<lparr>fault := True\<rparr>)
        | Recv_Fail \<Rightarrow> (-1, c2)
        | _ \<Rightarrow> (1, session_handle_message sv junk (out_hdr o') (out_payload o') c2))"
      by (simp add: session_poll_def)
    show thesis
      by (cases "status o'") (use res sel rcv failed overrun handled in simp_all)
  qed (use assms sel quiet selected no_memory in \<open>simp_all add: session_poll_def\<close>)
qed

lemma poll_fields:
  assumes "session_poll sv hdr0 junk c = (r, c')"
  shows "map local_id (channels c') = map local_id (channels c)"
    "next_local_id c' = next_local_id c"
  using assms
  by (cases rule: session_poll_cases;
      simp add: select_fields recv_fields channels_handle_message)+

lemma conn_ok_select: "do_select c = (r, c') \<Longrightarrow> conn_ok c' = conn_ok c"
  by (rule conn_ok_cong) (simp_all add: select_fields)

lemma conn_ok_poll:
  assumes "session_poll sv hdr0 junk c = (r, c')" and "conn_ok c"
  shows "conn_ok c'"
  using assms(1)
  by (cases rule: session_poll_cases)
    (use assms(2) in \<open>simp_all add: conn_ok_select conn_ok_recv conn_ok_handle_message\<close>)

section \<open>The invariant of a run\<close>

text \<open>The local ids are handed out in increasing order, from 1.\<close>

definition ids_below :: "nat \<Rightarrow> adb_connection \<Rightarrow> bool" where
  "ids_below n c \<longleftrightarrow>
     unat (next_local_id c) \<le> Suc n \<and> 0 < unat (next_local_id c) \<and>
     sorted_wrt (<) (map local_id (channels c)) \<and>
     (\<forall>i \<in> set (map local_id (channels c)). 0 < i \<and> i < next_local_id c)"

lemma ids_below_cong:
  "map local_id (channels c') = map local_id (channels c) \<Longrightarrow> next_local_id c' = next_local_id c \<Longrightarrow>
     ids_below n c' = ids_below n c"
  unfolding ids_below_def by metis

lemma ids_below_open:
  assumes inv: "ids_below n c" and n: "Suc n < 2 ^ 32 - 1" and op: "session_open_channel sv serv c = (r, c')"
  shows "ids_below (Suc n) c'"
proof -
  note res = session_open_channel_result [OF op]
  have nx: "unat (next_local_id c + 1) = Suc (unat (next_local_id c))"
    using inv n by (auto simp: ids_below_def unat_word_ariths)
  then have less: "next_local_id c < next_local_id c + 1" by (simp add: word_less_nat_alt)
  show ?thesis
  proof (cases r)
    case None
    with res inv nx less show ?thesis
      by (cases "length (channels c) < MAX_CHANNELS") (auto simp: ids_below_def)
  next
    case (Some i)
    with res have "channels c' = channels c @ [\<lparr>local_id = next_local_id c, remote_id = 0,
          service = cut SERVICE_NAME_MAX serv, chan_state = CHAN_OPENING\<rparr>]"
      and "next_local_id c' = next_local_id c + 1" by simp_all
    with inv nx less show ?thesis
      by (auto simp: ids_below_def sorted_wrt_append word_greater_zero_iff)
  qed
qed

lemma session_run_inv:
  assumes "session_run sv c n c'" and "conn_ok c" "channels c = []" "next_local_id c = 1"
    and "n < 2 ^ 32 - 1"
  shows "conn_ok c' \<and> ids_below n c'"
  using assms(1,5)
proof induction
  case start
  with assms show ?case by (simp add: ids_below_def)
next
  case (opens n c1 serv r c2)
  then have "n < 2 ^ 32 - 1" by simp
  with opens show ?case using conn_ok_open [OF _ opens(2)] ids_below_open [OF _ _ opens(2)] by simp
next
  case (close n c1 i)
  then show ?case
    using conn_ok_close [OF _ close(2)]
      ids_below_cong [of "session_close_channel sv i c1" c1 n] close_channel_fields [OF close(2)] by simp
next
  case (poll n c1 hdr0 junk r c2)
  then show ?case using conn_ok_poll [OF poll(2)] ids_below_cong [of c2 c1 n] poll_fields [OF poll(2)] by simp
next
  case (handle n c1 junk msg payload)
  then show ?case
    using conn_ok_handle_message ids_below_cong [OF channels_handle_message] by simp
next
  case (send n c1 cmd a0 a1 data skip)
  then show ?case using ids_below_cong [of "snd (adb_send_msg_conn (malloc sv) cmd a0 a1 data skip c1)" c1 n] by simp
qed

text \<open>C3. In every run that starts on a fresh connection and asks for fewer than \<open>2 ^ 32 - 1\<close>
  channels, whatever the device sends: the table, every name and the banner fit their
  arrays, the negotiated version and size never exceed the client's own, and the local ids
  in the table are distinct and not 0.\<close>

theorem session_run_invariant:
  assumes "session_run sv c n c'" and "conn_ok c" and "channels c = []" and "next_local_id c = 1"
    and "n < 2 ^ 32 - 1"
  shows "length (channels c') \<le> 64 \<and> (\<forall>ch \<in> set (channels c'). length (service ch) < 256) \<and>
     length (banner c') < 512 \<and> protocol_version c' \<le> 0x01000001 \<and> max_payload c' \<le> 1024 * 1024 \<and>
     distinct (map local_id (channels c')) \<and> 0 \<notin> set (map local_id (channels c'))"
proof -
  have ok: "conn_ok c'" and ids: "ids_below n c'" using session_run_inv [OF assms] by simp_all
  from ids have "distinct (map local_id (channels c'))"
    by (simp add: ids_below_def strict_sorted_iff)
  moreover from ids have "0 \<notin> set (map local_id (channels c'))" by (auto simp: ids_below_def)
  ultimately show ?thesis
    using ok unfolding conn_ok_def MAX_CHANNELS_def SERVICE_NAME_MAX_def BANNER_MAX_def
      ADB_MAX_PAYLOAD_def ADB_VERSION_def by simp
qed

lemma example_run:
  "session_run plain_services example_connection 1
     (snd (session_open_channel plain_services ''shell:ls'' example_connection))"
  using session_run.opens [OF session_run.start surjective_pairing, of plain_services example_connection]
  by simp

theorem session_run_invariant_witness:
  "length (channels (snd (session_open_channel plain_services ''shell:ls'' example_connection))) \<le> 64"
  using session_run_invariant [OF example_run]
  by (simp add: conn_ok_def example_connection_def BANNER_MAX_def ADB_VERSION_def ADB_MAX_PAYLOAD_def)

section \<open>Slots\<close>

text \<open>A slot of the table is never given back: on a connection that has opened 64 channels, each
  later request fails, in every run from there, even after all of them were closed.\<close>

theorem channel_slots_never_freed:
  assumes "session_run sv c n c'" and "length (channels c) = 64"
  shows "session_open_channel sv serv c' = (None, c')"
proof -
  have "length (channels c') = 64"
    using assms
  proof induction
    case start
    then show ?case by simp
  next
    case (opens n c1 serv r c2)
    then show ?case using session_open_channel_full [of c1] by (simp add: MAX_CHANNELS_def)
  next
    case (close n c1 i)
    then show ?case using map_eq_imp_length_eq [OF close_channel_fields(1) [OF close(2)]] by simp
  next
    case (poll n c1 hdr0 junk r c2)
    then show ?case using map_eq_imp_length_eq [OF poll_fields(1) [OF poll(2)]] by simp
  next
    case (handle n c1 junk msg payload)
    then show ?case using map_eq_imp_length_eq [OF channels_handle_message(1)] by simp
  next
    case (send n c1 cmd a0 a1 data skip)
    then show ?case by simp
  qed
  then show ?thesis by (simp add: session_open_channel_full MAX_CHANNELS_def)
qed

theorem channel_slots_never_freed_witness:
  "session_open_channel plain_services ''shell:ls''
     (session_close_channel plain_services 3
        (example_connection\<lparr>channels := replicate 64 (shell_channel 1 2)\<rparr>)) =
   (None, session_close_channel plain_services 3
        (example_connection\<lparr>channels := replicate 64 (shell_channel 1 2)\<rparr>))"
proof (rule channel_slots_never_freed)
  show "session_run plain_services (example_connection\<lparr>channels := replicate 64 (shell_channel 1 2)\<rparr>) 0
      (session_close_channel plain_services 3
        (example_connection\<lparr>channels := replicate 64 (shell_channel 1 2)\<rparr>))"
    by (rule session_run.close [OF session_run.start]) simp
qed simp

section \<open>The table as a map\<close>

text \<open>What a client relies on: the remote id and the state under a local id.\<close>

definition channel_map :: "adb_connection \<Rightarrow> u32 \<rightharpoonup> u32 \<times> adb_chan_state" where
  "channel_map c = map_of (map (\<lambda>ch. (local_id ch, remote_id ch, chan_state ch)) (channels c))"

text \<open>
  The contract of a message on the map. \<open>route\<close> is the effect of an opening or acknowledging
  message, \<open>shut\<close> that of a closing one.
\<close>

definition route :: "u32 \<Rightarrow> u32 \<Rightarrow> (u32 \<rightharpoonup> u32 \<times> adb_chan_state) \<Rightarrow> u32 \<rightharpoonup> u32 \<times> adb_chan_state" where
  "route lid rid m = (case m lid of None \<Rightarrow> m | Some _ \<Rightarrow> m(lid \<mapsto> (rid, CHAN_OPEN)))"

definition shut :: "u32 \<Rightarrow> (u32 \<rightharpoonup> u32 \<times> adb_chan_state) \<Rightarrow> u32 \<rightharpoonup> u32 \<times> adb_chan_state" where
  "shut lid m = (case m lid of None \<Rightarrow> m | Some (rid, _) \<Rightarrow> m(lid \<mapsto> (rid, CHAN_CLOSED)))"

lemma map_of_update_first:
  assumes "\<And>x. key (f x) = key x"
  shows "map_of (map (\<lambda>x. (key x, val x)) (update_first (\<lambda>x. key x = k) f xs)) =
     (case find (\<lambda>x. key x = k) xs of None \<Rightarrow> map_of (map (\<lambda>x. (key x, val x)) xs)
      | Some x \<Rightarrow> (map_of (map (\<lambda>x. (key x, val x)) xs))(k \<mapsto> val (f x)))"
  by (induction xs) (auto simp: assms fun_eq_iff split: option.splits)

lemma channel_map_find:
  "channel_map c k = map_option (\<lambda>ch. (remote_id ch, chan_state ch)) (find (\<lambda>ch. local_id ch = k) (channels c))"
proof -
  have "map_of (map (\<lambda>ch. (local_id ch, remote_id ch, chan_state ch)) chs) k =
      map_option (\<lambda>ch. (remote_id ch, chan_state ch)) (find (\<lambda>ch. local_id ch = k) chs)" for chs
    by (induction chs) auto
  then show ?thesis by (simp add: channel_map_def)
qed

lemma channel_map_route:
  "channel_map (c\<lparr>channels := open_channel_entry lid rid (channels c)\<rparr>) = route lid rid (channel_map c)"
  unfolding route_def channel_map_find [of c lid]
  by (simp add: channel_map_def open_channel_entry_def map_of_update_first split: option.splits)

lemma channel_map_shut:
  "channel_map (c\<lparr>channels := close_channel_entry lid (channels c)\<rparr>) = shut lid (channel_map c)"
  unfolding shut_def channel_map_find [of c lid]
  by (simp add: channel_map_def close_channel_entry_def map_of_update_first split: option.splits)

lemma channel_map_cong: "channels c' = channels c \<Longrightarrow> channel_map c' = channel_map c"
  by (simp add: channel_map_def)

text \<open>C2. The handler implements the map contract: \<open>OPEN\<close> and \<open>OKAY\<close> route the local id in
  \<open>arg1\<close> to the remote id in \<open>arg0\<close>, if the local id is known; \<open>CLSE\<close> shuts the local id
  in \<open>arg0\<close>; every other message, the TLS upgrade with its whole exchange included, leaves
  the map as it is.\<close>

theorem session_handle_message_refines:
  "channel_map (session_handle_message sv junk msg payload c) =
     (if command msg = ADB_OPEN \<or> command msg = ADB_OKAY then route (arg1 msg) (arg0 msg) (channel_map c)
      else if command msg = ADB_CLSE then shut (arg0 msg) (channel_map c)
      else channel_map c)"
proof -
  have "channel_map (handle_open sv msg c) = route (arg1 msg) (arg0 msg) (channel_map c)"
    unfolding handle_open_def channel_map_route [symmetric] by (rule channel_map_cong) simp
  moreover have "channel_map (handle_okay msg c) = route (arg1 msg) (arg0 msg) (channel_map c)"
    unfolding handle_okay_def by (rule channel_map_route)
  moreover have "channel_map (handle_clse msg c) = shut (arg0 msg) (channel_map c)"
    unfolding handle_clse_def by (rule channel_map_shut)
  moreover have "channel_map (handle_cnxn msg payload c) = channel_map c"
    by (rule channel_map_cong) (simp add: handle_cnxn_def Let_def)
  moreover have "channel_map (handle_stls sv junk c) = channel_map c"
    by (rule channel_map_cong) (simp add: handle_stls_def Let_def)
  moreover have "channel_map (handle_auth sv msg payload c) = channel_map c"
    by (rule channel_map_cong) (simp add: handle_auth_def split: option.splits)
  moreover have "channel_map (handle_wrte sv msg payload c) = channel_map c"
    by (rule channel_map_cong) (simp add: handle_wrte_def)
  ultimately show ?thesis by (simp add: session_handle_message_def adb_commands)
qed

text \<open>A \<open>CLSE\<close> of the device carries the device's id in \<open>arg0\<close> and the client's in
  \<open>arg1\<close>, as \<open>OKAY\<close> and \<open>WRTE\<close> do, but the handler looks \<open>arg0\<close> up among the client's
  ids: the channel the device closes stays as it was unless the two ids are the same number,
  and a channel of the client whose local id is the device's number is closed instead.\<close>

theorem clse_closes_by_remote_number:
  assumes "command msg = ADB_CLSE" and "arg1 msg \<noteq> arg0 msg"
  shows "channel_map (session_handle_message sv junk msg payload c) (arg1 msg) = channel_map c (arg1 msg) \<and>
     (\<forall>r st. channel_map c (arg0 msg) = Some (r, st) \<longrightarrow>
       channel_map (session_handle_message sv junk msg payload c) (arg0 msg) = Some (r, CHAN_CLOSED))"
proof -
  have "channel_map (session_handle_message sv junk msg payload c) = shut (arg0 msg) (channel_map c)"
    using assms by (simp add: session_handle_message_def adb_commands handle_clse_def channel_map_shut)
  with assms(2) show ?thesis by (auto simp: shut_def split: option.splits)
qed

theorem clse_closes_by_remote_number_witness:
  "channel_map (session_handle_message plain_services [] (make_header ADB_CLSE 2 1 0 0) []
     (example_connection\<lparr>channels := [shell_channel 1 2, shell_channel 2 5]\<rparr>)) 1 = Some (2, CHAN_OPEN) \<and>
   channel_map (session_handle_message plain_services [] (make_header ADB_CLSE 2 1 0 0) []
     (example_connection\<lparr>channels := [shell_channel 1 2, shell_channel 2 5]\<rparr>)) 2 = Some (5, CHAN_CLOSED)"
  using clse_closes_by_remote_number [of "make_header ADB_CLSE 2 1 0 0" plain_services "[]" "[]"
      "example_connection\<lparr>channels := [shell_channel 1 2, shell_channel 2 5]\<rparr>"]
  by (simp add: make_header_def channel_map_def shell_channel_def)

section \<open>Messages sent while nothing blocks\<close>

text \<open>A plain socket that takes whatever it is given.\<close>

definition idle_plain :: "'a link_scheme \<Rightarrow> bool" where
  "idle_plain c \<longleftrightarrow> tls c = None \<and> sends (tx c) = []"

lemma send_idle_plain:
  fixes c :: adb_connection
  assumes "idle_plain c"
  shows "adb_send_msg_conn mal cmd a0 a1 data skip c =
     (True, c\<lparr>tx := (tx c)\<lparr>wire := wire (tx c) @ header_bytes (sent_message cmd a0 a1 data skip) @ data\<rparr>\<rparr>)"
  using assms
  by (cases "tx c") (simp add: idle_plain_def adb_send_msg_conn_def adb_send_msg_def sent_message_def
      Let_def io_simps)

definition okay_message :: "u32 \<Rightarrow> u32 \<Rightarrow> adb_message" where
  "okay_message lid rid = make_header ADB_OKAY lid rid 0 0"

text \<open>A \<open>WRTE\<close> is delivered, and acknowledged with one \<open>OKAY\<close> that carries the channel's
  two ids, exactly when the table has a channel with its local and remote id; otherwise it is
  dropped without an answer. Nothing else of the connection changes.\<close>

theorem wrte_delivered_and_acknowledged:
  assumes "idle_plain c" and "command msg = ADB_WRTE"
  shows "session_handle_message sv junk msg payload c =
     (let known = (\<exists>ch \<in> set (channels c). local_id ch = arg1 msg \<and> remote_id ch = arg0 msg)
      in c\<lparr>tx := (tx c)\<lparr>wire := wire (tx c) @
                 (if known then header_bytes (okay_message (arg1 msg) (arg0 msg)) else [])\<rparr>,
           shell_output := shell_output c @
                 (if known \<and> on_shell_output c then [take (unat (data_length msg)) payload] else [])\<rparr>)"
proof -
  have same: "c\<lparr>tx := (tx c)\<lparr>wire := wire (tx c)\<rparr>, shell_output := shell_output c\<rparr> = c" by simp
  have h: "session_handle_message sv junk msg payload c = handle_wrte sv msg payload c"
    using assms(2) by (simp add: session_handle_message_def adb_commands)
  have idle: "idle_plain (c\<lparr>shell_output := out\<rparr>)" for out
    using assms(1) by (simp add: idle_plain_def)
  show ?thesis
  proof (cases "\<exists>ch \<in> set (channels c). local_id ch = arg1 msg \<and> remote_id ch = arg0 msg")
    case True
    then show ?thesis
      unfolding h Let_def
      by (simp add: handle_wrte_def send_idle_plain idle assms(1) okay_message_def sent_message_def)
  next
    case False
    then show ?thesis unfolding h Let_def by (simp only: handle_wrte_def if_False
      simp_thms append_Nil2 same)
  qed
qed

theorem wrte_delivered_and_acknowledged_witness:
  "shell_output (session_handle_message plain_services [] (make_header ADB_WRTE 2 1 3 0) [7, 8, 9, 0]
     (example_connection\<lparr>channels := [shell_channel 1 2]\<rparr>)) = [[7, 8, 9]] \<and>
   wire (tx (session_handle_message plain_services [] (make_header ADB_WRTE 2 1 3 0) [7, 8, 9, 0]
     (example_connection\<lparr>channels := [shell_channel 1 2]\<rparr>))) = header_bytes (okay_message 1 2)"
proof -
  have "idle_plain (example_connection\<lparr>channels := [shell_channel 1 2]\<rparr>)"
    by (simp add: idle_plain_def example_connection_def)
  from wrte_delivered_and_acknowledged [OF this, of "make_header ADB_WRTE 2 1 3 0" plain_services "[]" "[7, 8, 9, 0]"]
  show ?thesis by (simp add: make_header_def shell_channel_def example_connection_def)
qed

section \<open>Disconnecting\<close>

text \<open>What a close puts on the wire for one channel.\<close>

definition clse_bytes :: "adb_channel \<Rightarrow> bytes" where
  "clse_bytes ch =
     (if chan_state ch \<noteq> CHAN_CLOSED \<and> remote_id ch \<noteq> 0
      then header_bytes (sent_message ADB_CLSE (local_id ch) (remote_id ch) [] True) else [])"

lemma session_close_channel_idle:
  assumes "idle_plain c" and "i < length (channels c)"
  shows "session_close_channel sv i c =
     c\<lparr>channels := (channels c)[i := (channels c ! i)\<lparr>chan_state := CHAN_CLOSED\<rparr>],
       tx := (tx c)\<lparr>wire := wire (tx c) @ clse_bytes (channels c ! i)\<rparr>\<rparr>"
proof -
  have "chan_state x = CHAN_CLOSED \<Longrightarrow> x\<lparr>chan_state := CHAN_CLOSED\<rparr> = x" for x :: adb_channel by simp
  then have "chan_state (channels c ! i) = CHAN_CLOSED \<Longrightarrow>
      (channels c)[i := (channels c ! i)\<lparr>chan_state := CHAN_CLOSED\<rparr>] = channels c"
    by (simp only: list_update_id)
  with assms show ?thesis
    by (simp add: session_close_channel_def clse_bytes_def send_idle_plain Let_def)
qed

lemma close_prefix:
  assumes "idle_plain c" and "n \<le> length (channels c)"
  shows "foldl (\<lambda>c i. session_close_channel sv i c) c [0..<n] =
     c\<lparr>channels := map (\<lambda>ch. ch\<lparr>chan_state := CHAN_CLOSED\<rparr>) (take n (channels c)) @ drop n (channels c),
       tx := (tx c)\<lparr>wire := wire (tx c) @ concat (map clse_bytes (take n (channels c)))\<rparr>\<rparr>"
  using assms(2)
proof (induction n)
  case 0
  then show ?case by simp
next
  case (Suc n)
  let ?c = "c\<lparr>channels := map (\<lambda>ch. ch\<lparr>chan_state := CHAN_CLOSED\<rparr>) (take n (channels c)) @ drop n (channels c),
       tx := (tx c)\<lparr>wire := wire (tx c) @ concat (map clse_bytes (take n (channels c)))\<rparr>\<rparr>"
  have n: "n < length (channels c)" using Suc.prems by simp
  have idle: "idle_plain ?c" using assms(1) by (simp add: idle_plain_def)
  have d: "drop n (channels c) = channels c ! n # drop (Suc n) (channels c)"
    using n by (rule Cons_nth_drop_Suc [symmetric])
  from Suc n have "foldl (\<lambda>c i. session_close_channel sv i c) c [0..<Suc n] = session_close_channel sv n ?c"
    by simp
  also have "\<dots> = ?c\<lparr>channels := (channels ?c)[n := (channels ?c ! n)\<lparr>chan_state := CHAN_CLOSED\<rparr>],
       tx := (tx ?c)\<lparr>wire := wire (tx ?c) @ clse_bytes (channels ?c ! n)\<rparr>\<rparr>"
    by (rule session_close_channel_idle [OF idle]) (use n in simp)
  finally show ?case
    using n by (simp add: d take_Suc_conv_app_nth nth_append list_update_append)
qed

text \<open>Disconnecting over an idle plain socket sends a \<open>CLSE\<close> for every channel that is not
  closed and has a remote id, in table order and nothing else, leaves every channel closed,
  and then closes the socket.\<close>

theorem session_disconnect_closes:
  assumes "idle_plain c"
  shows "session_disconnect sv c =
     c\<lparr>channels := map (\<lambda>ch. ch\<lparr>chan_state := CHAN_CLOSED\<rparr>) (channels c),
       tx := (tx c)\<lparr>wire := wire (tx c) @ concat (map clse_bytes (channels c))\<rparr>,
       fd := False, state := ADB_STATE_DISCONNECTED\<rparr>"
  using close_prefix [OF assms, of "length (channels c)" sv]
  by (simp add: session_disconnect_def close_all_def)

theorem session_disconnect_closes_witness:
  "wire (tx (session_disconnect plain_services (example_connection\<lparr>channels := [shell_channel 1 2]\<rparr>))) =
     header_bytes (sent_message ADB_CLSE 1 2 [] True)"
proof -
  have "idle_plain (example_connection\<lparr>channels := [shell_channel 1 2]\<rparr>)"
    by (simp add: idle_plain_def example_connection_def)
  from session_disconnect_closes [OF this, of plain_services] show ?thesis
    by (simp add: clse_bytes_def shell_channel_def example_connection_def)
qed

end
