(* ===== verification/C_Text.thy ===== *)
theory C_Text
  imports Prelude
begin

text \<open>
  The functions of the C library that the sources use on text: number conversion, searching
  and white space. A C string is the list of its characters before the terminating zero.
\<close>

section \<open>Decimal numbers\<close>

text \<open>Decimal digits of an unsigned number, as \<open>%u\<close> prints it.\<close>

fun decimal :: "nat \<Rightarrow> string" where
  "decimal n = (if n < 10 then [char_of (48 + n)] else decimal (n div 10) @ [char_of (48 + n mod 10)])"

declare decimal.simps [simp del]

definition is_digit :: "char \<Rightarrow> bool" where
  "is_digit c \<longleftrightarrow> 48 \<le> (of_char c :: nat) \<and> (of_char c :: nat) \<le> 57"

definition digit_value :: "char \<Rightarrow> nat" where
  "digit_value c = of_char c - 48"

definition isspace :: "char \<Rightarrow> bool" where
  "isspace c \<longleftrightarrow> (of_char c :: nat) = 32 \<or> 9 \<le> (of_char c :: nat) \<and> (of_char c :: nat) \<le> 13"

definition digits_value :: "string \<Rightarrow> nat" where
  "digits_value s = foldl (\<lambda>n c. 10 * n + digit_value c) 0 s"

text \<open>
  \<open>atoi\<close>: white space, a sign, digits up to the first other character; no digits give 0. A
  value out of the range of \<open>int\<close> is undefined in C; the C runtime of the program's platform
  returns the nearest bound.
\<close>

definition clamp_int :: "int \<Rightarrow> int" where
  "clamp_int n = max (- (2 ^ 31)) (min (2 ^ 31 - 1) n)"

definition atoi :: "string \<Rightarrow> int" where
  "atoi s =
     (let t = dropWhile isspace s
      in case t of
           [] \<Rightarrow> 0
         | c # u \<Rightarrow>
             if c = CHR ''-'' then clamp_int (- int (digits_value (takeWhile is_digit u)))
             else if c = CHR ''+'' then clamp_int (int (digits_value (takeWhile is_digit u)))
             else clamp_int (int (digits_value (takeWhile is_digit t))))"

lemma of_char_digit [simp]: "n < 10 \<Longrightarrow> (of_char (char_of (48 + n) :: char) :: nat) = 48 + n"
  by (simp add: of_char_of)

lemma digit_char:
  assumes "n < 10"
  shows "is_digit (char_of (48 + n))" "digit_value (char_of (48 + n)) = n" "\<not> isspace (char_of (48 + n))"
  using assms by (simp_all add: is_digit_def digit_value_def isspace_def)

lemma decimal_digits: "c \<in> set (decimal n) \<Longrightarrow> is_digit c"
proof (induction n rule: decimal.induct)
  case (1 n)
  then show ?case using digit_char(1) [of n] digit_char(1) [of "n mod 10"]
    by (auto simp: decimal.simps [of n] split: if_splits)
qed

lemma decimal_Nil [simp]: "decimal n \<noteq> []"
  by (simp add: decimal.simps [of n])

lemma digits_value_decimal [simp]: "digits_value (decimal n) = n"
proof (induction n rule: decimal.induct)
  case (1 n)
  then show ?case
    by (cases "n < 10") (simp_all add: decimal.simps [of n] digits_value_def digit_char)
qed

lemma is_digit_not:
  assumes "is_digit c"
  shows "\<not> isspace c" "c \<noteq> CHR ''-''" "c \<noteq> CHR ''+''" "c \<noteq> CHR '':''"
  using assms by (auto simp: is_digit_def isspace_def)

lemma atoi_decimal:
  assumes "n < 2 ^ 31"
  shows "atoi (decimal n) = int n"
proof -
  obtain c u where d: "decimal n = c # u" by (cases "decimal n") simp_all
  have dig: "\<forall>x \<in> set (c # u). is_digit x" using decimal_digits [of _ n] by (simp add: d)
  have "takeWhile is_digit (c # u) = c # u" using dig by (simp add: takeWhile_eq_all_conv)
  then have "digits_value (takeWhile is_digit (c # u)) = n" using digits_value_decimal [of n] by (simp only: d)
  moreover have "dropWhile isspace (c # u) = c # u" using dig is_digit_not(1) [of c] by simp
  ultimately show ?thesis
    using dig is_digit_not [of c] assms unfolding d
    by (simp add: atoi_def Let_def clamp_int_def del: takeWhile.simps dropWhile.simps)
qed

lemma length_decimal:
  assumes "n < 10 ^ k" and "0 < k"
  shows "length (decimal n) \<le> k"
  using assms
proof (induction k arbitrary: n)
  case 0
  then show ?case by simp
next
  case (Suc k)
  show ?case
  proof (cases "n < 10")
    case True
    then show ?thesis by (simp add: decimal.simps [of n])
  next
    case False
    then have "0 < k" using Suc.prems(1) by (cases k) simp_all
    moreover have "n div 10 < 10 ^ k" using Suc.prems(1) by (simp add: less_mult_imp_div_less mult.commute)
    ultimately have "length (decimal (n div 10)) \<le> k" by (intro Suc.IH)
    with False show ?thesis by (simp add: decimal.simps [of n])
  qed
qed

section \<open>Searching\<close>

text \<open>\<open>strchr\<close> and \<open>strrchr\<close>: the place of the first and of the last occurrence.\<close>

fun strchr :: "char \<Rightarrow> string \<Rightarrow> nat option" where
  "strchr c [] = None"
| "strchr c (x # xs) = (if x = c then Some 0 else map_option Suc (strchr c xs))"

fun strrchr :: "char \<Rightarrow> string \<Rightarrow> nat option" where
  "strrchr c [] = None"
| "strrchr c (x # xs) =
     (case strrchr c xs of Some i \<Rightarrow> Some (Suc i) | None \<Rightarrow> if x = c then Some 0 else None)"

lemma strchr_None: "c \<notin> set s \<Longrightarrow> strchr c s = None"
  by (induction s) auto

lemma strchr_append: "c \<notin> set s \<Longrightarrow> strchr c (s @ c # t) = Some (length s)"
  by (induction s) auto

lemma strrchr_None: "c \<notin> set s \<Longrightarrow> strrchr c s = None"
  by (induction s) auto

lemma strrchr_append: "c \<notin> set t \<Longrightarrow> strrchr c (s @ c # t) = Some (length s)"
  by (induction s) (simp_all add: strrchr_None)

end
