(* ===== verification/Adb.thy ===== *)
theory Adb
  imports Adb_Channels C_Text
begin

text \<open>
  The client interface of \<open>src/adb/adb.c\<close>: initialisation, the connection handshake with its
  TLS branch, shell, forward and the file push of the sync service.
\<close>

section \<open>adb\_init and adb\_destroy\<close>

text \<open>
  The module's globals: its own flag, whether the platform and TLS layers are up, whether a
  key is loaded and whether TLS has a client certificate. \<open>home\<close> is the environment variable,
  \<open>load_key\<close> says for a path whether \<open>crypto_load_key\<close> finds a key there.
\<close>

record adb_globals =
  adb_initialized :: bool
  platform_up :: bool
  tls_up :: bool
  key_loaded :: bool
  client_cert :: bool

record adb_env =
  platform_init :: bool
  tls_init :: bool
  home :: "string option"
  load_key :: "string \<Rightarrow> bool"
  make_cert :: bool

definition adb_key_path :: "string \<Rightarrow> string" where
  "adb_key_path h = cut 512 (h @ ''/.android/adbkey'')"

definition adb_init :: "adb_env \<Rightarrow> adb_globals \<Rightarrow> bool \<times> adb_globals" where
  "adb_init env g =
     (if adb_initialized g then (True, g)
      else if \<not> platform_init env then (False, g)
      else
        let g1 = g\<lparr>platform_up := True\<rparr>
        in if \<not> tls_init env then (False, g1)
           else
             let g2 = g1\<lparr>tls_up := True\<rparr>;
                 g3 = (case home env of
                         Some h \<Rightarrow> if load_key env (adb_key_path h)
                                   then g2\<lparr>key_loaded := True, client_cert := make_cert env\<rparr> else g2
                       | None \<Rightarrow> g2)
             in (True, g3\<lparr>adb_initialized := True\<rparr>))"

definition adb_destroy :: "adb_globals \<Rightarrow> adb_globals" where
  "adb_destroy g =
     (if adb_initialized g
      then g\<lparr>key_loaded := False, tls_up := False, client_cert := False, platform_up := False,
             adb_initialized := False\<rparr>
      else g)"

section \<open>session\_connect\<close>

text \<open>A non-blocking \<open>connect\<close> and a \<open>select\<close> for writing; the socket's error is not asked for.\<close>

datatype connect_result = Connect_Ok | Connect_In_Progress | Connect_Error

definition session_connect :: "bool \<Rightarrow> connect_result \<Rightarrow> int \<Rightarrow> bool" where
  "session_connect sock conn_result select_result \<longleftrightarrow>
     sock \<and> conn_result \<noteq> Connect_Error \<and> select_result > 0"

section \<open>adb\_connect\<close>

text \<open>
  The exchange after the TLS handshake, with a buffer of 4096 bytes on the stack of each
  iteration (\<open>junk t\<close> is what it holds before iteration \<open>t\<close> counted down).
\<close>

definition greeting_message ::
  "services \<Rightarrow> adb_message \<Rightarrow> bytes \<Rightarrow> adb_connection \<Rightarrow> adb_connection" where
  "greeting_message sv rmsg rpl c =
     (if command rmsg = ADB_AUTH \<and> arg0 rmsg = ADB_AUTH_TYPE_TOKEN then
        (case sign_token sv (take (unat (data_length rmsg)) rpl) of
           Some sig \<Rightarrow> snd (adb_send_msg_conn (malloc sv) ADB_AUTH ADB_AUTH_TYPE_RSAKEY 0 sig True c)
         | None \<Rightarrow> c)
      else if command rmsg = ADB_STLS then
        snd (adb_send_msg_conn (malloc sv) ADB_STLS ADB_STLS_VERSION 0 [] False c)
      else if command rmsg = ADB_CNXN then
        (let c1 = set_peer_limits rmsg c;
             c2 = (if data_length rmsg > 0 then copy_banner (data_length rmsg) rpl c1 else c1)
         in c2\<lparr>state := ADB_STATE_CONNECTED\<rparr>)
      else c)"

fun tls_greeting :: "services \<Rightarrow> (nat \<Rightarrow> bytes) \<Rightarrow> nat \<Rightarrow> adb_connection \<Rightarrow> adb_connection" where
  "tls_greeting sv junk 0 c = c"
| "tls_greeting sv junk (Suc t) c =
     (if state c = ADB_STATE_CONNECTED then c
      else case adb_recv_msg_conn 4096 True zero_header (junk t) c of (r, c1) \<Rightarrow>
        (case status r of
           Recv_Overrun \<Rightarrow> c1\<lparr>fault := True\<rparr>
         | Recv_Fail \<Rightarrow> tls_greeting sv junk t c1
         | _ \<Rightarrow> tls_greeting sv junk t (greeting_message sv (out_hdr r) (out_payload r) c1)))"

text \<open>The 24 bytes written by hand, sent with one \<open>send\<close> whose result is not looked at.\<close>

definition stls_reply :: bytes where
  "stls_reply = header_bytes (make_header ADB_STLS 0x01000000 0 0 0)"

definition upgrade_tls :: "services \<Rightarrow> (nat \<Rightarrow> bytes) \<Rightarrow> adb_connection \<Rightarrow> bool \<times> adb_connection" where
  "upgrade_tls sv rpl c =
     (let c1 = c\<lparr>tx := snd (send stls_reply (tx c)), tls := handshake sv\<rparr>
      in if tls c1 = None then (False, c1)
         else
           let c2 = tls_greeting sv rpl 50 c1
           in (state c2 = ADB_STATE_CONNECTED, c2))"

text \<open>What the handshake loop does with a message that is not \<open>STLS\<close>.\<close>

definition handshake_message ::
  "services \<Rightarrow> adb_message \<Rightarrow> bytes \<Rightarrow> adb_connection \<Rightarrow> adb_connection" where
  "handshake_message sv m payload c =
     (if command m = ADB_AUTH then
        (if arg0 m = ADB_AUTH_TYPE_TOKEN then
           (case sign_token sv (take (unat (data_length m)) payload) of
              Some sig \<Rightarrow> snd (adb_send_msg_conn (malloc sv) ADB_AUTH ADB_AUTH_TYPE_RSAKEY 0 sig True c)
            | None \<Rightarrow> c)
         else c)
      else if command m = ADB_CNXN then
        (let c1 = (set_peer_limits m c)\<lparr>state := ADB_STATE_CONNECTED\<rparr>
         in if data_length m > 0 then copy_banner (data_length m) payload c1 else c1)
      else c)"

text \<open>
  The handshake loop, at most 100 rounds of \<open>select\<close>. The first result is \<open>False\<close> for a jump
  to \<open>handshake_fail\<close>. A length above the limit is not refused: the payload then stays unread.
\<close>

fun handshake_rounds ::
  "services \<Rightarrow> (nat \<Rightarrow> bytes) \<Rightarrow> nat \<Rightarrow> bytes \<Rightarrow> adb_connection \<Rightarrow> bool \<times> adb_connection" where
  "handshake_rounds sv rpl 0 payload c = (True, c)"
| "handshake_rounds sv rpl (Suc t) payload c =
     (if state c = ADB_STATE_CONNECTED then (True, c)
      else case do_select c of (ret, c0) \<Rightarrow>
        if ret \<le> 0 then handshake_rounds sv rpl t payload c0
        else case recv_strict 24 (rx c0) of
          (None, s) \<Rightarrow> (False, c0\<lparr>rx := s\<rparr>)
        | (Some hdr_buf, s) \<Rightarrow>
            let m = header_of hdr_buf; dlen = unat (data_length m)
            in if magic m \<noteq> command m XOR 0xffffffff then (False, c0\<lparr>rx := s\<rparr>)
               else case (if 0 < dlen \<and> dlen \<le> ADB_MAX_PAYLOAD then recv_strict dlen s
                          else (Some [], s)) of
                 (None, s') \<Rightarrow> (False, c0\<lparr>rx := s'\<rparr>)
               | (Some data, s') \<Rightarrow>
                   if command m = ADB_STLS then upgrade_tls sv rpl (c0\<lparr>rx := s'\<rparr>)
                   else handshake_rounds sv rpl t (blit data payload)
                          (handshake_message sv m (blit data payload) (c0\<lparr>rx := s'\<rparr>)))"

text \<open>
  \<open>calloc\<close> and \<open>adb_connect\<close>: the transports of the new socket are given. \<open>payload0\<close> is what
  the payload buffer holds when it is allocated.
\<close>

definition new_connection :: "inbound \<Rightarrow> int list \<Rightarrow> outbound \<Rightarrow> adb_connection" where
  "new_connection inb sel out =
     \<lparr>rx = inb, tx = out, tls = None, fd = True, state = ADB_STATE_CONNECTING, channels = [],
      next_local_id = 1, banner = [], protocol_version = 0, max_payload = ADB_MAX_PAYLOAD,
      cnxn_sent = False, stls_sent = False, on_connected = False, on_shell_output = False,
      connected_calls = 0, shell_output = [], selects = sel, fault = False\<rparr>"

definition adb_disconnect :: "services \<Rightarrow> adb_connection \<Rightarrow> adb_connection" where
  "adb_disconnect sv c = session_disconnect sv c"

definition adb_connect ::
  "services \<Rightarrow> bool \<Rightarrow> bool \<Rightarrow> bool \<Rightarrow> (nat \<Rightarrow> bytes) \<Rightarrow> bytes \<Rightarrow> inbound \<Rightarrow> int list \<Rightarrow> outbound \<Rightarrow>
     adb_connection option" where
  "adb_connect sv initialized calloc_ok connected rpl payload0 inb sel out =
     (if \<not> initialized \<or> \<not> calloc_ok \<or> \<not> connected then None
      else
        let c = session_send_cnxn sv (new_connection inb sel out)
        in if \<not> malloc sv ADB_MAX_PAYLOAD then None
           else case handshake_rounds sv rpl 100 payload0 c of
             (ok, c1) \<Rightarrow> if ok \<and> state c1 = ADB_STATE_CONNECTED then Some c1 else None)"

section \<open>adb\_shell and adb\_forward\<close>

definition adb_shell :: "services \<Rightarrow> string \<Rightarrow> adb_connection \<Rightarrow> bool \<times> adb_connection" where
  "adb_shell sv cmd c =
     (if state c \<noteq> ADB_STATE_CONNECTED then (False, c)
      else case session_open_channel sv (cut SERVICE_NAME_MAX (''shell:'' @ cmd)) c of
        (None, c1) \<Rightarrow> (False, c1) | (Some _, c1) \<Rightarrow> (True, c1))"

definition adb_forward :: "services \<Rightarrow> u16 \<Rightarrow> string \<Rightarrow> adb_connection \<Rightarrow> bool \<times> adb_connection" where
  "adb_forward sv local_port remote_spec c =
     (if state c \<noteq> ADB_STATE_CONNECTED then (False, c)
      else case session_open_channel sv (cut SERVICE_NAME_MAX (''tcp:'' @ decimal (unat local_port))) c of
        (None, c1) \<Rightarrow> (False, c1) | (Some _, c1) \<Rightarrow> (True, c1))"

section \<open>adb\_push\<close>

definition SYNC_MAX_CHUNK :: nat where "SYNC_MAX_CHUNK = 64 * 1024"

text \<open>
  The wait for the channel to open, at most 200 rounds. Only a return value of 1 is handed to
  the handler. \<open>fst (junk retries)\<close> and \<open>pl\<close> are the structure and the buffer before each
  receive, \<open>snd (junk retries)\<close> what a buffer allocated by the handler holds.
\<close>

fun await_open ::
  "services \<Rightarrow> (nat \<Rightarrow> bytes \<times> bytes) \<Rightarrow> nat \<Rightarrow> nat \<Rightarrow> bytes \<Rightarrow> adb_connection \<Rightarrow> adb_connection" where
  "await_open sv junk i 0 pl c = c"
| "await_open sv junk i (Suc retries) pl c =
     (if chan_state (channels c ! i) \<noteq> CHAN_OPENING then c
      else case do_select c of (sel, c1) \<Rightarrow>
        if sel \<le> 0 then await_open sv junk i retries pl c1
        else case adb_recv_msg_conn (int ADB_MAX_PAYLOAD) (skip_checksum c1) (fst (junk retries)) pl c1 of
          (r, c2) \<Rightarrow>
            (case status r of
               Recv_Overrun \<Rightarrow> c2\<lparr>fault := True\<rparr>
             | Recv_Ok \<Rightarrow> await_open sv junk i retries (out_payload r)
                   (session_handle_message sv (snd (junk retries)) (out_hdr r) (out_payload r) c2)
             | _ \<Rightarrow> await_open sv junk i retries (out_payload r) c2))"

text \<open>A \<open>WRTE\<close> on the channel; what became of the send is not looked at.\<close>

definition write_channel :: "services \<Rightarrow> nat \<Rightarrow> bytes \<Rightarrow> adb_connection \<Rightarrow> adb_connection" where
  "write_channel sv i data c =
     snd (adb_send_msg_conn (malloc sv) ADB_WRTE (local_id (channels c ! i)) (remote_id (channels c ! i))
            data True c)"

definition sync_packet :: "string \<Rightarrow> bytes \<Rightarrow> bytes" where
  "sync_packet tag data = bytes_of tag @ write32le (word_of_nat (length data)) @ data"

text \<open>
  The loop over the file: \<open>fread\<close> of up to 64 KiB, a \<open>DATA\<close> packet, a poll. \<open>k\<close> numbers the
  polls, whose uninitialised memory is \<open>junk k\<close>.
\<close>

function send_chunks ::
  "services \<Rightarrow> (nat \<Rightarrow> bytes \<times> bytes) \<Rightarrow> nat \<Rightarrow> nat \<Rightarrow> bytes \<Rightarrow> adb_connection \<Rightarrow> adb_connection" where
  "send_chunks sv junk k i file c =
     (if file = [] then c
      else
        let c1 = write_channel sv i (sync_packet ''DATA'' (take SYNC_MAX_CHUNK file)) c
        in send_chunks sv junk (Suc k) i (drop SYNC_MAX_CHUNK file)
             (snd (session_poll sv (fst (junk k)) (snd (junk k)) c1)))"
  by pat_completeness auto
termination
  by (relation "measure (\<lambda>(sv, junk, k, i, file, c). length file)") (auto simp: SYNC_MAX_CHUNK_def)

declare send_chunks.simps [simp del]

fun await_reply ::
  "services \<Rightarrow> (nat \<Rightarrow> bytes \<times> bytes) \<Rightarrow> nat \<Rightarrow> adb_connection \<Rightarrow> adb_connection" where
  "await_reply sv junk 0 c = c"
| "await_reply sv junk (Suc retries) c =
     (case session_poll sv (fst (junk retries)) (snd (junk retries)) c of
        (r, c1) \<Rightarrow> if r > 0 then c1 else await_reply sv junk retries c1)"

text \<open>
  The request with the path is built in a buffer of 520 bytes; a path that does not fit runs
  over it (\<open>fault\<close>). The final wait does not influence the result. \<open>junk p k\<close> is the
  uninitialised memory of receive \<open>k\<close> in phase \<open>p\<close>.
\<close>

definition adb_sync_send ::
  "services \<Rightarrow> (nat \<Rightarrow> nat \<Rightarrow> bytes \<times> bytes) \<Rightarrow> bytes \<Rightarrow> nat \<Rightarrow> string \<Rightarrow> bytes \<Rightarrow> adb_connection \<Rightarrow>
     bool \<times> adb_connection" where
  "adb_sync_send sv junk pl i remote_path file c =
     (if \<not> malloc sv ADB_MAX_PAYLOAD then (False, c)
      else
        let c1 = await_open sv (junk 0) i 200 pl c
        in if chan_state (channels c1 ! i) \<noteq> CHAN_OPEN then (False, c1)
           else if 512 < length remote_path then (False, c1\<lparr>fault := True\<rparr>)
           else
             let c2 = write_channel sv i (sync_packet ''SEND'' (bytes_of remote_path)) c1;
                 c3 = snd (session_poll sv (fst (junk 1 0)) (snd (junk 1 0)) c2);
                 c4 = send_chunks sv (junk 2) 0 i file c3;
                 c5 = write_channel sv i (sync_packet ''DONE'' []) c4
             in (True, await_reply sv (junk 3) 200 c5))"

definition adb_push ::
  "services \<Rightarrow> (nat \<Rightarrow> nat \<Rightarrow> bytes \<times> bytes) \<Rightarrow> bytes \<Rightarrow> bytes option \<Rightarrow> string \<Rightarrow> adb_connection \<Rightarrow>
     bool \<times> adb_connection" where
  "adb_push sv junk pl local_file remote c =
     (if state c \<noteq> ADB_STATE_CONNECTED then (False, c)
      else case local_file of
        None \<Rightarrow> (False, c)
      | Some file \<Rightarrow>
          (case session_open_channel sv ''sync:'' c of
             (None, c1) \<Rightarrow> (False, c1)
           | (Some i, c1) \<Rightarrow>
               (case adb_sync_send sv junk pl i remote file c1 of
                  (ret, c2) \<Rightarrow> (ret, session_close_channel sv i c2))))"

section \<open>What a connection looks like\<close>

lemma send_cnxn_fields:
  "state (session_send_cnxn sv (new_connection inb sel out)) = ADB_STATE_AUTH_SENT"
  "channels (session_send_cnxn sv (new_connection inb sel out)) = []"
  "next_local_id (session_send_cnxn sv (new_connection inb sel out)) = 1"
  "selects (session_send_cnxn sv (new_connection inb sel out)) = sel"
  "rx (session_send_cnxn sv (new_connection inb sel out)) = inb"
  "tls (session_send_cnxn sv (new_connection inb sel out)) = None"
  "cnxn_sent (session_send_cnxn sv (new_connection inb sel out)) = True"
  by (simp_all add: session_send_cnxn_def new_connection_def)

lemma conn_ok_new: "conn_ok (session_send_cnxn sv (new_connection inb sel out))"
  by (simp add: session_send_cnxn_def new_connection_def conn_ok_def MAX_CHANNELS_def BANNER_MAX_def
      ADB_VERSION_def)

text \<open>What every step of the two handshake loops keeps, they keep.\<close>

definition kept_by_steps :: "services \<Rightarrow> (adb_connection \<Rightarrow> bool) \<Rightarrow> bool" where
  "kept_by_steps sv Q \<longleftrightarrow>
     (\<forall>c maxp skip h pl. Q c \<longrightarrow> Q (snd (adb_recv_msg_conn maxp skip h pl c))) \<and>
     (\<forall>c cmd a0 a1 d sk. Q c \<longrightarrow> Q (snd (adb_send_msg_conn (malloc sv) cmd a0 a1 d sk c))) \<and>
     (\<forall>c. Q c \<longrightarrow> Q (snd (do_select c))) \<and>
     (\<forall>c s. Q c \<longrightarrow> Q (c\<lparr>rx := s\<rparr>)) \<and> (\<forall>c o'. Q c \<longrightarrow> Q (c\<lparr>tx := o'\<rparr>)) \<and>
     (\<forall>c t. Q c \<longrightarrow> Q (c\<lparr>tls := t\<rparr>)) \<and> (\<forall>c b. Q c \<longrightarrow> Q (c\<lparr>fault := b\<rparr>)) \<and>
     (\<forall>c st. Q c \<longrightarrow> Q (c\<lparr>state := st\<rparr>)) \<and>
     (\<forall>c m. Q c \<longrightarrow> Q (set_peer_limits m c)) \<and> (\<forall>c len pl. Q c \<longrightarrow> Q (copy_banner len pl c))"

lemma kept_recv:
  assumes "kept_by_steps sv Q" "Q c" and r: "adb_recv_msg_conn maxp skip h pl c = (r, c1)"
  shows "Q c1"
proof -
  have "Q (snd (adb_recv_msg_conn maxp skip h pl c))" using assms(1,2) by (simp add: kept_by_steps_def)
  then show ?thesis by (simp add: r)
qed

lemma kept_select:
  assumes "kept_by_steps sv Q" "Q c" and r: "do_select c = (r, c1)"
  shows "Q c1"
proof -
  have "Q (snd (do_select c))" using assms(1,2) by (simp add: kept_by_steps_def)
  then show ?thesis by (simp add: r)
qed

lemma greeting_message_keeps:
  "kept_by_steps sv Q \<Longrightarrow> Q c \<Longrightarrow> Q (greeting_message sv m rpl c)"
  by (simp add: kept_by_steps_def greeting_message_def Let_def split: option.splits)

lemma handshake_message_keeps:
  "kept_by_steps sv Q \<Longrightarrow> Q c \<Longrightarrow> Q (handshake_message sv m pl c)"
  by (simp add: kept_by_steps_def handshake_message_def Let_def split: option.splits)

lemma tls_greeting_keeps: "kept_by_steps sv Q \<Longrightarrow> Q c \<Longrightarrow> Q (tls_greeting sv junk t c)"
proof (induction t arbitrary: c)
  case 0
  then show ?case by simp
next
  case (Suc t)
  obtain r c1 where r: "adb_recv_msg_conn 4096 True zero_header (junk t) c = (r, c1)"
    by (cases "adb_recv_msg_conn 4096 True zero_header (junk t) c")
  have "Q c1" by (rule kept_recv [OF Suc.prems r])
  moreover from this have "Q (c1\<lparr>fault := True\<rparr>)" using Suc.prems(1) by (simp add: kept_by_steps_def)
  ultimately show ?case
    using Suc r greeting_message_keeps [OF Suc.prems(1)] by (simp split: recv_status.split)
qed

lemma upgrade_tls_keeps: "kept_by_steps sv Q \<Longrightarrow> Q c \<Longrightarrow> Q (snd (upgrade_tls sv rpl c))"
proof -
  assume k: "kept_by_steps sv Q" and Q: "Q c"
  have Q1: "Q (c\<lparr>tx := o', tls := t\<rparr>)" for o' t using k Q by (simp add: kept_by_steps_def)
  show ?thesis
    using Q1 tls_greeting_keeps [OF k Q1] by (simp add: upgrade_tls_def Let_def)
qed

lemma handshake_rounds_keeps:
  "kept_by_steps sv Q \<Longrightarrow> Q c \<Longrightarrow> Q (snd (handshake_rounds sv rpl t payload c))"
proof (induction t arbitrary: payload c)
  case 0
  then show ?case by simp
next
  case (Suc t)
  note k = Suc.prems(1)
  obtain ret c0 where sel: "do_select c = (ret, c0)" by (cases "do_select c")
  have Q0: "Q c0" by (rule kept_select [OF Suc.prems sel])
  then have Q1: "Q (c0\<lparr>rx := s\<rparr>)" for s using k by (simp add: kept_by_steps_def)
  show ?case
    using Suc.prems sel Suc.IH [OF k Q0] Q1 upgrade_tls_keeps [OF k Q1]
      Suc.IH [OF k handshake_message_keeps [OF k Q1]]
    by (simp add: Let_def split: option.split prod.split)
qed

lemma connect_kept:
  "kept_by_steps sv (\<lambda>c. conn_ok c \<and> channels c = [] \<and> next_local_id c = 1 \<and> fd c)"
proof -
  have "conn_ok (snd (adb_recv_msg_conn maxp skip h pl c)) = conn_ok c" for maxp skip h pl c
    by (rule conn_ok_recv) (rule surjective_pairing)
  moreover have "conn_ok (snd (do_select c)) = conn_ok c" for c
    by (rule conn_ok_select) (rule surjective_pairing)
  moreover have "conn_ok (c\<lparr>rx := s\<rparr>) = conn_ok c" "conn_ok (c\<lparr>tx := o'\<rparr>) = conn_ok c" for c s o'
    by (simp_all add: conn_ok_def)
  ultimately show ?thesis
    unfolding kept_by_steps_def
    using recv_fields [OF surjective_pairing] select_fields [OF surjective_pairing]
    by (simp add: conn_ok_limits conn_ok_copy_banner)
qed

text \<open>A connection that \<open>adb_connect\<close> returns is connected, has an open socket, no channel, the
  first local id 1, and fits all its buffers, whatever the device sent. So it is a start of
  the runs that keep the channel invariant.\<close>

theorem adb_connect_result_ok:
  assumes "adb_connect sv initialized calloc_ok connected rpl payload0 inb sel out = Some c"
  shows "state c = ADB_STATE_CONNECTED \<and> fd c \<and> channels c = [] \<and> next_local_id c = 1 \<and> conn_ok c"
proof -
  let ?c = "session_send_cnxn sv (new_connection inb sel out)"
  have "fd ?c" by (simp add: session_send_cnxn_def new_connection_def)
  then have "conn_ok ?c \<and> channels ?c = [] \<and> next_local_id ?c = 1 \<and> fd ?c"
    by (simp add: conn_ok_new send_cnxn_fields)
  from handshake_rounds_keeps [OF connect_kept [of sv] this, of rpl 100 payload0] assms show ?thesis
    by (auto simp: adb_connect_def Let_def split: if_splits prod.splits)
qed

text \<open>A device that answers with the \<open>CNXN\<close> of an old protocol version and a short banner.\<close>

definition cnxn_message :: adb_message where
  "cnxn_message = sent_message ADB_CNXN 0x01000000 4096 [100, 101, 118] False"

definition big_cnxn_message :: adb_message where
  "big_cnxn_message = make_header ADB_CNXN 0x01000000 4096 0x00200000 0"

lemma valid_cnxn:
  "4096 \<le> maxp \<Longrightarrow> valid_frame maxp True cnxn_message [100, 101, 118]"
  "command cnxn_message = ADB_CNXN"
  by (simp_all add: cnxn_message_def sent_message_def make_header_def valid_frame_def checksum_ok_def)

section \<open>The handshake succeeds\<close>

definition frame_bytes :: "adb_message \<times> bytes \<Rightarrow> bytes" where
  "frame_bytes f = header_bytes (fst f) @ snd f"

lemma handshake_rounds_connected:
  "state c = ADB_STATE_CONNECTED \<Longrightarrow> handshake_rounds sv rpl t pl c = (True, c)"
  by (cases t) simp_all

lemma handshake_rounds_frame:
  assumes "state c \<noteq> ADB_STATE_CONNECTED" and "selects c = 1 # sel"
    and av: "ready (rx c) = header_bytes m @ d @ rest"
    and vf: "valid_frame (int ADB_MAX_PAYLOAD) True m d"
  obtains s where "ready s = rest" and "handshake_rounds sv rpl (Suc t) pl c =
     (if command m = ADB_STLS then upgrade_tls sv rpl (c\<lparr>selects := sel, rx := s\<rparr>)
      else handshake_rounds sv rpl t (blit d pl)
             (handshake_message sv m (blit d pl) (c\<lparr>selects := sel, rx := s\<rparr>)))"
proof -
  from av obtain s1 where h: "recv_strict 24 (rx c) = (Some (header_bytes m), s1)"
    and av1: "ready s1 = d @ rest" by (rule polling.get_append) simp
  have len: "length d = unat (data_length m)" "d \<noteq> [] \<longrightarrow> length d \<le> ADB_MAX_PAYLOAD"
    and mg: "magic m = command m XOR 0xffffffff" using vf by (auto simp: valid_frame_def)
  have "\<exists>s. (if 0 < unat (data_length m) \<and> unat (data_length m) \<le> ADB_MAX_PAYLOAD
        then recv_strict (unat (data_length m)) s1 else (Some [], s1)) = (Some d, s) \<and> ready s = rest"
  proof (cases "d = []")
    case True
    with len av1 show ?thesis by auto
  next
    case False
    from av1 obtain s2 where "recv_strict (length d) s1 = (Some d, s2)" "ready s2 = rest"
      by (rule polling.get_append) simp
    with False len show ?thesis by (metis length_greater_0_conv)
  qed
  then obtain s where s: "(if 0 < unat (data_length m) \<and> unat (data_length m) \<le> ADB_MAX_PAYLOAD
        then recv_strict (unat (data_length m)) s1 else (Some [], s1)) = (Some d, s)" "ready s = rest"
    by blast
  show thesis
  proof (rule that [of s])
    show "handshake_rounds sv rpl (Suc t) pl c =
     (if command m = ADB_STLS then upgrade_tls sv rpl (c\<lparr>selects := sel, rx := s\<rparr>)
      else handshake_rounds sv rpl t (blit d pl)
             (handshake_message sv m (blit d pl) (c\<lparr>selects := sel, rx := s\<rparr>)))"
    proof (cases "d = []")
      case True
      with len s(1) have "unat (data_length m) = 0" "s1 = s" by simp_all
      with True show ?thesis
        using assms(1,2) h mg by (simp add: do_select_def header.dec_enc)
    next
      case False
      with len have pos: "0 < unat (data_length m)" "unat (data_length m) \<le> ADB_MAX_PAYLOAD"
        by (metis length_greater_0_conv, metis)
      with s(1) have "recv_strict (unat (data_length m)) s1 = (Some d, s)" by simp
      with pos show ?thesis
        using assms(1,2) h mg by (simp add: do_select_def header.dec_enc)
    qed
  qed (rule s(2))
qed

lemma handshake_message_other:
  assumes "command m \<noteq> ADB_CNXN"
  shows "state (handshake_message sv m pl c) = state c" "selects (handshake_message sv m pl c) = selects c"
    "rx (handshake_message sv m pl c) = rx c" "banner (handshake_message sv m pl c) = banner c"
    "tls (handshake_message sv m pl c) = None \<longleftrightarrow> tls c = None"
  using assms by (simp_all add: handshake_message_def split: option.splits)

definition handshake_frames :: "(adb_message \<times> bytes) list \<Rightarrow> bool" where
  "handshake_frames fs \<longleftrightarrow> (\<forall>(m, d) \<in> set fs. valid_frame (int ADB_MAX_PAYLOAD) True m d \<and>
     command m \<noteq> ADB_STLS \<and> command m \<noteq> ADB_CNXN)"

lemma handshake_rounds_skip:
  assumes "handshake_frames fs" and "length fs < t" and "state c \<noteq> ADB_STATE_CONNECTED"
    and "selects c = replicate (length fs) 1 @ sel"
    and "ready (rx c) = concat (map frame_bytes fs) @ rest"
  shows "\<exists>t' pl' c'. handshake_rounds sv rpl t pl c = handshake_rounds sv rpl (Suc t') pl' c' \<and>
     state c' \<noteq> ADB_STATE_CONNECTED \<and> selects c' = sel \<and> ready (rx c') = rest \<and>
     banner c' = banner c \<and> (tls c' = None \<longleftrightarrow> tls c = None)"
  using assms
proof (induction fs arbitrary: t pl c)
  case Nil
  then obtain t' where "t = Suc t'" by (cases t) auto
  with Nil show ?case by auto
next
  case (Cons f fs)
  obtain m d where f: "f = (m, d)" by (cases f)
  from Cons.prems(2) obtain t' where t: "t = Suc t'" by (cases t) auto
  from Cons.prems f have vf: "valid_frame (int ADB_MAX_PAYLOAD) True m d"
    and cmd: "command m \<noteq> ADB_STLS" "command m \<noteq> ADB_CNXN" and fs: "handshake_frames fs"
    by (auto simp: handshake_frames_def)
  have sel: "selects c = 1 # (replicate (length fs) 1 @ sel)" using Cons.prems(4) by simp
  have av: "ready (rx c) = header_bytes m @ d @ (concat (map frame_bytes fs) @ rest)"
    using Cons.prems(5) f by (simp add: frame_bytes_def [of "(m, d)"])
  obtain s where s: "ready s = concat (map frame_bytes fs) @ rest"
    and step: "handshake_rounds sv rpl t pl c = handshake_rounds sv rpl t' (blit d pl)
      (handshake_message sv m (blit d pl) (c\<lparr>selects := replicate (length fs) 1 @ sel, rx := s\<rparr>))"
    using handshake_rounds_frame [OF Cons.prems(3) sel av vf] cmd(1) t by metis
  let ?c = "handshake_message sv m (blit d pl) (c\<lparr>selects := replicate (length fs) 1 @ sel, rx := s\<rparr>)"
  note other = handshake_message_other [OF cmd(2)]
  have "\<exists>t'' pl' c'. handshake_rounds sv rpl t' (blit d pl) ?c = handshake_rounds sv rpl (Suc t'') pl' c' \<and>
     state c' \<noteq> ADB_STATE_CONNECTED \<and> selects c' = sel \<and> ready (rx c') = rest \<and>
     banner c' = banner ?c \<and> (tls c' = None \<longleftrightarrow> tls ?c = None)"
    by (rule Cons.IH [OF fs]) (use Cons.prems(2,3) t s other in simp_all)
  with step other show ?case by simp
qed

lemma copy_banner_valid:
  assumes "valid_frame maxp True m d"
  shows "banner (if data_length m > 0 then copy_banner (data_length m) (blit d pl) c else c) =
     (if d = [] then banner c else take 511 d)"
proof (cases "d = []")
  case True
  with assms show ?thesis by (simp add: valid_frame_def word_greater_zero_iff unat_eq_0)
next
  case False
  have len: "length d = unat (data_length m)" "unat (data_length m) < 2 ^ 31"
    using assms by (simp_all add: valid_frame_def)
  then have s: "sint (data_length m) = int (length d)" by (simp add: sint_u32)
  have "0 < unat (data_length m)" using False len(1) by (metis length_greater_0_conv)
  then have pos: "0 < data_length m" by (simp add: word_less_nat_alt)
  have "take (nat (if int (length d) \<ge> 512 then 511 else int (length d))) (blit d pl) = take 511 d"
    by (cases "512 \<le> length d") (simp_all add: blit_def)
  then show ?thesis
    using False pos s by (simp add: copy_banner_def Let_def BANNER_MAX_def)
qed

lemma connected_by_cnxn:
  assumes "command m = ADB_CNXN" and "valid_frame maxp True m d" and "banner c = []"
    and "handshake_message sv m (blit d pl) c = c'"
  shows "state c' = ADB_STATE_CONNECTED" "rx c' = rx c" "tls c' = tls c"
    "protocol_version c' = int (unat (min (arg0 m) ADB_VERSION))"
    "max_payload c' = unat (min (arg1 m) (word_of_nat ADB_MAX_PAYLOAD))"
    "banner c' = take 511 d"
proof -
  let ?c = "(set_peer_limits m c)\<lparr>state := ADB_STATE_CONNECTED\<rparr>"
  have c': "c' = (if data_length m > 0 then copy_banner (data_length m) (blit d pl) ?c else ?c)"
    using assms(1,4) by (simp add: handshake_message_def adb_commands Let_def)
  show "banner c' = take 511 d"
    unfolding c' copy_banner_valid [OF assms(2)] using assms(3) by (simp add: set_peer_limits_def)
  show "state c' = ADB_STATE_CONNECTED" "rx c' = rx c" "tls c' = tls c"
    "protocol_version c' = int (unat (min (arg0 m) ADB_VERSION))"
    "max_payload c' = unat (min (arg1 m) (word_of_nat ADB_MAX_PAYLOAD))"
    unfolding c' by (simp_all add: copy_banner_def set_peer_limits_def Let_def)
qed

lemma connect_plain:
  assumes "malloc sv ADB_MAX_PAYLOAD" and "handshake_frames fs" and "length fs < 100"
    and "command m = ADB_CNXN" and "valid_frame (int ADB_MAX_PAYLOAD) True m d"
    and "ready inb = concat (map frame_bytes fs) @ header_bytes m @ d @ rest"
  shows "\<exists>c. adb_connect sv True True True rpl payload0 inb (replicate (Suc (length fs)) 1) out = Some c \<and>
     tls c = None \<and> ready (rx c) = rest \<and> banner c = take 511 d \<and>
     protocol_version c = int (unat (min (arg0 m) ADB_VERSION)) \<and>
     max_payload c = unat (min (arg1 m) (word_of_nat ADB_MAX_PAYLOAD))"
proof -
  let ?c0 = "session_send_cnxn sv (new_connection inb (replicate (Suc (length fs)) 1) out)"
  have sel: "selects ?c0 = replicate (length fs) 1 @ [1]"
    by (simp add: send_cnxn_fields replicate_append_same)
  have banner: "banner ?c0 = []" by (simp add: session_send_cnxn_def new_connection_def)
  from handshake_rounds_skip [OF assms(2,3) _ sel, of "header_bytes m @ d @ rest" sv rpl payload0]
    assms(6) banner
  obtain t pl c where run: "handshake_rounds sv rpl 100 payload0 ?c0 = handshake_rounds sv rpl (Suc t) pl c"
    and c: "state c \<noteq> ADB_STATE_CONNECTED" "selects c = [1]" "ready (rx c) = header_bytes m @ d @ rest"
      "banner c = []" "tls c = None"
    by (auto simp: send_cnxn_fields)
  have not_stls: "command m \<noteq> ADB_STLS" using assms(4) by (simp add: adb_commands)
  obtain s where s: "ready s = rest"
    and step: "handshake_rounds sv rpl (Suc t) pl c = handshake_rounds sv rpl t (blit d pl)
      (handshake_message sv m (blit d pl) (c\<lparr>selects := [], rx := s\<rparr>))"
    using handshake_rounds_frame [OF c(1-3) assms(5)] not_stls by metis
  have b: "banner (c\<lparr>selects := [], rx := s\<rparr>) = []" using c(4) by simp
  note fin = connected_by_cnxn [OF assms(4,5) b refl, of sv pl]
  show ?thesis
    using assms(1) run step fin s c(5)
    by (simp add: adb_connect_def handshake_rounds_connected)
qed

text \<open>On a plain socket \<open>adb_connect\<close> succeeds when the device sends, after fewer than 100 other
  well-formed messages (authentication requests among them), a valid \<open>CNXN\<close>: the version and
  the payload size are the smaller of the two sides', the banner is the payload cut to 511
  bytes, and what follows the \<open>CNXN\<close> stays to be read.\<close>

theorem adb_connect_plain:
  assumes "malloc sv ADB_MAX_PAYLOAD" and "handshake_frames fs" and "length fs < 100"
    and "command m = ADB_CNXN" and "valid_frame (int ADB_MAX_PAYLOAD) True m d"
    and "ready inb = concat (map frame_bytes fs) @ header_bytes m @ d @ rest"
  shows "\<exists>c. adb_connect sv True True True rpl payload0 inb (replicate (Suc (length fs)) 1) out = Some c \<and>
     tls c = None \<and> ready (rx c) = rest \<and> banner c = take 511 d \<and>
     protocol_version c = int (unat (min (arg0 m) ADB_VERSION)) \<and>
     max_payload c = unat (min (arg1 m) (word_of_nat ADB_MAX_PAYLOAD))"
  using assms by (rule connect_plain)

lemma example_plain_connect:
  "\<exists>c. adb_connect plain_services True True True (\<lambda>_. []) []
        [Arrive (header_bytes cnxn_message @ [100, 101, 118])] [1] \<lparr>sends = [], wire = []\<rparr> = Some c"
  using connect_plain [where sv = plain_services and fs = "[]" and m = cnxn_message and d = "[100, 101, 118]"
      and inb = "[Arrive (header_bytes cnxn_message @ [100, 101, 118])]" and rest = "[]"
      and rpl = "\<lambda>_. []" and ?payload0.0 = "[]" and out = "\<lparr>sends = [], wire = []\<rparr>"]
  by (simp add: plain_services_def handshake_frames_def valid_cnxn ADB_MAX_PAYLOAD_def) blast

theorem adb_connect_plain_witness:
  "\<exists>c. adb_connect plain_services True True True (\<lambda>_. []) []
        [Arrive (header_bytes cnxn_message @ [100, 101, 118])] [1] \<lparr>sends = [], wire = []\<rparr> = Some c \<and> tls c = None \<and> ready (rx c) = [] \<and> banner c = [100, 101, 118]"
  using adb_connect_plain [where sv = plain_services and fs = "[]" and m = cnxn_message and d = "[100, 101, 118]"
      and inb = "[Arrive (header_bytes cnxn_message @ [100, 101, 118])]" and rest = "[]"
      and rpl = "\<lambda>_. []" and ?payload0.0 = "[]" and out = "\<lparr>sends = [], wire = []\<rparr>"]
  by (simp add: plain_services_def handshake_frames_def valid_cnxn ADB_MAX_PAYLOAD_def) blast

theorem adb_connect_result_ok_witness:
  "\<exists>c. adb_connect plain_services True True True (\<lambda>_. []) []
        [Arrive (header_bytes cnxn_message @ [100, 101, 118])] [1] \<lparr>sends = [], wire = []\<rparr> = Some c \<and> channels c = [] \<and> conn_ok c"
proof -
  obtain c where c: "adb_connect plain_services True True True (\<lambda>_. []) []
        [Arrive (header_bytes cnxn_message @ [100, 101, 118])] [1] \<lparr>sends = [], wire = []\<rparr> = Some c"
    using example_plain_connect by blast
  from adb_connect_result_ok [OF c] c show ?thesis by blast
qed

section \<open>The handshake with its TLS branch\<close>

lemma recv_tls_None [simp]:
  "adb_recv_msg_conn maxp skip h pl c = (r, c') \<Longrightarrow> tls c' = None \<longleftrightarrow> tls c = None"
  by (auto simp: adb_recv_msg_conn_def split: option.splits prod.splits)

lemma arriving_send [simp]:
  "arriving (snd (adb_send_msg_conn mal cmd a0 a1 data skip c)) = arriving c"
proof (cases "tls c")
  case None
  then show ?thesis by (simp add: adb_send_msg_conn_def arriving_def split: prod.split)
next
  case (Some ctx)
  have "ssl_in (snd (adb_send_msg_tls mal cmd a0 a1 data skip ctx)) = ssl_in ctx"
    by (simp add: adb_send_msg_tls_def Let_def)
  with Some show ?thesis
    by (cases "adb_send_msg_tls mal cmd a0 a1 data skip ctx") (simp add: adb_send_msg_conn_def arriving_def)
qed

lemma tls_greeting_connected: "state c = ADB_STATE_CONNECTED \<Longrightarrow> tls_greeting sv junk t c = c"
  by (cases t) simp_all

lemma tls_greeting_frame:
  assumes "state c \<noteq> ADB_STATE_CONNECTED"
    and "arriving c = header_bytes m @ d @ rest" and "valid_frame 4096 True m d"
  obtains c' where "arriving c' = rest" and "state c' = state c" and "banner c' = banner c"
    and "tls c' = None \<longleftrightarrow> tls c = None"
    and "tls_greeting sv junk (Suc t) c =
       tls_greeting sv junk t (greeting_message sv m (blit d (junk t)) c')"
proof -
  from assms(2,3) obtain c' where
    r: "adb_recv_msg_conn 4096 True zero_header (junk t) c =
      (\<lparr>status = Recv_Ok, out_hdr = m, out_payload = blit d (junk t)\<rparr>, c')" and "arriving c' = rest"
    using recv_conn_frame [of 4096 True zero_header "junk t" c m "blit d (junk t)" rest] by blast
  then show thesis
    using that [of c'] recv_fields(2,5) [OF r] recv_tls_None [OF r] assms(1) by simp
qed

lemma greeting_message_other:
  assumes "command m \<noteq> ADB_CNXN"
  shows "state (greeting_message sv m pl c) = state c" "banner (greeting_message sv m pl c) = banner c"
    "arriving (greeting_message sv m pl c) = arriving c"
    "tls (greeting_message sv m pl c) = None \<longleftrightarrow> tls c = None"
  using assms by (simp_all add: greeting_message_def split: option.splits)

definition greeting_frames :: "(adb_message \<times> bytes) list \<Rightarrow> bool" where
  "greeting_frames fs \<longleftrightarrow> (\<forall>(m, d) \<in> set fs. valid_frame 4096 True m d \<and> command m \<noteq> ADB_CNXN)"

lemma tls_greeting_connects:
  assumes "greeting_frames fs" and "length fs < t" and "state c \<noteq> ADB_STATE_CONNECTED"
    and "arriving c = concat (map frame_bytes fs) @ header_bytes m @ d @ rest"
    and "command m = ADB_CNXN" and "valid_frame 4096 True m d" and "banner c = []"
  shows "state (tls_greeting sv junk t c) = ADB_STATE_CONNECTED \<and>
     arriving (tls_greeting sv junk t c) = rest \<and> banner (tls_greeting sv junk t c) = take 511 d \<and>
     (tls (tls_greeting sv junk t c) = None \<longleftrightarrow> tls c = None)"
  using assms
proof (induction fs arbitrary: t c)
  case Nil
  then obtain t' where t: "t = Suc t'" by (cases t) auto
  have av: "arriving c = header_bytes m @ d @ rest" using Nil.prems(4) by simp
  obtain c' where c': "arriving c' = rest" "banner c' = []" "tls c' = None \<longleftrightarrow> tls c = None"
    and step: "tls_greeting sv junk t c =
       tls_greeting sv junk t' (greeting_message sv m (blit d (junk t')) c')"
    using tls_greeting_frame [OF Nil.prems(3) av Nil.prems(6)] Nil.prems(7) t by metis
  let ?g = "greeting_message sv m (blit d (junk t')) c'"
  let ?b = "if data_length m > 0 then copy_banner (data_length m) (blit d (junk t')) (set_peer_limits m c')
            else set_peer_limits m c'"
  have g: "?g = ?b\<lparr>state := ADB_STATE_CONNECTED\<rparr>"
    using Nil.prems(5) by (simp add: greeting_message_def adb_commands Let_def)
  have "arriving ?b = arriving c'" "tls ?b = tls c'"
    by (simp_all add: arriving_def split: option.split)
  moreover have "banner ?b = take 511 d"
    unfolding copy_banner_valid [OF Nil.prems(6)] using c'(2) by (simp add: set_peer_limits_def)
  moreover have "arriving (?b\<lparr>state := ADB_STATE_CONNECTED\<rparr>) = arriving ?b"
    by (simp add: arriving_def split: option.split)
  ultimately have "state ?g = ADB_STATE_CONNECTED" "arriving ?g = rest" "banner ?g = take 511 d"
    "tls ?g = None \<longleftrightarrow> tls c = None"
    unfolding g using c' by simp_all
  with step show ?case by (simp add: tls_greeting_connected)
next
  case (Cons f fs)
  obtain k e where f: "f = (k, e)" by (cases f)
  from Cons.prems(2) obtain t' where t: "t = Suc t'" by (cases t) auto
  from Cons.prems(1) f have vf: "valid_frame 4096 True k e" and cmd: "command k \<noteq> ADB_CNXN"
    and fs: "greeting_frames fs" by (auto simp: greeting_frames_def)
  have av: "arriving c = header_bytes k @ e @ (concat (map frame_bytes fs) @ header_bytes m @ d @ rest)"
    using Cons.prems(4) f by (simp add: frame_bytes_def [of "(k, e)"])
  obtain c' where c': "arriving c' = concat (map frame_bytes fs) @ header_bytes m @ d @ rest"
      "state c' = state c" "banner c' = banner c" "tls c' = None \<longleftrightarrow> tls c = None"
    and step: "tls_greeting sv junk t c =
       tls_greeting sv junk t' (greeting_message sv k (blit e (junk t')) c')"
    using tls_greeting_frame [OF Cons.prems(3) av vf] t by metis
  note other = greeting_message_other [OF cmd, of sv "blit e (junk t')" c']
  show ?case
    unfolding step using Cons.IH [OF fs, of t' "greeting_message sv k (blit e (junk t')) c'"]
      Cons.prems(2-7) t other c' by simp
qed

text \<open>C5. When the device answers with \<open>STLS\<close> and the TLS handshake gives a session on which it
  sends, after fewer than 50 other messages of at most 4096 bytes, a valid \<open>CNXN\<close>,
  \<open>adb_connect\<close> succeeds on that session, with the banner of that message.\<close>

theorem adb_connect_tls:
  assumes "malloc sv ADB_MAX_PAYLOAD" and "handshake_frames fs" and "length fs < 100"
    and "command k = ADB_STLS" and "valid_frame (int ADB_MAX_PAYLOAD) True k e"
    and "ready inb = concat (map frame_bytes fs) @ header_bytes k @ e @ rest"
    and "handshake sv = Some ctx" and "greeting_frames gs" and "length gs < 50"
    and "command m = ADB_CNXN" and "valid_frame 4096 True m d"
    and "ssl_ready (ssl_in ctx) = concat (map frame_bytes gs) @ header_bytes m @ d @ secured"
  shows "\<exists>c. adb_connect sv True True True rpl payload0 inb (replicate (Suc (length fs)) 1) out = Some c \<and>
     tls c \<noteq> None \<and> arriving c = secured \<and> banner c = take 511 d"
proof -
  let ?c0 = "session_send_cnxn sv (new_connection inb (replicate (Suc (length fs)) 1) out)"
  have sel: "selects ?c0 = replicate (length fs) 1 @ [1]"
    by (simp add: send_cnxn_fields replicate_append_same)
  have banner: "banner ?c0 = []" by (simp add: session_send_cnxn_def new_connection_def)
  from handshake_rounds_skip [OF assms(2,3) _ sel, of "header_bytes k @ e @ rest" sv rpl payload0]
    assms(6) banner
  obtain t pl c where run: "handshake_rounds sv rpl 100 payload0 ?c0 = handshake_rounds sv rpl (Suc t) pl c"
    and c: "state c \<noteq> ADB_STATE_CONNECTED" "selects c = [1]" "ready (rx c) = header_bytes k @ e @ rest"
      "banner c = []"
    by (auto simp: send_cnxn_fields)
  obtain s where step: "handshake_rounds sv rpl (Suc t) pl c = upgrade_tls sv rpl (c\<lparr>selects := [], rx := s\<rparr>)"
    using handshake_rounds_frame [OF c(1-3) assms(5)] assms(4) by metis
  let ?c1 = "c\<lparr>selects := [], rx := s, tx := snd (send stls_reply (tx c)), tls := Some ctx\<rparr>"
  have up: "upgrade_tls sv rpl (c\<lparr>selects := [], rx := s\<rparr>) =
      (state (tls_greeting sv rpl 50 ?c1) = ADB_STATE_CONNECTED, tls_greeting sv rpl 50 ?c1)"
    using assms(7) by (simp add: upgrade_tls_def Let_def)
  have c1: "state ?c1 \<noteq> ADB_STATE_CONNECTED" "banner ?c1 = []" "tls ?c1 = Some ctx" using c by simp_all
  have av: "arriving ?c1 = concat (map frame_bytes gs) @ header_bytes m @ d @ secured"
    using assms(12) by (simp add: arriving_def)
  from tls_greeting_connects [OF assms(8,9) c1(1) av assms(10,11) c1(2), of sv rpl] c1(3)
  show ?thesis
    using assms(1) run step up by (auto simp: adb_connect_def Let_def)
qed

theorem adb_connect_tls_witness:
  "\<exists>c. adb_connect (plain_services\<lparr>handshake := Some \<lparr>ssl_in = [Ssl_Data (header_bytes cnxn_message @ [100, 101, 118])],
         ssl_out = [], ssl_wire = []\<rparr>\<rparr>)
        True True True (\<lambda>_. []) [] [Arrive (header_bytes (make_header ADB_STLS 0x01000000 0 0 0))] [1]
        \<lparr>sends = [], wire = []\<rparr> = Some c \<and>
     tls c \<noteq> None \<and> arriving c = [] \<and> banner c = [100, 101, 118]"
  using adb_connect_tls [where sv = "plain_services\<lparr>handshake := Some \<lparr>ssl_in = [Ssl_Data (header_bytes cnxn_message @ [100, 101, 118])],
         ssl_out = [], ssl_wire = []\<rparr>\<rparr>"
      and fs = "[]" and gs = "[]" and k = "make_header ADB_STLS 0x01000000 0 0 0"
      and e = "[]" and rest = "[]" and m = cnxn_message and d = "[100, 101, 118]" and secured = "[]"
      and inb = "[Arrive (header_bytes (make_header ADB_STLS 0x01000000 0 0 0))]"
      and rpl = "\<lambda>_. []" and ?payload0.0 = "[]" and out = "\<lparr>sends = [], wire = []\<rparr>"
      and ctx = "\<lparr>ssl_in = [Ssl_Data (header_bytes cnxn_message @ [100, 101, 118])],
         ssl_out = [], ssl_wire = []\<rparr>"]
  by (simp add: plain_services_def handshake_frames_def greeting_frames_def valid_cnxn,
      simp add: valid_frame_def make_header_def)

section \<open>A length above the limit\<close>

text \<open>A plain \<open>CNXN\<close> whose length field exceeds 1 MiB (but is positive as an \<open>int\<close>) is
  accepted: the connection succeeds with a banner of 511 bytes of the uninitialised payload
  buffer, and the payload itself stays in the stream, where the next receive takes it for a
  header.\<close>

theorem adb_connect_oversized_cnxn:
  assumes "malloc sv ADB_MAX_PAYLOAD" and "command m = ADB_CNXN" and "magic m = command m XOR 0xffffffff"
    and "ADB_MAX_PAYLOAD < unat (data_length m)" and "unat (data_length m) < 2 ^ 31"
    and "ready inb = header_bytes m @ rest" and "sel = 1 # sel'"
  shows "\<exists>c. adb_connect sv True True True rpl payload0 inb sel out = Some c \<and>
     banner c = take 511 payload0 \<and> ready (rx c) = rest"
proof -
  let ?c0 = "session_send_cnxn sv (new_connection inb sel out)"
  from assms(6) obtain s where h: "recv_strict 24 inb = (Some (header_bytes m), s)" and s: "ready s = rest"
    by (rule polling.get_append) simp
  have nz: "0 < data_length m"
    using assms(4) by (simp add: word_less_nat_alt)
  have big: "sint (data_length m) = int (unat (data_length m))"
    using assms(5) by (simp add: sint_u32)
  let ?c1 = "?c0\<lparr>selects := sel', rx := s\<rparr>"
  have step: "handshake_rounds sv rpl 100 payload0 ?c0 =
      handshake_rounds sv rpl 99 payload0 (handshake_message sv m payload0 ?c1)"
    using assms(3,4,7) h assms(2)
    by (simp add: handshake_rounds.simps(2) [of sv rpl 99, simplified] send_cnxn_fields do_select_def
        header.dec_enc adb_commands)
  have msg: "handshake_message sv m payload0 ?c1 =
      copy_banner (data_length m) payload0 ((set_peer_limits m ?c1)\<lparr>state := ADB_STATE_CONNECTED\<rparr>)"
    using assms(2) nz by (simp add: handshake_message_def adb_commands Let_def)
  have "nat 511 = 511" by simp
  moreover have "int 512 \<le> int (unat (data_length m))"
    unfolding of_nat_le_iff using assms(4) by (simp add: ADB_MAX_PAYLOAD_def)
  then have "512 \<le> uint (data_length m)" by simp
  ultimately have "banner (handshake_message sv m payload0 ?c1) = take 511 payload0"
    "state (handshake_message sv m payload0 ?c1) = ADB_STATE_CONNECTED"
    "rx (handshake_message sv m payload0 ?c1) = s"
    unfolding msg
    by (simp_all add: copy_banner_def big BANNER_MAX_def Let_def set_peer_limits_def)
  with step s assms(1) show ?thesis
    by (simp add: adb_connect_def handshake_rounds_connected)
qed

theorem adb_connect_oversized_cnxn_witness:
  "\<exists>c. adb_connect plain_services True True True (\<lambda>_. []) (replicate 1000 170)
        [Arrive (header_bytes big_cnxn_message @ [100, 101, 118])] [1] \<lparr>sends = [], wire = []\<rparr> = Some c \<and>
     banner c = take 511 (replicate 1000 170) \<and> ready (rx c) = [100, 101, 118]"
  by (rule adb_connect_oversized_cnxn [where m = big_cnxn_message and sel' = "[]"])
    (simp_all add: plain_services_def big_cnxn_message_def make_header_def ADB_MAX_PAYLOAD_def)

section \<open>Pushing a file\<close>

definition wrte_bytes :: "u32 \<Rightarrow> u32 \<Rightarrow> bytes \<Rightarrow> bytes" where
  "wrte_bytes lid rid data = header_bytes (sent_message ADB_WRTE lid rid data True) @ data"

text \<open>A connection with nothing to read and a channel \<open>i\<close> with the given ids.\<close>

definition quiet_channel :: "nat \<Rightarrow> u32 \<Rightarrow> u32 \<Rightarrow> adb_connection \<Rightarrow> bool" where
  "quiet_channel i lid rid c \<longleftrightarrow> idle_plain c \<and> selects c = [] \<and> fd c \<and>
     local_id (channels c ! i) = lid \<and> remote_id (channels c ! i) = rid"

lemma session_poll_quiet: "fd c \<Longrightarrow> selects c = [] \<Longrightarrow> session_poll sv h j c = (0, c)"
  by (simp add: session_poll_def do_select_def)

lemma await_reply_quiet: "fd c \<Longrightarrow> selects c = [] \<Longrightarrow> await_reply sv junk n c = c"
  by (induction n) (simp_all add: session_poll_quiet)

lemma write_channel_quiet:
  assumes "quiet_channel i lid rid c"
  shows "write_channel sv i data c = c\<lparr>tx := (tx c)\<lparr>wire := wire (tx c) @ wrte_bytes lid rid data\<rparr>\<rparr>"
  using assms by (simp add: quiet_channel_def write_channel_def send_idle_plain wrte_bytes_def)

lemma quiet_channel_wire: "quiet_channel i lid rid c \<Longrightarrow> quiet_channel i lid rid (c\<lparr>tx := (tx c)\<lparr>wire := w\<rparr>\<rparr>)"
  by (simp add: quiet_channel_def idle_plain_def)

lemma send_chunks_quiet:
  assumes "quiet_channel i lid rid c"
  shows "\<exists>parts. concat parts = cont \<and> (\<forall>p \<in> set parts. p \<noteq> [] \<and> length p \<le> SYNC_MAX_CHUNK) \<and>
     send_chunks sv junk k i cont c = c\<lparr>tx := (tx c)\<lparr>wire := wire (tx c) @
       concat (map (\<lambda>p. wrte_bytes lid rid (sync_packet ''DATA'' p)) parts)\<rparr>\<rparr>"
  using assms
proof (induction "length cont" arbitrary: cont k c rule: less_induct)
  case less
  show ?case
  proof (cases "cont = []")
    case True
    then show ?thesis by (intro exI [of _ "[]"]) (simp add: send_chunks.simps)
  next
    case False
    let ?p = "take SYNC_MAX_CHUNK cont" and ?r = "drop SYNC_MAX_CHUNK cont"
    let ?c = "c\<lparr>tx := (tx c)\<lparr>wire := wire (tx c) @ wrte_bytes lid rid (sync_packet ''DATA'' ?p)\<rparr>\<rparr>"
    have q: "quiet_channel i lid rid ?c" using less.prems by (rule quiet_channel_wire)
    have "length ?r < length cont" using False by (simp add: SYNC_MAX_CHUNK_def)
    from less.hyps [OF this q, of "Suc k"] obtain parts where
      parts: "concat parts = ?r" "\<forall>p \<in> set parts. p \<noteq> [] \<and> length p \<le> SYNC_MAX_CHUNK"
        "send_chunks sv junk (Suc k) i ?r ?c = ?c\<lparr>tx := (tx ?c)\<lparr>wire := wire (tx ?c) @
           concat (map (\<lambda>p. wrte_bytes lid rid (sync_packet ''DATA'' p)) parts)\<rparr>\<rparr>" by blast
    have "session_poll sv (fst (junk k)) (snd (junk k)) ?c = (0, ?c)"
      using q by (intro session_poll_quiet) (simp_all add: quiet_channel_def)
    then have "send_chunks sv junk k i cont c = send_chunks sv junk (Suc k) i ?r ?c"
      using False by (simp add: send_chunks.simps [of sv junk k] write_channel_quiet [OF less.prems])
    with parts False show ?thesis
      by (intro exI [of _ "?p # parts"]) (simp add: SYNC_MAX_CHUNK_def)
  qed
qed

lemma open_last_channel:
  assumes "\<forall>ch \<in> set chs. local_id ch \<noteq> local_id new"
  shows "open_channel_entry (local_id new) rid (chs @ [new]) =
     chs @ [new\<lparr>remote_id := rid, chan_state := CHAN_OPEN\<rparr>]"
  unfolding open_channel_entry_def using assms by (intro update_first_split) simp_all

text \<open>The channel opens: its \<open>OKAY\<close> is the first thing that arrives.\<close>

lemma await_open_okay:
  assumes "idle_plain c" and "selects c = [1]" and "ready (rx c) = header_bytes ok @ rest"
    and ok: "command ok = ADB_OKAY" "arg0 ok = rid" "arg1 ok = local_id new" "data_length ok = 0"
      "magic ok = command ok XOR 0xffffffff"
    and chs: "channels c = chs @ [new]" "\<forall>ch \<in> set chs. local_id ch \<noteq> local_id new"
    and new: "chan_state new = CHAN_OPENING" and "i = length chs"
  shows "\<exists>c'. await_open sv junk i 200 pl c = c' \<and> tx c' = tx c \<and> selects c' = [] \<and>
     tls c' = None \<and> fd c' = fd c \<and>
     channels c' = chs @ [new\<lparr>remote_id := rid, chan_state := CHAN_OPEN\<rparr>]"
proof -
  let ?c1 = "c\<lparr>selects := []\<rparr>"
  have tls: "tls c = None" using assms(1) by (simp add: idle_plain_def)
  have vf: "valid_frame (int ADB_MAX_PAYLOAD) skip ok []" for skip
    using ok by (simp add: valid_frame_def)
  have av: "arriving ?c1 = header_bytes ok @ [] @ rest" using assms(3) tls by (simp add: arriving_def)
  obtain c2 where r: "adb_recv_msg_conn (int ADB_MAX_PAYLOAD) (skip_checksum ?c1) (fst (junk 199)) pl ?c1 =
      (\<lparr>status = Recv_Ok, out_hdr = ok, out_payload = blit [] pl\<rparr>, c2)"
    using recv_conn_frame [of "int ADB_MAX_PAYLOAD" "skip_checksum ?c1" "fst (junk 199)" pl ?c1 ok "blit [] pl" rest]
      av vf by blast
  note f = recv_fields [OF r] and t = recv_tls_None [OF r]
  have h: "session_handle_message sv (snd (junk 199)) ok pl c2 =
      c2\<lparr>channels := chs @ [new\<lparr>remote_id := rid, chan_state := CHAN_OPEN\<rparr>]\<rparr>"
    using ok f(3) chs by (simp add: session_handle_message_def adb_commands handle_okay_def open_last_channel)
  have "await_open sv junk i 200 pl c =
      await_open sv junk i 199 pl (session_handle_message sv (snd (junk 199)) ok pl c2)"
    using await_open.simps(2) [of sv junk i 199 pl c] r assms(2) chs(1) new \<open>i = length chs\<close>
    by (simp add: do_select_def)
  also have "\<dots> = session_handle_message sv (snd (junk 199)) ok pl c2"
    unfolding h using await_open.simps(2) [of sv junk i 198 pl] \<open>i = length chs\<close> by simp
  finally show ?thesis using f t tls unfolding h by simp
qed

text \<open>The file over a channel that is open and quiet.\<close>

lemma sync_send_quiet:
  assumes "await_open sv (junk 0) i 200 pl c1 = c2" and "quiet_channel i lid rid c2"
    and "chan_state (channels c2 ! i) = CHAN_OPEN" and "malloc sv ADB_MAX_PAYLOAD" and "length remote \<le> 512"
  shows "\<exists>c' parts. adb_sync_send sv junk pl i remote file c1 = (True, c') \<and> quiet_channel i lid rid c' \<and>
     concat parts = file \<and> (\<forall>p \<in> set parts. p \<noteq> [] \<and> length p \<le> SYNC_MAX_CHUNK) \<and> channels c' = channels c2 \<and>
     wire (tx c') = wire (tx c2) @ wrte_bytes lid rid (sync_packet ''SEND'' (bytes_of remote)) @
       concat (map (\<lambda>p. wrte_bytes lid rid (sync_packet ''DATA'' p)) parts) @ wrte_bytes lid rid (sync_packet ''DONE'' [])"
proof -
  let ?c3 = "c2\<lparr>tx := (tx c2)\<lparr>wire := wire (tx c2) @ wrte_bytes lid rid (sync_packet ''SEND'' (bytes_of remote))\<rparr>\<rparr>"
  have q3: "quiet_channel i lid rid ?c3" using assms(2) by (rule quiet_channel_wire)
  obtain parts where parts: "concat parts = file" "\<forall>p \<in> set parts. p \<noteq> [] \<and> length p \<le> SYNC_MAX_CHUNK"
    and ch: "send_chunks sv (junk 2) 0 i file ?c3 = ?c3\<lparr>tx := (tx ?c3)\<lparr>wire := wire (tx ?c3) @
       concat (map (\<lambda>p. wrte_bytes lid rid (sync_packet ''DATA'' p)) parts)\<rparr>\<rparr>" (is "_ = ?c4")
    using send_chunks_quiet [OF q3] by blast
  have q4: "quiet_channel i lid rid ?c4" using q3 by (rule quiet_channel_wire)
  let ?c5 = "?c4\<lparr>tx := (tx ?c4)\<lparr>wire := wire (tx ?c4) @ wrte_bytes lid rid (sync_packet ''DONE'' [])\<rparr>\<rparr>"
  have q5: "quiet_channel i lid rid ?c5" using q4 by (rule quiet_channel_wire)
  have poll: "session_poll sv h j ?c3 = (0, ?c3)" for h j
    using q3 by (intro session_poll_quiet) (simp_all add: quiet_channel_def)
  have reply: "await_reply sv (junk 3) 200 ?c5 = ?c5"
    using q5 by (intro await_reply_quiet) (simp_all add: quiet_channel_def)
  have "adb_sync_send sv junk pl i remote file c1 = (True, ?c5)"
    unfolding adb_sync_send_def assms(1) Let_def
    using assms(3-5) ch reply poll write_channel_quiet [OF assms(2), of sv] write_channel_quiet [OF q4, of sv] by simp
  then show ?thesis using parts q5 by (intro exI [of _ ?c5] exI [of _ parts]) simp
qed

text \<open>A command that fits the name of a service is sent whole.\<close>

lemma shell_sent:
  assumes "idle_plain c" and "state c = ADB_STATE_CONNECTED" and "length (channels c) < 64" and "length cmd < 250"
  shows "\<exists>c'. adb_shell sv cmd c = (True, c') \<and>
     wire (tx c') = wire (tx c) @
       header_bytes (sent_message ADB_OPEN (next_local_id c) 0 (cstr (''shell:'' @ cmd)) True) @ cstr (''shell:'' @ cmd)"
proof -
  have idle: "idle_plain (c\<lparr>channels := chs, next_local_id := n\<rparr>)" for chs n
    using assms(1) by (simp add: idle_plain_def)
  obtain s where s: "''shell:'' @ cmd = s" by simp
  have ls: "length s = 6 + length cmd" unfolding s [symmetric] by simp
  have "cut SERVICE_NAME_MAX (''shell:'' @ cmd) = s" unfolding s using ls assms(4) by (simp add: SERVICE_NAME_MAX_def)
  then have "adb_shell sv cmd c = (case session_open_channel sv s c of
      (None, c1) \<Rightarrow> (False, c1) | (Some _, c1) \<Rightarrow> (True, c1))"
    unfolding adb_shell_def using assms(2) by simp
  then show ?thesis
    using assms(3,4) ls unfolding s
    by (simp add: session_open_channel_def MAX_CHANNELS_def Let_def send_idle_plain [OF idle])
qed

text \<open>C4. Pushing a file over an idle plain connection whose device opens the sync channel and
  then says nothing puts on the wire: the \<open>OPEN\<close>, the \<open>SEND\<close> request with the path, the
  file cut into \<open>DATA\<close> packets of 1 to 65536 bytes in order, \<open>DONE\<close>, and the closing
  \<open>CLSE\<close>. The push reports success although the device never confirmed it.\<close>

theorem adb_push_transfers_file:
  assumes "idle_plain c" and "fd c" and "state c = ADB_STATE_CONNECTED" and "malloc sv ADB_MAX_PAYLOAD"
    and "length (channels c) < 64" and "next_local_id c \<notin> set (map local_id (channels c))"
    and "selects c = [1]" and "ready (rx c) = header_bytes (make_header ADB_OKAY rid (next_local_id c) 0 0) @ rest"
    and "rid \<noteq> 0" and "length remote \<le> 512"
  shows "\<exists>c' parts. adb_push sv junk pl (Some file) remote c = (True, c') \<and>
     concat parts = file \<and> (\<forall>p \<in> set parts. p \<noteq> [] \<and> length p \<le> 65536) \<and>
     wire (tx c') = wire (tx c) @
       header_bytes (sent_message ADB_OPEN (next_local_id c) 0 (cstr ''sync:'') True) @ cstr ''sync:'' @
       wrte_bytes (next_local_id c) rid (sync_packet ''SEND'' (bytes_of remote)) @
       concat (map (\<lambda>p. wrte_bytes (next_local_id c) rid (sync_packet ''DATA'' p)) parts) @
       wrte_bytes (next_local_id c) rid (sync_packet ''DONE'' []) @
       header_bytes (sent_message ADB_CLSE (next_local_id c) rid [] True)"
proof -
  let ?lid = "next_local_id c" and ?i = "length (channels c)"
  let ?new = "\<lparr>local_id = ?lid, remote_id = 0, service = ''sync:'', chan_state = CHAN_OPENING\<rparr>"
  let ?chs = "channels c @ [?new\<lparr>remote_id := rid, chan_state := CHAN_OPEN\<rparr>]"
  let ?w1 = "wire (tx c) @ header_bytes (sent_message ADB_OPEN ?lid 0 (cstr ''sync:'') True) @ cstr ''sync:''"
  let ?c1 = "c\<lparr>channels := channels c @ [?new], next_local_id := ?lid + 1, tx := (tx c)\<lparr>wire := ?w1\<rparr>\<rparr>"
  have idle: "idle_plain (c\<lparr>channels := chs, next_local_id := n\<rparr>)" "idle_plain ?c1" for chs n
    using assms(1) by (simp_all add: idle_plain_def)
  have op: "session_open_channel sv ''sync:'' c = (Some ?i, ?c1)"
    using assms(5) by (simp add: session_open_channel_def MAX_CHANNELS_def SERVICE_NAME_MAX_def
        Let_def send_idle_plain [OF idle(1)])
  have "\<forall>ch \<in> set (channels c). local_id ch \<noteq> local_id ?new" using assms(6) by (metis adb_channel.select_convs(1) image_eqI set_map)
  then obtain c2 where c2: "await_open sv (junk 0) ?i 200 pl ?c1 = c2" "tx c2 = tx ?c1" "selects c2 = []"
      "tls c2 = None" "fd c2 = fd c" "channels c2 = ?chs"
    using await_open_okay [of ?c1 "make_header ADB_OKAY rid ?lid 0 0" rest rid ?new "channels c" ?i sv "junk 0" pl]
      idle(2) assms(7,8) by (auto simp: make_header_def)
  have q2: "quiet_channel ?i ?lid rid c2" using c2 assms(1,2) by (simp add: quiet_channel_def idle_plain_def)
  have opened: "chan_state (channels c2 ! ?i) = CHAN_OPEN" using c2(6) by simp
  obtain c5 parts where sync: "adb_sync_send sv junk pl ?i remote file ?c1 = (True, c5)" "quiet_channel ?i ?lid rid c5"
    "channels c5 = ?chs" and parts: "concat parts = file" "\<forall>p \<in> set parts. p \<noteq> [] \<and> length p \<le> SYNC_MAX_CHUNK"
    and wire: "wire (tx c5) = wire (tx c2) @ wrte_bytes ?lid rid (sync_packet ''SEND'' (bytes_of remote)) @
      concat (map (\<lambda>p. wrte_bytes ?lid rid (sync_packet ''DATA'' p)) parts) @ wrte_bytes ?lid rid (sync_packet ''DONE'' [])"
    using sync_send_quiet [where junk = junk, OF c2(1) q2 opened assms(4,10), unfolded c2(6)] by blast
  have "wire (tx (session_close_channel sv ?i c5)) = wire (tx c5) @ header_bytes (sent_message ADB_CLSE ?lid rid [] True)"
    using sync(2,3) assms(9) session_close_channel_idle [of c5 ?i sv] by (simp add: quiet_channel_def clse_bytes_def)
  moreover have "adb_push sv junk pl (Some file) remote c = (True, session_close_channel sv ?i c5)"
    using assms(3) by (simp add: adb_push_def op sync(1))
  ultimately show ?thesis
    using parts wire c2(2) by (intro exI [of _ "session_close_channel sv ?i c5"] exI [of _ parts])
      (simp add: SYNC_MAX_CHUNK_def)
qed

theorem adb_push_transfers_file_witness:
  "\<exists>c'. adb_push plain_services (\<lambda>_ _. ([], [])) [] (Some [1, 2, 3]) ''/x''
       (example_connection\<lparr>selects := [1], rx := [Arrive (header_bytes (make_header ADB_OKAY 9 1 0 0))]\<rparr>) =
     (True, c')"
proof -
  let ?c = "example_connection\<lparr>selects := [1], rx := [Arrive (header_bytes (make_header ADB_OKAY 9 1 0 0))]\<rparr>"
  have c: "idle_plain ?c" "fd ?c" "state ?c = ADB_STATE_CONNECTED" "malloc plain_services ADB_MAX_PAYLOAD"
    "length (channels ?c) < 64" "next_local_id ?c \<notin> set (map local_id (channels ?c))" "selects ?c = [1]"
    "ready (rx ?c) = header_bytes (make_header ADB_OKAY 9 (next_local_id ?c) 0 0) @ []"
    "(9::u32) \<noteq> 0" "length ''/x'' \<le> 512"
    by (simp_all add: idle_plain_def example_connection_def plain_services_def)
  from adb_push_transfers_file [OF c, of "\<lambda>_ _. ([], [])" "[]" "[1, 2, 3]"] show ?thesis by blast
qed

end
