(* ===== verification/Credentials.thy ===== *)
theory Credentials
  imports Adb
begin

text \<open>
  Keys and certificates: \<open>src/adb/crypto.c\<close> and the configuration half of \<open>src/adb/tls.c\<close>, with
  \<open>adb_init\<close> and \<open>adb_destroy\<close> of \<open>src/adb/adb.c\<close> over them. The static variables of the two files
  are one record that says which mbedTLS objects have been initialised and not freed; what the
  library's functions give is a parameter. \<open>adb_init\<close> of the theory \<open>Adb\<close> is an abstraction of the
  function here.
\<close>

section \<open>The static variables and the library\<close>

datatype mbed_object =
    Pk | Entropy | Ctr_Drbg | Ssl_Config | Tls_Entropy | Tls_Ctr_Drbg | Client_Cert | Client_Key | Cert_Writer

text \<open>\<open>live\<close> are the objects to be freed, \<open>own_cert\<close> whether the configuration names the certificate.\<close>

record 'k credentials =
  crypto_initialized :: bool
  tls_initialized :: bool
  pk :: "'k option"
  live :: "mbed_object set"
  own_cert :: bool
  started :: bool

text \<open>
  What the library gives: \<open>pk_rsa\<close> the modulus and the exponent of a key, \<open>None\<close> for a key that is not
  an RSA key; \<open>mpi_write_binary n k\<close> what the first \<open>k\<close> bytes of the buffer hold after \<open>n\<close> has been
  written to it.
\<close>

record 'k mbedtls =
  seed_ok :: bool
  defaults_ok :: bool
  parse_keyfile :: "string \<Rightarrow> 'k option"
  pk_sign :: "'k \<Rightarrow> bytes \<Rightarrow> bytes option"
  pk_rsa :: "'k \<Rightarrow> (nat \<times> nat) option"
  export_ok :: bool
  mpi_size :: "nat \<Rightarrow> nat"
  mpi_write_binary :: "nat \<Rightarrow> nat \<Rightarrow> bytes"
  mpi_write_binary_le :: "nat \<Rightarrow> nat \<Rightarrow> bytes"
  write_der :: "'k \<Rightarrow> bytes option"
  parse_der :: "bytes \<Rightarrow> bool"
  setup_ok :: bool
  copy_ok :: bool

definition created :: "mbed_object set \<Rightarrow> 'k credentials \<Rightarrow> 'k credentials" where
  "created os st = st\<lparr>live := live st \<union> os\<rparr>"

definition freed :: "mbed_object set \<Rightarrow> 'k credentials \<Rightarrow> 'k credentials" where
  "freed os st = st\<lparr>live := live st - os\<rparr>"

section \<open>The key\<close>

definition crypto_free :: "'k credentials \<Rightarrow> 'k credentials" where
  "crypto_free st =
     (if crypto_initialized st then (freed {Pk, Entropy, Ctr_Drbg} st)\<lparr>pk := None, crypto_initialized := False\<rparr>
      else st)"

definition crypto_load_key :: "'k mbedtls \<Rightarrow> string \<Rightarrow> 'k credentials \<Rightarrow> bool \<times> 'k credentials" where
  "crypto_load_key lib path st =
     (let st1 = (created {Pk, Entropy, Ctr_Drbg} (if crypto_initialized st then crypto_free st else st))\<lparr>pk := None\<rparr>
      in if \<not> seed_ok lib then (False, st1)
         else case parse_keyfile lib path of
           None \<Rightarrow> (False, st1)
         | Some k \<Rightarrow> (True, st1\<lparr>pk := Some k, crypto_initialized := True\<rparr>))"

definition crypto_sign_token :: "'k mbedtls \<Rightarrow> bytes \<Rightarrow> 'k credentials \<Rightarrow> bytes option" where
  "crypto_sign_token lib token st =
     (if \<not> crypto_initialized st then None else pk_sign lib (the (pk st)) token)"

definition crypto_get_pk_context :: "'k credentials \<Rightarrow> 'k option" where
  "crypto_get_pk_context st = (if crypto_initialized st then pk st else None)"

definition crypto_get_ctr_drbg :: "'k credentials \<Rightarrow> bool" where
  "crypto_get_ctr_drbg st \<longleftrightarrow> crypto_initialized st"

text \<open>The result, \<open>None\<close> for -1, is the value of \<open>*len\<close>; the caller's buffer is given and returned.\<close>

definition crypto_get_public_key :: "'k mbedtls \<Rightarrow> bytes \<Rightarrow> 'k credentials \<Rightarrow> nat option \<times> bytes" where
  "crypto_get_public_key lib buf st =
     (if \<not> crypto_initialized st then (None, buf)
      else case pk_rsa lib (the (pk st)) of
        None \<Rightarrow> (None, buf)
      | Some (n, e) \<Rightarrow>
          if \<not> export_ok lib then (None, buf)
          else
            let mod_len = (if mpi_size lib n > 256 then 256 else mpi_size lib n);
                modulus = replicate (256 - mod_len) 0 @ mpi_write_binary lib n mod_len;
                exp_buf = mpi_write_binary_le lib e 8
            in (Some 260, blit (modulus @ take 4 exp_buf) buf))"

section \<open>The TLS configuration\<close>

text \<open>
  \<open>None\<close> is a null pointer read: the key of the crypto context is not an RSA key. The writer of the
  certificate is freed on every path.
\<close>

definition generate_self_signed_cert :: "'k mbedtls \<Rightarrow> 'k credentials \<Rightarrow> (bool \<times> 'k credentials) option" where
  "generate_self_signed_cert lib st =
     (case crypto_get_pk_context st of
        None \<Rightarrow> Some (False, st)
      | Some k \<Rightarrow>
          if \<not> crypto_get_ctr_drbg st then Some (False, st)
          else
            let st1 = created {Cert_Writer} st
            in (case write_der lib k of
                  None \<Rightarrow> Some (False, freed {Cert_Writer} st1)
                | Some der \<Rightarrow>
                    let st2 = created {Client_Cert} st1
                    in if \<not> parse_der lib der then Some (False, freed {Cert_Writer} st2)
                       else
                         let st3 = created {Client_Key} st2
                         in if \<not> setup_ok lib then Some (False, freed {Client_Cert, Cert_Writer} st3)
                            else if pk_rsa lib k = None then None
                            else if \<not> copy_ok lib then Some (False, freed {Client_Key, Client_Cert, Cert_Writer} st3)
                            else Some (True, freed {Cert_Writer} st3)))"

definition tls_init :: "'k mbedtls \<Rightarrow> 'k credentials \<Rightarrow> bool \<times> 'k credentials" where
  "tls_init lib st =
     (if tls_initialized st then (True, st)
      else
        let st1 = created {Ssl_Config, Tls_Entropy, Tls_Ctr_Drbg} st
        in if \<not> seed_ok lib then (False, st1)
           else if \<not> defaults_ok lib then (False, st1)
           else (True, st1\<lparr>tls_initialized := True\<rparr>))"

definition tls_configure_client_cert :: "'k mbedtls \<Rightarrow> 'k credentials \<Rightarrow> (bool \<times> 'k credentials) option" where
  "tls_configure_client_cert lib st =
     (if \<not> tls_initialized st then Some (False, st)
      else case generate_self_signed_cert lib st of
        None \<Rightarrow> None
      | Some (ok, st1) \<Rightarrow> Some (ok, if ok then st1\<lparr>own_cert := True\<rparr> else st1))"

definition tls_cleanup :: "'k credentials \<Rightarrow> 'k credentials" where
  "tls_cleanup st =
     (if tls_initialized st
      then (freed {Ssl_Config, Tls_Entropy, Tls_Ctr_Drbg, Client_Cert, Client_Key} st)
             \<lparr>tls_initialized := False, own_cert := False\<rparr>
      else st)"

section \<open>adb\_init and adb\_destroy\<close>

text \<open>The platform's part is two flags: whether \<open>platform_init\<close> succeeds, and the home directory.\<close>

definition load_default_key :: "'k mbedtls \<Rightarrow> string \<Rightarrow> 'k credentials \<Rightarrow> 'k credentials option" where
  "load_default_key lib h st =
     (case crypto_load_key lib (adb_key_path h) st of
        (False, st1) \<Rightarrow> Some st1
      | (True, st1) \<Rightarrow> map_option snd (tls_configure_client_cert lib st1))"

definition credentials_init ::
  "'k mbedtls \<Rightarrow> bool \<Rightarrow> string option \<Rightarrow> 'k credentials \<Rightarrow> (bool \<times> 'k credentials) option" where
  "credentials_init lib platform_ok h st =
     (if started st then Some (True, st)
      else if \<not> platform_ok then Some (False, st)
      else case tls_init lib st of
        (False, st1) \<Rightarrow> Some (False, st1)
      | (True, st1) \<Rightarrow>
          map_option (\<lambda>st2. (True, st2\<lparr>started := True\<rparr>))
            (case h of None \<Rightarrow> Some st1 | Some h \<Rightarrow> load_default_key lib h st1))"

definition credentials_destroy :: "'k credentials \<Rightarrow> 'k credentials" where
  "credentials_destroy st = (if started st then (tls_cleanup (crypto_free st))\<lparr>started := False\<rparr> else st)"

definition no_credentials :: "'k credentials" where
  "no_credentials =
     \<lparr>crypto_initialized = False, tls_initialized = False, pk = None, live = {}, own_cert = False, started = False\<rparr>"

section \<open>The public key\<close>

text \<open>The value of bytes in either order, and what the library documents of its big integers.\<close>

definition le_value :: "bytes \<Rightarrow> nat" where
  "le_value bs = foldr (\<lambda>b n. unat b + 256 * n) bs 0"

definition be_value :: "bytes \<Rightarrow> nat" where
  "be_value bs = le_value (rev bs)"

definition mpi_documented :: "'k mbedtls \<Rightarrow> bool" where
  "mpi_documented lib \<longleftrightarrow>
     (\<forall>n. n < 256 ^ mpi_size lib n) \<and> (\<forall>n k. n < 256 ^ k \<longrightarrow> mpi_size lib n \<le> k) \<and>
     (\<forall>n k. length (mpi_write_binary lib n k) = k \<and> length (mpi_write_binary_le lib n k) = k) \<and>
     (\<forall>n k. n < 256 ^ k \<longrightarrow> be_value (mpi_write_binary lib n k) = n \<and> le_value (mpi_write_binary_le lib n k) = n)"

lemma le_value_simps [simp]: "le_value [] = 0" "le_value (b # bs) = unat b + 256 * le_value bs"
  by (simp_all add: le_value_def)

lemma unat_byte: "unat (b :: byte) < 256"
  using unsigned_less [of b] by simp

lemma le_value_append: "le_value (xs @ ys) = le_value xs + 256 ^ length xs * le_value ys"
  by (induction xs) (simp_all add: algebra_simps)

lemma le_value_less: "le_value bs < 256 ^ length bs"
proof (induction bs)
  case (Cons b bs)
  then show ?case using unat_byte [of b] by simp
qed simp

lemma le_value_take: "k \<le> length bs \<Longrightarrow> le_value (take k bs) = le_value bs mod 256 ^ k"
  using le_value_append [of "take k bs" "drop k bs"] le_value_less [of "take k bs"] by simp

lemma be_value_pad: "be_value (replicate k 0 @ bs) = be_value bs"
proof -
  have "le_value (replicate k 0) = 0" by (induction k) simp_all
  then show ?thesis by (simp add: be_value_def le_value_append)
qed

text \<open>The public key that is given out is the loaded key's: for a modulus of at most 2048 bits and an
  exponent of at most 64 bits the first 256 bytes are the modulus in big-endian order and the next
  four the exponent, modulo \<open>2 ^ 32\<close>, in little-endian order; nothing after the 260 bytes changes.\<close>

theorem public_key_roundtrip:
  assumes "mpi_documented lib" and "crypto_initialized st" and "pk st = Some k" and "pk_rsa lib k = Some (n, e)"
    and "export_ok lib" and "n < 256 ^ 256" and "e < 256 ^ 8" and "260 \<le> length buf"
  shows "\<exists>buf'. crypto_get_public_key lib buf st = (Some 260, buf') \<and> be_value (take 256 buf') = n \<and>
     le_value (take 4 (drop 256 buf')) = e mod 2 ^ 32 \<and> drop 260 buf' = drop 260 buf"
proof -
  let ?l = "mpi_size lib n"
  let ?n = "replicate (256 - ?l) 0 @ mpi_write_binary lib n ?l" and ?e = "mpi_write_binary_le lib e 8"
  have l: "?l \<le> 256" "n < 256 ^ ?l" and len: "length (mpi_write_binary lib n ?l) = ?l" "length ?e = 8"
    using assms(1,6) unfolding mpi_documented_def by blast+
  have r: "crypto_get_public_key lib buf st = (Some 260, blit (?n @ take 4 ?e) buf)"
    using assms(2-5) l(1) by (simp add: crypto_get_public_key_def Let_def)
  have "be_value ?n = n" unfolding be_value_pad using assms(1) l(2) unfolding mpi_documented_def by blast
  moreover have "le_value (take 4 ?e) = e mod 2 ^ 32"
  proof -
    have "le_value ?e = e" using assms(1,7) unfolding mpi_documented_def by blast
    then show ?thesis using le_value_take [of 4 ?e] len(2) by simp
  qed
  moreover have "take 256 (blit (?n @ take 4 ?e) buf) = ?n" "take 4 (drop 256 (blit (?n @ take 4 ?e) buf)) = take 4 ?e"
    "drop 260 (blit (?n @ take 4 ?e) buf) = drop 260 buf"
    using l(1) len by (simp_all add: blit_def)
  ultimately show ?thesis using r by (intro exI [of _ "blit (?n @ take 4 ?e) buf"]) simp
qed

section \<open>What is freed\<close>

lemma destroy_after_init:
  assumes "credentials_init lib True h no_credentials = Some (True, st)"
  shows "live (credentials_destroy st) =
     (if (\<exists>p. h = Some p \<and> parse_keyfile lib (adb_key_path p) = None) then {Pk, Entropy, Ctr_Drbg} else {})"
  using assms
  by (auto simp: credentials_init_def no_credentials_def tls_init_def created_def freed_def load_default_key_def
      crypto_load_key_def tls_configure_client_cert_def generate_self_signed_cert_def crypto_get_pk_context_def
      crypto_get_ctr_drbg_def credentials_destroy_def crypto_free_def tls_cleanup_def Let_def
      split: if_splits option.splits prod.splits)


text \<open>The keyfile may hold a key that is not an RSA key: \<open>adb_init\<close> then reads through the null pointer that
  \<open>mbedtls_pk_rsa\<close> gives, exactly when all steps before the copy of the key succeed.\<close>

theorem other_key_faults_iff:
  "credentials_init lib True (Some h) no_credentials = None \<longleftrightarrow>
     seed_ok lib \<and> defaults_ok lib \<and> setup_ok lib \<and>
     (\<exists>k der. parse_keyfile lib (adb_key_path h) = Some k \<and> write_der lib k = Some der \<and> parse_der lib der \<and>
        pk_rsa lib k = None)"
  by (auto simp: credentials_init_def no_credentials_def tls_init_def created_def freed_def load_default_key_def
      crypto_load_key_def tls_configure_client_cert_def generate_self_signed_cert_def crypto_get_pk_context_def
      crypto_get_ctr_drbg_def Let_def split: if_splits option.splits prod.splits)

section \<open>The abstraction in the client interface\<close>

text \<open>What the theory \<open>Adb\<close> keeps of the state, and the environment it assumes.\<close>

definition globals_of :: "bool \<Rightarrow> 'k credentials \<Rightarrow> adb_globals" where
  "globals_of up st =
     \<lparr>adb_initialized = started st, platform_up = up, tls_up = tls_initialized st, key_loaded = crypto_initialized st,
      client_cert = own_cert st\<rparr>"

definition cert_made :: "'k mbedtls \<Rightarrow> 'k \<Rightarrow> bool" where
  "cert_made lib k \<longleftrightarrow> (case write_der lib k of None \<Rightarrow> False | Some der \<Rightarrow> parse_der lib der) \<and> setup_ok lib \<and> copy_ok lib"

definition env_of :: "'k mbedtls \<Rightarrow> bool \<Rightarrow> string option \<Rightarrow> adb_env" where
  "env_of lib platform_ok h =
     \<lparr>platform_init = platform_ok, tls_init = seed_ok lib \<and> defaults_ok lib, home = h,
      load_key = (\<lambda>path. parse_keyfile lib path \<noteq> None),
      make_cert = (case Option.bind h (\<lambda>h. parse_keyfile lib (adb_key_path h)) of None \<Rightarrow> False | Some k \<Rightarrow> cert_made lib k)\<rparr>"

datatype credential_call = Init bool "string option" | Destroy

fun credential_calls :: "'k mbedtls \<Rightarrow> credential_call list \<Rightarrow> 'k credentials \<Rightarrow> (bool list \<times> 'k credentials) option" where
  "credential_calls lib [] st = Some ([], st)"
| "credential_calls lib (Init p h # cs) st =
     (case credentials_init lib p h st of
        None \<Rightarrow> None
      | Some (ok, st1) \<Rightarrow> map_option (\<lambda>(oks, st2). (ok # oks, st2)) (credential_calls lib cs st1))"
| "credential_calls lib (Destroy # cs) st = credential_calls lib cs (credentials_destroy st)"

fun adb_calls :: "'k mbedtls \<Rightarrow> credential_call list \<Rightarrow> adb_globals \<Rightarrow> bool list \<times> adb_globals" where
  "adb_calls lib [] g = ([], g)"
| "adb_calls lib (Init p h # cs) g =
     (case adb_init (env_of lib p h) g of (ok, g1) \<Rightarrow> case adb_calls lib cs g1 of (oks, g2) \<Rightarrow> (ok # oks, g2))"
| "adb_calls lib (Destroy # cs) g = adb_calls lib cs (adb_destroy g)"

definition nothing_up :: adb_globals where
  "nothing_up = \<lparr>adb_initialized = False, platform_up = False, tls_up = False, key_loaded = False, client_cert = False\<rparr>"

text \<open>Before \<open>adb_init\<close> has succeeded nothing is set up.\<close>

definition settled :: "'k credentials \<Rightarrow> bool" where
  "settled st \<longleftrightarrow>
     (\<not> started st \<longrightarrow> \<not> crypto_initialized st \<and> \<not> tls_initialized st \<and> \<not> own_cert st) \<and>
     (started st \<longrightarrow> tls_initialized st)"

lemma init_simulates:
  assumes "credentials_init lib p h st = Some (ok, st1)" and "settled st"
  shows "settled st1 \<and> (\<exists>up1. adb_init (env_of lib p h) (globals_of up st) = (ok, globals_of up1 st1))"
  using assms
  by (auto simp: credentials_init_def adb_init_def globals_of_def env_of_def settled_def tls_init_def created_def freed_def
      load_default_key_def crypto_load_key_def tls_configure_client_cert_def generate_self_signed_cert_def
      crypto_get_pk_context_def crypto_get_ctr_drbg_def cert_made_def Let_def split: if_splits option.splits prod.splits)

lemma destroy_simulates:
  assumes "settled st"
  shows "settled (credentials_destroy st) \<and> (\<exists>up1. adb_destroy (globals_of up st) = globals_of up1 (credentials_destroy st))"
  using assms
  by (auto simp: credentials_destroy_def adb_destroy_def globals_of_def settled_def crypto_free_def tls_cleanup_def freed_def)

lemma calls_simulate:
  assumes "credential_calls lib cs st = Some (oks, st1)" and "settled st"
  shows "\<exists>up1. adb_calls lib cs (globals_of up st) = (oks, globals_of up1 st1)"
  using assms
proof (induction lib cs st arbitrary: oks st1 up rule: credential_calls.induct)
  case (2 lib p h cs st)
  obtain ok st2 oks2 where i: "credentials_init lib p h st = Some (ok, st2)" "credential_calls lib cs st2 = Some (oks2, st1)"
    "oks = ok # oks2" using 2(2) by (auto split: option.splits)
  obtain up2 where "adb_init (env_of lib p h) (globals_of up st) = (ok, globals_of up2 st2)" "settled st2"
    using init_simulates [OF i(1) 2(3)] by blast
  with 2(1) [OF i(1) refl i(2), of up2] i(3) show ?case by auto
next
  case (3 lib cs st)
  obtain up2 where "adb_destroy (globals_of up st) = globals_of up2 (credentials_destroy st)" "settled (credentials_destroy st)"
    using destroy_simulates [OF 3(3)] by blast
  with 3(1) [of oks st1 up2] 3(2) show ?case by auto
qed auto


section \<open>A concrete library\<close>

text \<open>Keys are the exponents of the modulus 3233; the serial form of a certificate is empty.\<close>

fun digits_of :: "nat \<Rightarrow> nat \<Rightarrow> bytes" where
  "digits_of 0 n = []"
| "digits_of (Suc k) n = word_of_nat (n mod 256) # digits_of k (n div 256)"

fun mpi_length :: "nat \<Rightarrow> nat" where
  "mpi_length n = (if n = 0 then 0 else Suc (mpi_length (n div 256)))"

declare mpi_length.simps [simp del]

lemma digits_of_value: "length (digits_of k n) = k \<and> (n < 256 ^ k \<longrightarrow> le_value (digits_of k n) = n)"
proof (induction k arbitrary: n)
  case (Suc k)
  have "unat (word_of_nat (n mod 256) :: byte) = n mod 256" by (simp add: unat_of_nat)
  moreover have "n div 256 < 256 ^ k" if "n < 256 ^ Suc k" using that by (simp add: less_mult_imp_div_less mult.commute)
  ultimately show ?case using Suc [of "n div 256"] by simp
qed simp

lemma mpi_length_bound: "n < 256 ^ mpi_length n \<and> (\<forall>k. n < 256 ^ k \<longrightarrow> mpi_length n \<le> k)"
proof (induction n rule: mpi_length.induct)
  case (1 n)
  show ?case
  proof (cases "n = 0")
    case False
    then have l: "mpi_length n = Suc (mpi_length (n div 256))" by (subst mpi_length.simps) simp
    have "n < 256 * 256 ^ mpi_length (n div 256)" using 1 [OF False] by (simp add: div_less_iff_less_mult mult.commute)
    moreover have "Suc (mpi_length (n div 256)) \<le> k" if k: "n < 256 ^ k" for k
    proof (cases k)
      case (Suc j)
      then show ?thesis using 1 [OF False] k by (simp add: less_mult_imp_div_less mult.commute)
    qed (use k False in simp)
    ultimately show ?thesis using l by simp
  qed (simp add: mpi_length.simps)
qed

definition example_mbedtls :: "nat mbedtls" where
  "example_mbedtls =
     \<lparr>seed_ok = True, defaults_ok = True, parse_keyfile = (\<lambda>p. if p = adb_key_path ''home'' then Some 17 else None),
      pk_sign = (\<lambda>k t. Some t), pk_rsa = (\<lambda>k. Some (3233, k)), export_ok = True, mpi_size = mpi_length,
      mpi_write_binary = (\<lambda>n k. rev (digits_of k n)), mpi_write_binary_le = (\<lambda>n k. digits_of k n),
      write_der = (\<lambda>k. Some []), parse_der = (\<lambda>_. True), setup_ok = True, copy_ok = True\<rparr>"

lemma example_documented: "mpi_documented example_mbedtls"
  using mpi_length_bound digits_of_value by (simp add: mpi_documented_def example_mbedtls_def be_value_def)

definition example_credentials :: "nat credentials" where
  "example_credentials =
     \<lparr>crypto_initialized = True, tls_initialized = True, pk = Some 17,
      live = {Pk, Entropy, Ctr_Drbg, Ssl_Config, Tls_Entropy, Tls_Ctr_Drbg, Client_Cert, Client_Key}, own_cert = True,
      started = True\<rparr>"

lemma example_started: "credentials_init example_mbedtls True (Some ''home'') no_credentials = Some (True, example_credentials)"
  by (auto simp: credentials_init_def no_credentials_def tls_init_def created_def freed_def load_default_key_def
      crypto_load_key_def tls_configure_client_cert_def generate_self_signed_cert_def crypto_get_pk_context_def
      crypto_get_ctr_drbg_def example_mbedtls_def example_credentials_def Let_def)

theorem public_key_roundtrip_witness:
  "be_value (take 256 (snd (crypto_get_public_key example_mbedtls (replicate 300 7) example_credentials))) = 3233 \<and>
     le_value (take 4 (drop 256 (snd (crypto_get_public_key example_mbedtls (replicate 300 7) example_credentials)))) = 17"
proof -
  have c: "crypto_initialized example_credentials" "pk example_credentials = Some 17" "pk_rsa example_mbedtls 17 = Some (3233, 17)"
    "export_ok example_mbedtls" by (simp_all add: example_credentials_def example_mbedtls_def)
  from public_key_roundtrip [OF example_documented c, of "replicate 300 7"] show ?thesis by auto
qed



end
