(* ===== verification/Server_Relay.thy ===== *)
theory Server_Relay
  imports Adb Device_Sockets
begin

text \<open>
  The two threads of \<open>src/device/server.c\<close> that share the connection to the device: the reader,
  which takes every ADB message and passes the payloads of the video, audio and control
  channels on to local sockets, and the control sender, which wraps what the application
  writes into \<open>WRTE\<close> messages. A run is any interleaving of their iterations; the lock around
  the sends makes each send one step.
\<close>

section \<open>The shared structure\<close>

text \<open>
  \<open>adb_reader_t\<close>. A channel pointer is an index into the connection's table. \<open>video_out\<close>,
  \<open>audio_out\<close> and \<open>ctrl_out\<close> are the write ends of the socket pairs, \<open>ctrl_in\<close> what the
  application writes into the control pair. \<open>reader_buf\<close> is the reader's payload buffer, \<open>None\<close>
  when its allocation failed, and \<open>sender_alive\<close> whether the sender's loop goes on.
\<close>

record adb_reader =
  conn :: adb_connection
  video_chan :: "nat option"
  audio_chan :: "nat option"
  ctrl_chan :: "nat option"
  video_out :: outbound
  audio_out :: outbound
  ctrl_out :: outbound
  ctrl_in :: inbound
  running :: bool
  reader_buf :: "bytes option"
  sender_alive :: bool

section \<open>The control sender\<close>

definition ctrl_sender_turn :: "services \<Rightarrow> adb_reader \<Rightarrow> adb_reader" where
  "ctrl_sender_turn sv r =
     (if \<not> sender_alive r then r
      else if \<not> running r then r\<lparr>sender_alive := False\<rparr>
      else case recv 1024 (ctrl_in r) of
        (Got buf, s) \<Rightarrow>
          (case ctrl_chan r of
             Some i \<Rightarrow>
               let ch = channels (conn r) ! i
               in if chan_state ch = CHAN_OPEN \<and> remote_id ch \<noteq> 0
                  then r\<lparr>ctrl_in := s,
                         conn := snd (adb_send_msg_conn (malloc sv) ADB_WRTE (local_id ch) (remote_id ch)
                                        buf True (conn r))\<rparr>
                  else r\<lparr>ctrl_in := s\<rparr>
           | None \<Rightarrow> r\<lparr>ctrl_in := s\<rparr>)
      | (Err_Would_Block, s) \<Rightarrow> r\<lparr>ctrl_in := s\<rparr>
      | (_, s) \<Rightarrow> r\<lparr>ctrl_in := s, sender_alive := False\<rparr>)"

section \<open>The reader\<close>

text \<open>A channel that has no remote id yet takes the one of the message.\<close>

definition claim_channel :: "nat option \<Rightarrow> u32 \<Rightarrow> adb_connection \<Rightarrow> adb_connection" where
  "claim_channel chan rid c =
     (case chan of
        Some i \<Rightarrow> if remote_id (channels c ! i) = 0
                  then c\<lparr>channels := (channels c)[i := (channels c ! i)\<lparr>remote_id := rid\<rparr>]\<rparr> else c
      | None \<Rightarrow> c)"

definition chan_id :: "adb_connection \<Rightarrow> nat option \<Rightarrow> u32 option" where
  "chan_id c chan = map_option (\<lambda>i. remote_id (channels c ! i)) chan"

text \<open>The payload goes to one socket, with one \<open>send\<close> whose result is not looked at.\<close>

definition relay_wrte :: "services \<Rightarrow> adb_message \<Rightarrow> bytes \<Rightarrow> adb_reader \<Rightarrow> adb_reader" where
  "relay_wrte sv msg pl r =
     (let c1 = claim_channel (audio_chan r) (arg0 msg) (claim_channel (video_chan r) (arg0 msg) (conn r));
          c2 = snd (adb_send_msg_conn (malloc sv) ADB_OKAY (arg1 msg) (arg0 msg) [] True c1);
          r1 = r\<lparr>conn := c2\<rparr>;
          data = take (unat (data_length msg)) pl
      in if chan_id c2 (video_chan r) = Some (arg0 msg) \<and> data_length msg > 0
         then r1\<lparr>video_out := snd (send data (video_out r))\<rparr>
         else if chan_id c2 (audio_chan r) = Some (arg0 msg) \<and> data_length msg > 0
         then r1\<lparr>audio_out := snd (send data (audio_out r))\<rparr>
         else if chan_id c2 (ctrl_chan r) = Some (arg0 msg) \<and> data_length msg > 0
         then r1\<lparr>ctrl_out := snd (send data (ctrl_out r))\<rparr>
         else r1)"

text \<open>The local update on an \<open>OKAY\<close>; every other message goes to the session layer.\<close>

definition relay_message :: "services \<Rightarrow> bytes \<Rightarrow> adb_message \<Rightarrow> bytes \<Rightarrow> adb_reader \<Rightarrow> adb_reader" where
  "relay_message sv junk msg pl r =
     (if command msg = ADB_WRTE then relay_wrte sv msg pl r
      else if command msg = ADB_OKAY then
        r\<lparr>conn := (conn r)\<lparr>channels := open_channel_entry (arg1 msg) (arg0 msg) (channels (conn r))\<rparr>\<rparr>
      else r\<lparr>conn := session_handle_message sv junk msg pl (conn r)\<rparr>)"

definition reader_turn :: "services \<Rightarrow> bytes \<Rightarrow> adb_reader \<Rightarrow> adb_reader" where
  "reader_turn sv junk r =
     (case reader_buf r of
        None \<Rightarrow> r
      | Some pl \<Rightarrow>
          if \<not> running r then r
          else case adb_recv_msg_conn (int ADB_MAX_PAYLOAD) True zero_header pl (conn r) of
            (m, c1) \<Rightarrow>
              (let r1 = r\<lparr>conn := c1, reader_buf := Some (out_payload m)\<rparr>
               in case status m of
                    Recv_Ok \<Rightarrow> relay_message sv junk (out_hdr m) (out_payload m) r1
                  | Recv_Overrun \<Rightarrow> r1\<lparr>conn := c1\<lparr>fault := True\<rparr>, running := False\<rparr>
                  | _ \<Rightarrow> r1\<lparr>running := False\<rparr>))"

datatype relay_turn = Reader | Sender

fun relay_run :: "services \<Rightarrow> bytes \<Rightarrow> relay_turn list \<Rightarrow> adb_reader \<Rightarrow> adb_reader" where
  "relay_run sv junk [] r = r"
| "relay_run sv junk (Reader # ts) r = relay_run sv junk ts (reader_turn sv junk r)"
| "relay_run sv junk (Sender # ts) r = relay_run sv junk ts (ctrl_sender_turn sv r)"

section \<open>What the relay promises\<close>

text \<open>The payloads of a stream of messages that belong to one channel, and the answers to it.\<close>

definition routed :: "u32 option \<Rightarrow> (adb_message \<times> bytes) list \<Rightarrow> bytes" where
  "routed rid fs = concat (map snd (filter (\<lambda>f. command (fst f) = ADB_WRTE \<and> rid = Some (arg0 (fst f))) fs))"

definition okay_bytes :: "adb_message \<Rightarrow> bytes" where
  "okay_bytes m = header_bytes (sent_message ADB_OKAY (arg1 m) (arg0 m) [] True)"

definition answers :: "(adb_message \<times> bytes) list \<Rightarrow> bytes list" where
  "answers fs = map (\<lambda>f. okay_bytes (fst f)) (filter (\<lambda>f. command (fst f) = ADB_WRTE) fs)"

text \<open>Channels whose ids are known and tell them apart.\<close>

definition apart :: "adb_reader \<Rightarrow> bool" where
  "apart r \<longleftrightarrow>
     (let v = chan_id (conn r) (video_chan r); a = chan_id (conn r) (audio_chan r);
          k = chan_id (conn r) (ctrl_chan r)
      in v \<noteq> Some 0 \<and> a \<noteq> Some 0 \<and> (v = None \<or> v \<noteq> a \<and> v \<noteq> k) \<and> (a = None \<or> a \<noteq> k))"

text \<open>The reader runs, no socket blocks, and the control channel is open with the given ids.\<close>

definition relaying :: "nat \<Rightarrow> u32 \<Rightarrow> u32 \<Rightarrow> adb_reader \<Rightarrow> bool" where
  "relaying k lid rid r \<longleftrightarrow> running r \<and> reader_buf r \<noteq> None \<and> idle_plain (conn r) \<and>
     sends (video_out r) = [] \<and> sends (audio_out r) = [] \<and> sends (ctrl_out r) = [] \<and> apart r \<and>
     (\<forall>i. video_chan r = Some i \<or> audio_chan r = Some i \<longrightarrow> i < length (channels (conn r))) \<and>
     ctrl_chan r = Some k \<and> k < length (channels (conn r)) \<and>
     chan_state (channels (conn r) ! k) = CHAN_OPEN \<and>
     local_id (channels (conn r) ! k) = lid \<and> remote_id (channels (conn r) ! k) = rid \<and> rid \<noteq> 0"

text \<open>The device's messages: \<open>WRTE\<close>, and \<open>OKAY\<close> that repeats the ids of the table.\<close>

definition streaming :: "adb_channel list \<Rightarrow> (adb_message \<times> bytes) list \<Rightarrow> bool" where
  "streaming chs fs \<longleftrightarrow> (\<forall>(m, d) \<in> set fs. valid_frame (int ADB_MAX_PAYLOAD) True m d \<and>
     (command m = ADB_WRTE \<or>
      command m = ADB_OKAY \<and> (\<forall>ch \<in> set chs. local_id ch = arg1 m \<longrightarrow> remote_id ch = arg0 m)))"

lemma open_entry_consistent:
  assumes "\<forall>ch \<in> set chs. local_id ch = lid \<longrightarrow> remote_id ch = rid"
  shows "length (open_channel_entry lid rid chs) = length chs"
    and "i < length chs \<Longrightarrow> local_id (open_channel_entry lid rid chs ! i) = local_id (chs ! i)"
    and "i < length chs \<Longrightarrow> remote_id (open_channel_entry lid rid chs ! i) = remote_id (chs ! i)"
    and "i < length chs \<Longrightarrow> chan_state (chs ! i) = CHAN_OPEN \<Longrightarrow>
           chan_state (open_channel_entry lid rid chs ! i) = CHAN_OPEN"
proof -
  show "length (open_channel_entry lid rid chs) = length chs" by (simp add: open_channel_entry_def)
  have "i < length chs \<longrightarrow>
      local_id (open_channel_entry lid rid chs ! i) = local_id (chs ! i) \<and>
      remote_id (open_channel_entry lid rid chs ! i) = remote_id (chs ! i) \<and>
      (chan_state (chs ! i) = CHAN_OPEN \<longrightarrow> chan_state (open_channel_entry lid rid chs ! i) = CHAN_OPEN)" for i
    using assms
  proof (induction chs arbitrary: i)
    case Nil
    then show ?case by simp
  next
    case (Cons ch chs)
    then show ?case by (cases i) (auto simp: open_channel_entry_def)
  qed
  then show "i < length chs \<Longrightarrow> local_id (open_channel_entry lid rid chs ! i) = local_id (chs ! i)"
    "i < length chs \<Longrightarrow> remote_id (open_channel_entry lid rid chs ! i) = remote_id (chs ! i)"
    "i < length chs \<Longrightarrow> chan_state (chs ! i) = CHAN_OPEN \<Longrightarrow>
           chan_state (open_channel_entry lid rid chs ! i) = CHAN_OPEN" by blast+
qed

lemma relaying_cong:
  assumes "relaying k lid rid r" and "channels (conn r') = channels (conn r)" and "idle_plain (conn r')"
    and "video_chan r' = video_chan r" "audio_chan r' = audio_chan r" "ctrl_chan r' = ctrl_chan r"
    and "sends (video_out r') = []" "sends (audio_out r') = []" "sends (ctrl_out r') = []"
    and "running r'" "reader_buf r' \<noteq> None"
  shows "relaying k lid rid r'"
proof -
  have "chan_id (conn r') = chan_id (conn r)" by (simp add: chan_id_def assms(2) fun_eq_iff)
  then have "apart r' = apart r" using assms(4-6) by (simp add: apart_def)
  with assms show ?thesis by (simp add: relaying_def)
qed

lemma relaying_chan_id_okay:
  assumes "relaying k lid rid r" and "\<forall>ch \<in> set (channels (conn r)). local_id ch = l \<longrightarrow> remote_id ch = x"
    and "chan = video_chan r \<or> chan = audio_chan r \<or> chan = ctrl_chan r"
  shows "chan_id ((conn r)\<lparr>channels := open_channel_entry l x (channels (conn r))\<rparr>) chan = chan_id (conn r) chan"
  using assms open_entry_consistent(3) [OF assms(2)]
  by (auto simp: chan_id_def relaying_def intro!: option.map_cong0)

lemma streaming_okay:
  assumes "streaming chs fs" and "\<forall>ch \<in> set chs. local_id ch = l \<longrightarrow> remote_id ch = x"
  shows "streaming (open_channel_entry l x chs) fs"
proof -
  have "\<exists>ch' \<in> set chs. local_id ch' = local_id ch \<and> remote_id ch' = remote_id ch"
    if "ch \<in> set (open_channel_entry l x chs)" for ch
    using that open_entry_consistent [OF assms(2)] by (metis in_set_conv_nth)
  with assms(1) show ?thesis by (fastforce simp: streaming_def)
qed

text \<open>What one iteration of the reader does with the message in front.\<close>

definition relayed :: "adb_message \<times> bytes \<Rightarrow> adb_reader \<Rightarrow> adb_reader \<Rightarrow> bool" where
  "relayed f r r' \<longleftrightarrow>
     video_chan r' = video_chan r \<and> audio_chan r' = audio_chan r \<and> ctrl_chan r' = ctrl_chan r \<and>
     (\<forall>chan \<in> {video_chan r, audio_chan r, ctrl_chan r}. chan_id (conn r') chan = chan_id (conn r) chan) \<and>
     wire (video_out r') = wire (video_out r) @ routed (chan_id (conn r) (video_chan r)) [f] \<and>
     wire (audio_out r') = wire (audio_out r) @ routed (chan_id (conn r) (audio_chan r)) [f] \<and>
     wire (ctrl_out r') = wire (ctrl_out r) @ routed (chan_id (conn r) (ctrl_chan r)) [f] \<and>
     wire (tx (conn r')) = wire (tx (conn r)) @ concat (answers [f]) \<and> ctrl_in r' = ctrl_in r"

lemma relay_wrte_step:
  assumes rel: "relaying k lid rid r" and cmd: "command m = ADB_WRTE"
    and len: "length d = unat (data_length m)"
  shows "relaying k lid rid (relay_wrte sv m (blit d pl) r) \<and> relayed (m, d) r (relay_wrte sv m (blit d pl) r) \<and>
     rx (conn (relay_wrte sv m (blit d pl) r)) = rx (conn r) \<and>
     channels (conn (relay_wrte sv m (blit d pl) r)) = channels (conn r)"
proof -
  let ?c = "conn r"
  have claim: "claim_channel (audio_chan r) (arg0 m) (claim_channel (video_chan r) (arg0 m) ?c) = ?c"
    using rel by (auto simp: relaying_def apart_def Let_def claim_channel_def chan_id_def split: option.splits)
  define c2 where "c2 = ?c\<lparr>tx := (tx ?c)\<lparr>wire := wire (tx ?c) @ okay_bytes m\<rparr>\<rparr>"
  have idle: "idle_plain ?c" using rel by (simp add: relaying_def)
  have snd: "snd (adb_send_msg_conn (malloc sv) ADB_OKAY (arg1 m) (arg0 m) [] True ?c) = c2"
    by (simp add: send_idle_plain [OF idle] c2_def okay_bytes_def)
  have d: "take (unat (data_length m)) (blit d pl) = d" "data_length m > 0 \<longleftrightarrow> d \<noteq> []"
    using len by (simp_all add: blit_def word_greater_zero_iff unat_eq_0 flip: length_0_conv)
  have ids: "chan_id c2 chan = chan_id ?c chan" for chan by (simp add: c2_def chan_id_def)
  have idle2: "idle_plain c2" using idle by (simp add: c2_def idle_plain_def)
  obtain v where v: "chan_id ?c (video_chan r) = v" by simp
  obtain a where a: "chan_id ?c (audio_chan r) = a" by simp
  obtain q where q: "chan_id ?c (ctrl_chan r) = q" by simp
  have eq: "relay_wrte sv m (blit d pl) r =
     (if v = Some (arg0 m) \<and> d \<noteq> [] then r\<lparr>conn := c2, video_out := snd (send d (video_out r))\<rparr>
      else if a = Some (arg0 m) \<and> d \<noteq> [] then r\<lparr>conn := c2, audio_out := snd (send d (audio_out r))\<rparr>
      else if q = Some (arg0 m) \<and> d \<noteq> [] then r\<lparr>conn := c2, ctrl_out := snd (send d (ctrl_out r))\<rparr>
      else r\<lparr>conn := c2\<rparr>)"
    by (simp add: relay_wrte_def claim snd d ids v a q Let_def)
  have sends: "sends (video_out r) = []" "sends (audio_out r) = []" "sends (ctrl_out r) = []"
    using rel by (simp_all add: relaying_def)
  have ap: "v = None \<or> v \<noteq> a \<and> v \<noteq> q" "a = None \<or> a \<noteq> q"
    using rel by (simp_all add: relaying_def apart_def Let_def v a q)
  have run: "running r" "reader_buf r \<noteq> None" using rel by (simp_all add: relaying_def)
  have chs: "channels c2 = channels ?c" by (simp add: c2_def)
  have "relaying k lid rid (relay_wrte sv m (blit d pl) r)"
    by (rule relaying_cong [OF rel]) (use run sends idle2 chs in \<open>simp_all add: eq send_def\<close>)
  moreover have "relayed (m, d) r (relay_wrte sv m (blit d pl) r)"
    unfolding relayed_def v a q eq using sends ap
    by (auto simp: send_def routed_def answers_def cmd c2_def ids [unfolded c2_def])
  moreover have "rx (conn (relay_wrte sv m (blit d pl) r)) = rx ?c \<and>
      channels (conn (relay_wrte sv m (blit d pl) r)) = channels ?c"
    unfolding eq by (simp add: c2_def)
  ultimately show ?thesis by blast
qed

lemma relay_okay_step:
  assumes rel: "relaying k lid rid r" and cmd: "command m = ADB_OKAY"
    and same: "\<forall>ch \<in> set (channels (conn r)). local_id ch = arg1 m \<longrightarrow> remote_id ch = arg0 m"
  shows "relaying k lid rid (relay_message sv junk m pl r) \<and> relayed (m, d) r (relay_message sv junk m pl r) \<and>
     rx (conn (relay_message sv junk m pl r)) = rx (conn r) \<and>
     channels (conn (relay_message sv junk m pl r)) = open_channel_entry (arg1 m) (arg0 m) (channels (conn r))"
proof -
  let ?chs = "open_channel_entry (arg1 m) (arg0 m) (channels (conn r))"
  have eq: "relay_message sv junk m pl r = r\<lparr>conn := (conn r)\<lparr>channels := ?chs\<rparr>\<rparr>"
    by (simp add: relay_message_def cmd adb_commands)
  note ids = relaying_chan_id_okay [OF rel same]
  note e = open_entry_consistent [OF same]
  have apart_r: "apart r" using rel by (simp add: relaying_def)
  have ap: "apart (r\<lparr>conn := (conn r)\<lparr>channels := ?chs\<rparr>\<rparr>)"
    using apart_r by (simp add: apart_def ids)
  have "idle_plain ((conn r)\<lparr>channels := ?chs\<rparr>)" using rel by (simp add: relaying_def idle_plain_def)
  then have "relaying k lid rid (relay_message sv junk m pl r)"
    using rel ap unfolding eq relaying_def by (simp add: e)
  moreover have "relayed (m, d) r (relay_message sv junk m pl r)"
    unfolding relayed_def eq by (simp add: ids routed_def answers_def cmd adb_commands)
  ultimately show ?thesis unfolding eq by simp
qed

lemma reader_turn_step:
  assumes rel: "relaying k lid rid r" and st: "streaming (channels (conn r)) ((m, d) # fs)"
    and av: "ready (rx (conn r)) = frame_bytes (m, d) @ rest"
  shows "relaying k lid rid (reader_turn sv junk r) \<and> relayed (m, d) r (reader_turn sv junk r) \<and>
     streaming (channels (conn (reader_turn sv junk r))) fs \<and> ready (rx (conn (reader_turn sv junk r))) = rest \<and>
     (command m = ADB_WRTE \<longrightarrow> channels (conn (reader_turn sv junk r)) = channels (conn r))"
proof -
  from rel obtain pl where pl: "reader_buf r = Some pl" and run: "running r"
    and idle: "idle_plain (conn r)" by (auto simp: relaying_def)
  have t: "tls (conn r) = None" using idle by (simp add: idle_plain_def)
  have vf: "valid_frame (int ADB_MAX_PAYLOAD) True m d"
    and kind: "command m = ADB_WRTE \<or> command m = ADB_OKAY \<and>
      (\<forall>ch \<in> set (channels (conn r)). local_id ch = arg1 m \<longrightarrow> remote_id ch = arg0 m)"
    and st': "streaming (channels (conn r)) fs" using st by (auto simp: streaming_def)
  have "arriving (conn r) = header_bytes m @ d @ rest" using av t by (simp add: arriving_def frame_bytes_def)
  then obtain c1 where r1: "adb_recv_msg_conn (int ADB_MAX_PAYLOAD) True zero_header pl (conn r) =
      (\<lparr>status = Recv_Ok, out_hdr = m, out_payload = blit d pl\<rparr>, c1)" and rest: "arriving c1 = rest"
    using recv_conn_frame [of "int ADB_MAX_PAYLOAD" True zero_header pl "conn r" m "blit d pl" rest] vf by blast
  note f = recv_fields [OF r1]
  have t1: "tls c1 = None" using recv_tls_None [OF r1] t by simp
  define r2 where "r2 = r\<lparr>conn := c1, reader_buf := Some (blit d pl)\<rparr>"
  have turn: "reader_turn sv junk r = relay_message sv junk m (blit d pl) r2"
    by (simp add: reader_turn_def pl run r1 r2_def Let_def)
  have rel2: "relaying k lid rid r2"
    by (rule relaying_cong [OF rel]) (use rel f t1 in \<open>simp_all add: r2_def relaying_def idle_plain_def\<close>)
  have chs: "channels (conn r2) = channels (conn r)" and rdy: "ready (rx (conn r2)) = rest"
    using f rest t1 by (simp_all add: r2_def arriving_def)
  have ids: "chan_id (conn r2) = chan_id (conn r)" by (simp add: chan_id_def chs fun_eq_iff)
  have same: "relayed fr r2 r' = relayed fr r r'" for fr r'
    unfolding relayed_def ids using f by (simp add: r2_def)
  have len: "length d = unat (data_length m)" using vf by (simp add: valid_frame_def)
  from kind show ?thesis
  proof
    assume w: "command m = ADB_WRTE"
    then have "relay_message sv junk m (blit d pl) r2 = relay_wrte sv m (blit d pl) r2"
      by (simp add: relay_message_def)
    with relay_wrte_step [OF rel2 w len, of sv pl] turn same rdy chs st' show ?thesis by simp
  next
    assume o: "command m = ADB_OKAY \<and>
      (\<forall>ch \<in> set (channels (conn r)). local_id ch = arg1 m \<longrightarrow> remote_id ch = arg0 m)"
    then have "\<forall>ch \<in> set (channels (conn r2)). local_id ch = arg1 m \<longrightarrow> remote_id ch = arg0 m" by (simp add: chs)
    with relay_okay_step [OF rel2 o [THEN conjunct1] this, of sv junk "blit d pl" d] turn same rdy chs
      streaming_okay [OF st' o [THEN conjunct2]] o show ?thesis by (simp add: adb_commands)
  qed
qed

lemma ctrl_sender_turn_step:
  assumes rel: "relaying k lid rid r" and r': "ctrl_sender_turn sv r = r'"
  shows "\<exists>part. length part \<le> 1024 \<and> relaying k lid rid r' \<and> (sender_alive r' \<longrightarrow> sender_alive r) \<and>
     (if sender_alive r' then stream (ctrl_in r) = part @ stream (ctrl_in r') else part = []) \<and>
     r' = r\<lparr>ctrl_in := ctrl_in r', sender_alive := sender_alive r',
       conn := (conn r)\<lparr>tx := (tx (conn r))\<lparr>wire := wire (tx (conn r)) @
         (if part = [] then [] else wrte_bytes lid rid part)\<rparr>\<rparr>\<rparr>"
proof -
  have idle: "idle_plain (conn r)" and run: "running r" and k: "ctrl_chan r = Some k"
    and op: "chan_state (channels (conn r) ! k) = CHAN_OPEN" "local_id (channels (conn r) ! k) = lid"
      "remote_id (channels (conn r) ! k) = rid" "rid \<noteq> 0"
    using rel by (auto simp: relaying_def)
  obtain rr s where rr: "recv 1024 (ctrl_in r) = (rr, s)" by (cases "recv 1024 (ctrl_in r)")
  have upd: "relaying k lid rid (r\<lparr>ctrl_in := s, sender_alive := b, conn := (conn r)\<lparr>tx := (tx (conn r))\<lparr>wire := w\<rparr>\<rparr>\<rparr>)" for w b s
    by (rule relaying_cong [OF rel]) (use rel in \<open>simp_all add: relaying_def idle_plain_def\<close>)
  have idem: "r\<lparr>ctrl_in := s, sender_alive := b, conn := (conn r)\<lparr>tx := (tx (conn r))\<lparr>wire := wire (tx (conn r))\<rparr>\<rparr>\<rparr> =
      r\<lparr>ctrl_in := s, sender_alive := b\<rparr>" for s b by simp
  show ?thesis
  proof (cases "sender_alive r")
    case False
    then have "r' = r" using r' by (simp add: ctrl_sender_turn_def)
    then show ?thesis using False rel by (intro exI [of _ "[]"]) simp
  next
    case alive: True
    show ?thesis
    proof (cases rr)
      case (Got bs)
      have g: "0 < length bs" "length bs \<le> 1024" using recv_Got [of 1024 "ctrl_in r" bs s] rr Got by simp_all
      have "stream (ctrl_in r) = bs @ stream s" using recv_stream [of 1024 "ctrl_in r"] rr Got by simp
      moreover have "r' = r\<lparr>ctrl_in := s, sender_alive := True, conn := (conn r)\<lparr>tx := (tx (conn r))\<lparr>wire :=
          wire (tx (conn r)) @ wrte_bytes lid rid bs\<rparr>\<rparr>\<rparr>"
        by (simp add: r' [symmetric] alive ctrl_sender_turn_def run rr Got k op Let_def send_idle_plain [OF idle] wrte_bytes_def)
      ultimately show ?thesis using g upd alive by (intro exI [of _ bs]) simp
    next
      case Err_Would_Block
      have "stream (ctrl_in r) = stream s" using recv_stream [of 1024 "ctrl_in r"] rr Err_Would_Block by simp
      moreover have "r' = r\<lparr>ctrl_in := s, sender_alive := True\<rparr>"
        by (simp add: r' [symmetric] alive ctrl_sender_turn_def run rr Err_Would_Block)
      ultimately show ?thesis
        using upd [of "wire (tx (conn r))" True s] alive by (intro exI [of _ "[]"]) simp
    next
      case Closed
      have "r' = r\<lparr>ctrl_in := s, sender_alive := False\<rparr>"
        by (simp add: r' [symmetric] alive ctrl_sender_turn_def run rr Closed)
      then show ?thesis using upd [of "wire (tx (conn r))" False s] by (intro exI [of _ "[]"]) simp
    next
      case Err_Other
      have "r' = r\<lparr>ctrl_in := s, sender_alive := False\<rparr>"
        by (simp add: r' [symmetric] alive ctrl_sender_turn_def run rr Err_Other)
      then show ?thesis using upd [of "wire (tx (conn r))" False s] by (intro exI [of _ "[]"]) simp
    qed
  qed
qed

lemma routed_Cons: "routed rid (f # fs) = routed rid [f] @ routed rid fs"
  by (simp add: routed_def)

lemma answers_Cons: "answers (f # fs) = answers [f] @ answers fs"
  by (simp add: answers_def)

lemma answers_shuffles: "L \<in> shuffles (answers fs) ps \<Longrightarrow> answers [f] @ L \<in> shuffles (answers (f # fs)) ps"
  by (simp add: answers_def Cons_in_shuffles_leftI)

lemma reader_turn_alive [simp]: "sender_alive (reader_turn sv junk r) = sender_alive r"
  by (simp add: reader_turn_def relay_message_def relay_wrte_def Let_def
      split: option.split prod.split recv_status.split)

text \<open>
  What goes to the device in a run: the answers to its messages, and the application's bytes
  in \<open>WRTE\<close> messages of at most 1024 bytes, shuffled, each kind in its order.
\<close>

definition ctrl_relayed ::
  "u32 \<Rightarrow> u32 \<Rightarrow> (adb_message \<times> bytes) list \<Rightarrow> adb_reader \<Rightarrow> adb_reader \<Rightarrow> bool" where
  "ctrl_relayed lid rid fs r r' \<longleftrightarrow>
     (\<exists>parts L. L \<in> shuffles (answers fs) (map (wrte_bytes lid rid) parts) \<and>
        wire (tx (conn r')) = wire (tx (conn r)) @ concat L \<and>
        (\<forall>p \<in> set parts. p \<noteq> [] \<and> length p \<le> 1024) \<and> (\<exists>unsent. stream (ctrl_in r) = concat parts @ unsent) \<and>
        (sender_alive r' \<longrightarrow> sender_alive r \<and> stream (ctrl_in r) = concat parts @ stream (ctrl_in r')) \<and>
        (\<not> sender_alive r \<longrightarrow> parts = []))"

lemma ctrl_relayed_Nil: "ctrl_relayed lid rid [] r r"
  unfolding ctrl_relayed_def by (rule exI [of _ "[]"], rule exI [of _ "[]"]) (simp add: answers_def)

lemma ctrl_relayed_reader:
  assumes "relayed f r r1" and "sender_alive r1 = sender_alive r" and "ctrl_relayed lid rid fs r1 r'"
  shows "ctrl_relayed lid rid (f # fs) r r'"
proof -
  from assms(3) obtain parts L where L: "L \<in> shuffles (answers fs) (map (wrte_bytes lid rid) parts)"
    "wire (tx (conn r')) = wire (tx (conn r1)) @ concat L" "\<forall>p \<in> set parts. p \<noteq> [] \<and> length p \<le> 1024"
    "\<exists>unsent. stream (ctrl_in r1) = concat parts @ unsent"
    "sender_alive r' \<longrightarrow> sender_alive r1 \<and> stream (ctrl_in r1) = concat parts @ stream (ctrl_in r')"
    "\<not> sender_alive r1 \<longrightarrow> parts = []" unfolding ctrl_relayed_def by blast
  show ?thesis
    unfolding ctrl_relayed_def
    by (rule exI [of _ parts], rule exI [of _ "answers [f] @ L"])
      (use L assms(1,2) answers_shuffles [OF L(1), of f] in \<open>simp add: relayed_def\<close>)
qed

lemma ctrl_relayed_sender:
  assumes part: "length part \<le> 1024" "sender_alive r1 \<longrightarrow> sender_alive r"
      "if sender_alive r1 then stream (ctrl_in r) = part @ stream (ctrl_in r1) else part = []"
      "wire (tx (conn r1)) = wire (tx (conn r)) @ (if part = [] then [] else wrte_bytes lid rid part)"
    and "ctrl_relayed lid rid fs r1 r'"
  shows "ctrl_relayed lid rid fs r r'"
proof -
  from assms(5) obtain parts L where L: "L \<in> shuffles (answers fs) (map (wrte_bytes lid rid) parts)"
    "wire (tx (conn r')) = wire (tx (conn r1)) @ concat L" "\<forall>p \<in> set parts. p \<noteq> [] \<and> length p \<le> 1024"
    "\<exists>unsent. stream (ctrl_in r1) = concat parts @ unsent"
    "sender_alive r' \<longrightarrow> sender_alive r1 \<and> stream (ctrl_in r1) = concat parts @ stream (ctrl_in r')"
    "\<not> sender_alive r1 \<longrightarrow> parts = []" unfolding ctrl_relayed_def by blast
  show ?thesis
  proof (cases "part = []")
    case True
    show ?thesis unfolding ctrl_relayed_def
      by (rule exI [of _ parts], rule exI [of _ L])
        (use L part True in \<open>auto split: if_splits\<close>)
  next
    case False
    then have "sender_alive r1" using part(3) by (cases "sender_alive r1") simp_all
    then show ?thesis unfolding ctrl_relayed_def
      by (intro exI [of _ "part # parts"] exI [of _ "wrte_bytes lid rid part # L"])
        (use L part False in \<open>simp add: Cons_in_shuffles_rightI\<close>)
  qed
qed

text \<open>What a run in which the reader takes the frames \<open>fs\<close> does to the sockets and to the connection.\<close>

definition delivers ::
  "nat \<Rightarrow> u32 \<Rightarrow> u32 \<Rightarrow> (adb_message \<times> bytes) list \<Rightarrow> bytes \<Rightarrow> adb_reader \<Rightarrow> adb_reader \<Rightarrow> bool" where
  "delivers k lid rid fs rest r r' \<longleftrightarrow>
     wire (video_out r') = wire (video_out r) @ routed (chan_id (conn r) (video_chan r)) fs \<and>
     wire (audio_out r') = wire (audio_out r) @ routed (chan_id (conn r) (audio_chan r)) fs \<and>
     wire (ctrl_out r') = wire (ctrl_out r) @ routed (chan_id (conn r) (ctrl_chan r)) fs \<and>
     relaying k lid rid r' \<and> ready (rx (conn r')) = rest \<and> ctrl_relayed lid rid fs r r'"

lemma delivers_reader:
  assumes "relayed f r r1" and "sender_alive r1 = sender_alive r" and "delivers k lid rid fs rest r1 r'"
  shows "delivers k lid rid (f # fs) rest r r'"
  using assms ctrl_relayed_reader [OF assms(1,2)] unfolding delivers_def relayed_def routed_Cons [of _ f fs] by simp

text \<open>An iteration of the sender keeps what the reader looks at.\<close>

lemma delivers_sender:
  assumes "relaying k lid rid r" and "ctrl_sender_turn sv r = r1"
  shows "relaying k lid rid r1 \<and> channels (conn r1) = channels (conn r) \<and> rx (conn r1) = rx (conn r) \<and>
     (delivers k lid rid fs rest r1 r' \<longrightarrow> delivers k lid rid fs rest r r')"
proof -
  obtain part where part: "length part \<le> 1024" "relaying k lid rid r1" "sender_alive r1 \<longrightarrow> sender_alive r"
    "if sender_alive r1 then stream (ctrl_in r) = part @ stream (ctrl_in r1) else part = []"
    "r1 = r\<lparr>ctrl_in := ctrl_in r1, sender_alive := sender_alive r1,
     conn := (conn r)\<lparr>tx := (tx (conn r))\<lparr>wire := wire (tx (conn r)) @
       (if part = [] then [] else wrte_bytes lid rid part)\<rparr>\<rparr>\<rparr>"
    using ctrl_sender_turn_step [OF assms] by blast
  have same: "channels (conn r1) = channels (conn r)" "rx (conn r1) = rx (conn r)" "video_chan r1 = video_chan r"
    "audio_chan r1 = audio_chan r" "ctrl_chan r1 = ctrl_chan r" "video_out r1 = video_out r"
    "audio_out r1 = audio_out r" "ctrl_out r1 = ctrl_out r" "wire (tx (conn r1)) = wire (tx (conn r)) @
       (if part = [] then [] else wrte_bytes lid rid part)"
    by (subst part(5), simp)+
  have "chan_id (conn r1) = chan_id (conn r)" by (simp add: chan_id_def same fun_eq_iff)
  moreover have "ctrl_relayed lid rid fs r r'" if "ctrl_relayed lid rid fs r1 r'"
    using that by (rule ctrl_relayed_sender [OF part(1,3,4) same(9)])
  ultimately show ?thesis using part(2) unfolding delivers_def same by simp
qed

lemma relay_run_delivers:
  assumes "relaying k lid rid r" and "streaming (channels (conn r)) fs"
    and "ready (rx (conn r)) = concat (map frame_bytes fs) @ rest"
    and "length (filter (\<lambda>t. t = Reader) turns) = length fs" and "relay_run sv junk turns r = r'"
  shows "delivers k lid rid fs rest r r'"
  using assms
proof (induction turns arbitrary: r fs)
  case Nil
  then show ?case by (simp add: delivers_def routed_def ctrl_relayed_Nil)
next
  case (Cons t turns)
  show ?case
  proof (cases t)
    case Reader
    with Cons.prems(4) obtain f fs' where fs: "fs = f # fs'" by (cases fs) auto
    obtain m d where f: "f = (m, d)" by (cases f)
    obtain r1 where turn: "reader_turn sv junk r = r1" by simp
    have av: "ready (rx (conn r)) = frame_bytes (m, d) @ (concat (map frame_bytes fs') @ rest)"
      using Cons.prems(3) by (simp add: fs f)
    note step = reader_turn_step [OF Cons.prems(1) Cons.prems(2) [unfolded fs f] av, of sv junk, unfolded turn]
    have "relay_run sv junk turns r1 = r'" "length (filter (\<lambda>t. t = Reader) turns) = length fs'"
      using Cons.prems(4,5) Reader turn fs by simp_all
    with step have "delivers k lid rid fs' rest r1 r'" by (intro Cons.IH) simp_all
    then show ?thesis
      unfolding fs using step reader_turn_alive [of sv junk r, unfolded turn] by (intro delivers_reader) (simp_all add: f)
  next
    case Sender
    obtain r1 where r1: "ctrl_sender_turn sv r = r1" by simp
    note step = delivers_sender [OF Cons.prems(1) r1, of fs rest r']
    have "delivers k lid rid fs rest r1 r'"
      using step Cons.prems(2-5) Sender r1 by (intro Cons.IH) simp_all
    with step show ?thesis by blast
  qed
qed

text \<open>C6. In every interleaving of the two threads' iterations, with the ids of the channels known
  and no local socket blocking: the video, the audio and the control socket each get exactly
  the payloads the device wrote on that channel, in order; and the device gets exactly one
  \<open>OKAY\<close> per \<open>WRTE\<close>, in order, shuffled with the application's control bytes, which are
  neither lost nor reordered while the sender runs.\<close>

theorem relay_delivers:
  assumes "relaying k lid rid r" and "streaming (channels (conn r)) fs"
    and "ready (rx (conn r)) = concat (map frame_bytes fs) @ rest"
    and "length (filter (\<lambda>t. t = Reader) turns) = length fs" and "relay_run sv junk turns r = r'"
  shows "wire (video_out r') = wire (video_out r) @ routed (chan_id (conn r) (video_chan r)) fs \<and>
     wire (audio_out r') = wire (audio_out r) @ routed (chan_id (conn r) (audio_chan r)) fs \<and>
     wire (ctrl_out r') = wire (ctrl_out r) @ routed (chan_id (conn r) (ctrl_chan r)) fs \<and>
     (\<exists>parts L. L \<in> shuffles (answers fs) (map (wrte_bytes lid rid) parts) \<and>
        wire (tx (conn r')) = wire (tx (conn r)) @ concat L \<and>
        (\<forall>p \<in> set parts. p \<noteq> [] \<and> length p \<le> 1024) \<and>
        (sender_alive r' \<longrightarrow> stream (ctrl_in r) = concat parts @ stream (ctrl_in r')))"
  using relay_run_delivers [OF assms] unfolding delivers_def ctrl_relayed_def by blast

text \<open>A device that streams on three open channels.\<close>

definition stream_channel :: "u32 \<Rightarrow> u32 \<Rightarrow> adb_chan_state \<Rightarrow> adb_channel" where
  "stream_channel lid rid st =
     \<lparr>local_id = lid, remote_id = rid, service = ''localabstract:scrcpy'', chan_state = st\<rparr>"

definition example_reader :: "adb_channel list \<Rightarrow> (adb_message \<times> bytes) list \<Rightarrow> adb_reader" where
  "example_reader chs fs =
     \<lparr>conn = example_connection\<lparr>channels := chs, rx := [Arrive (concat (map frame_bytes fs))]\<rparr>,
      video_chan = Some 0, audio_chan = Some 1, ctrl_chan = Some 2,
      video_out = \<lparr>sends = [], wire = []\<rparr>, audio_out = \<lparr>sends = [], wire = []\<rparr>,
      ctrl_out = \<lparr>sends = [], wire = []\<rparr>, ctrl_in = [Arrive [7]], running = True, reader_buf = Some [],
      sender_alive = True\<rparr>"

definition example_frames :: "(adb_message \<times> bytes) list" where
  "example_frames =
     [(make_header ADB_WRTE 12 2 2 0, [1, 2]), (make_header ADB_WRTE 13 3 1 0, [9]),
      (make_header ADB_OKAY 14 4 0 0, [])]"

lemma example_frames_streaming:
  "streaming [stream_channel 2 12 CHAN_OPEN, stream_channel 3 13 CHAN_OPEN, stream_channel 4 14 CHAN_OPEN] example_frames"
  by (simp add: streaming_def example_frames_def stream_channel_def valid_frame_def make_header_def
      adb_commands checksum_ok_def ADB_MAX_PAYLOAD_def)

theorem relay_delivers_witness:
  "\<exists>r'. relay_run plain_services [] [Reader, Sender, Reader, Reader]
        (example_reader [stream_channel 2 12 CHAN_OPEN, stream_channel 3 13 CHAN_OPEN, stream_channel 4 14 CHAN_OPEN]
           example_frames) = r' \<and>
     wire (video_out r') = [1, 2] \<and> wire (audio_out r') = [9] \<and> wire (ctrl_out r') = []"
proof -
  let ?chs = "[stream_channel 2 12 CHAN_OPEN, stream_channel 3 13 CHAN_OPEN, stream_channel 4 14 CHAN_OPEN]"
  let ?r = "example_reader ?chs example_frames"
  have rel: "relaying 2 4 14 ?r"
    by (simp add: relaying_def apart_def Let_def chan_id_def example_reader_def stream_channel_def idle_plain_def
        example_connection_def)
  have st: "streaming (channels (conn ?r)) example_frames"
    using example_frames_streaming by (simp add: example_reader_def)
  have av: "ready (rx (conn ?r)) = concat (map frame_bytes example_frames) @ []"
    by (simp add: example_reader_def example_frames_def frame_bytes_def)
  have n: "length (filter (\<lambda>t. t = Reader) [Reader, Sender, Reader, Reader]) = length example_frames"
    by (simp add: example_frames_def)
  have "routed (Some 12) example_frames = [1, 2]" "routed (Some 13) example_frames = [9]"
    "routed (Some 14) example_frames = []"
    by (simp_all add: routed_def example_frames_def make_header_def adb_commands)
  then show ?thesis
    using relay_delivers [OF rel st av n refl, of plain_services "[]"]
    by (simp add: chan_id_def example_reader_def stream_channel_def)
qed

text \<open>Until the device's \<open>OKAY\<close> for the video channel has been read, the first data message of
  any channel is taken for video: output of the shell channel that arrives early goes into
  the video stream, and its remote id is entered for the video channel and, when audio is on,
  for the audio channel as well.\<close>

theorem early_wrte_taken_for_video:
  assumes "running r" and "reader_buf r = Some pl" and "arriving (conn r) = header_bytes m @ d @ rest"
    and "valid_frame (int ADB_MAX_PAYLOAD) True m d" and "command m = ADB_WRTE" and "d \<noteq> []"
    and "video_chan r = Some i" "i < length (channels (conn r))" "remote_id (channels (conn r) ! i) = 0"
    and "audio_chan r = Some j" "j < length (channels (conn r))" "remote_id (channels (conn r) ! j) = 0" "i \<noteq> j"
    and "sends (video_out r) = []" and "reader_turn sv junk r = r'"
  shows "wire (video_out r') = wire (video_out r) @ d \<and>
     remote_id (channels (conn r') ! i) = arg0 m \<and> remote_id (channels (conn r') ! j) = arg0 m"
proof -
  obtain c1 where r1: "adb_recv_msg_conn (int ADB_MAX_PAYLOAD) True zero_header pl (conn r) =
      (\<lparr>status = Recv_Ok, out_hdr = m, out_payload = blit d pl\<rparr>, c1)"
    using recv_conn_frame [of "int ADB_MAX_PAYLOAD" True zero_header pl "conn r" m "blit d pl" rest] assms(3,4) by blast
  note f = recv_fields [OF r1]
  have len: "length d = unat (data_length m)" using assms(4) by (simp add: valid_frame_def)
  have d: "take (unat (data_length m)) (blit d pl) = d" "data_length m > 0"
    using len assms(6) by (simp_all add: blit_def word_greater_zero_iff unat_eq_0 flip: length_0_conv)
  let ?chs = "(channels (conn r))[i := (channels (conn r) ! i)\<lparr>remote_id := arg0 m\<rparr>,
                j := (channels (conn r) ! j)\<lparr>remote_id := arg0 m\<rparr>]"
  define c2 where "c2 = snd (adb_send_msg_conn (malloc sv) ADB_OKAY (arg1 m) (arg0 m) [] True (c1\<lparr>channels := ?chs\<rparr>))"
  have claim: "claim_channel (Some j) (arg0 m) (claim_channel (Some i) (arg0 m) c1) = c1\<lparr>channels := ?chs\<rparr>"
    using assms(7-13) f(3) by (simp add: claim_channel_def)
  have chs: "channels c2 = ?chs" by (simp add: c2_def)
  then have id: "chan_id c2 (Some i) = Some (arg0 m)" using assms(8,13) by (simp add: chan_id_def)
  let ?r1 = "r\<lparr>conn := c1, reader_buf := Some (blit d pl)\<rparr>"
  have "r' = relay_wrte sv m (blit d pl) ?r1"
    using assms(1,2,5,15) r1 by (simp add: reader_turn_def relay_message_def)
  also have "\<dots> = r\<lparr>conn := c2, reader_buf := Some (blit d pl), video_out := snd (send d (video_out r))\<rparr>"
    using d id by (simp add: relay_wrte_def assms(7,10) claim c2_def [symmetric] Let_def)
  finally show ?thesis using assms(8,11,13,14) chs by (simp add: send_def)
qed

theorem early_wrte_taken_for_video_witness:
  "wire (video_out (reader_turn plain_services []
     (example_reader [stream_channel 2 0 CHAN_OPENING, stream_channel 3 0 CHAN_OPENING]
        [(make_header ADB_WRTE 77 1 3 0, [91, 115, 93])]))) = [91, 115, 93]"
proof -
  let ?r = "example_reader [stream_channel 2 0 CHAN_OPENING, stream_channel 3 0 CHAN_OPENING]
        [(make_header ADB_WRTE 77 1 3 0, [91, 115, 93])]"
  have av: "arriving (conn ?r) = header_bytes (make_header ADB_WRTE 77 1 3 0) @ [91, 115, 93] @ []"
    by (simp add: arriving_def example_reader_def example_connection_def frame_bytes_def)
  have vf: "valid_frame (int ADB_MAX_PAYLOAD) True (make_header ADB_WRTE 77 1 3 0) [91, 115, 93]"
    by (simp add: valid_frame_def make_header_def checksum_ok_def ADB_MAX_PAYLOAD_def)
  show ?thesis
    using early_wrte_taken_for_video [of ?r "[]" "make_header ADB_WRTE 77 1 3 0" "[91, 115, 93]" "[]" 0 1
        plain_services "[]", OF _ _ av vf _ _ _ _ _ _ _ _ _ _ refl]
    by (simp add: example_reader_def stream_channel_def make_header_def)
qed

end
