(* ===== verification/Loopback.thy ===== *)
theory Loopback
  imports Prelude
begin

text \<open>
  The pairs of connected sockets the server's threads and the application talk over:
  \<open>create_socketpair\<close> of \<open>src/device/server.c\<close>, a listening socket on the loopback interface that is
  connected to itself, and what the failure path of \<open>server_start\<close> does with a pair that was not made.
\<close>

section \<open>The calls\<close>

type_synonym handle = nat

text \<open>What the operating system answers: the sockets it makes, if it does, and whether each call succeeds;
  the results of \<open>setsockopt\<close> and \<open>getsockname\<close> are not looked at.\<close>

record socket_answers =
  os_listener :: "handle option"
  os_bind :: bool
  os_listen :: bool
  os_client :: "handle option"
  os_connect :: bool
  os_accept :: "handle option"

datatype socket_call = Opened handle | Buffered handle | Closed handle

text \<open>
  \<open>fds\<close> are the two descriptors of the caller, \<open>None\<close> for \<open>INVALID_SOCKFD\<close>. The result has the
  returned number, the descriptors as they are left, and the calls in order.
\<close>

definition create_socketpair ::
  "socket_answers \<Rightarrow> handle option \<times> handle option \<Rightarrow> int \<times> (handle option \<times> handle option) \<times> socket_call list" where
  "create_socketpair ans fds =
     (case os_listener ans of
        None \<Rightarrow> (- 1, fds, [])
      | Some l \<Rightarrow>
          if \<not> os_bind ans then (- 1, fds, [Opened l, Closed l])
          else if \<not> os_listen ans then (- 1, fds, [Opened l, Closed l])
          else case os_client ans of
            None \<Rightarrow> (- 1, (None, snd fds), [Opened l, Closed l])
          | Some c \<Rightarrow>
              if \<not> os_connect ans then (- 1, (Some c, snd fds), [Opened l, Opened c, Closed c, Closed l])
              else case os_accept ans of
                None \<Rightarrow> (- 1, (Some c, None), [Opened l, Opened c, Closed l, Closed c])
              | Some a \<Rightarrow> (0, (Some c, Some a), [Opened l, Opened c, Opened a, Closed l, Buffered a, Buffered c]))"

text \<open>The caller starts from two invalid descriptors; on failure it closes those that are not invalid.\<close>

definition pair_cleanup :: "handle option \<times> handle option \<Rightarrow> socket_call list" where
  "pair_cleanup fds =
     (case fst fds of None \<Rightarrow> [] | Some h \<Rightarrow> [Closed h]) @ (case snd fds of None \<Rightarrow> [] | Some h \<Rightarrow> [Closed h])"

definition pair_made :: "socket_answers \<Rightarrow> bool" where
  "pair_made ans \<longleftrightarrow> \<not> fst (create_socketpair ans (None, None)) < 0"

section \<open>What is left open\<close>

fun socket_step :: "socket_call \<Rightarrow> handle set \<Rightarrow> handle set" where
  "socket_step (Opened h) s = insert h s"
| "socket_step (Buffered h) s = s"
| "socket_step (Closed h) s = s - {h}"

definition still_open :: "socket_call list \<Rightarrow> handle set" where
  "still_open calls = fold socket_step calls {}"

text \<open>Sockets that are open at the same time have different handles.\<close>

definition answers_ok :: "socket_answers \<Rightarrow> bool" where
  "answers_ok ans \<longleftrightarrow>
     distinct (filter (\<lambda>h. h \<noteq> None) [os_listener ans, os_client ans, os_accept ans])"

lemmas socketpair_simps = create_socketpair_def pair_cleanup_def still_open_def answers_ok_def

text \<open>A pair that is made is exactly what stays open; a pair that is not made leaves nothing open.\<close>

lemma create_socketpair_open:
  assumes "answers_ok ans" and "create_socketpair ans (None, None) = (r, (f0, f1), calls)"
  shows "still_open calls = (if r = 0 then {the f0, the f1} else {})" and "r = 0 \<or> r = - 1"
    and "r = 0 \<Longrightarrow> f0 \<noteq> None \<and> f1 \<noteq> None \<and> f0 \<noteq> f1"
  using assms
  by (cases "os_listener ans"; cases "os_client ans"; cases "os_accept ans"; auto simp: socketpair_simps split: if_splits)+

text \<open>
  A pair is made exactly when every call succeeds. When the connection to the listening socket or the
  acceptance fails, the number of the closed client socket stays in the caller's array, and the failure
  path of the server closes it a second time; in every other case each socket is closed once.
\<close>

theorem socketpair_failure_closes_twice:
  assumes "answers_ok ans" and "create_socketpair ans (None, None) = (r, fds, calls)"
  shows "(r = 0 \<longleftrightarrow> os_listener ans \<noteq> None \<and> os_bind ans \<and> os_listen ans \<and> os_client ans \<noteq> None \<and> os_connect ans \<and>
             os_accept ans \<noteq> None) \<and>
     still_open (calls @ pair_cleanup fds) = {} \<and>
     (\<exists>h. count_list (calls @ pair_cleanup fds) (Closed h) = 2) =
       (os_listener ans \<noteq> None \<and> os_bind ans \<and> os_listen ans \<and> os_client ans \<noteq> None \<and> (os_connect ans \<longrightarrow> os_accept ans = None))"
proof -
  have twice: "\<exists>h. count_list [Opened l, Opened c, Closed l, Closed c, Closed c] (Closed h) = 2"
    "\<exists>h. count_list [Opened l, Opened c, Closed c, Closed l, Closed c] (Closed h) = 2" if "l \<noteq> c" for l c
    using that by (auto intro: exI [of _ c])
  show ?thesis
    using assms twice
    by (cases "os_listener ans"; cases "os_client ans"; cases "os_accept ans"; auto simp: socketpair_simps split: if_splits)
qed

theorem socketpair_failure_closes_twice_witness:
  "let ans = \<lparr>os_listener = Some 3, os_bind = True, os_listen = True, os_client = Some 4, os_connect = True, os_accept = None\<rparr>
   in \<exists>h. count_list (snd (snd (create_socketpair ans (None, None))) @
        pair_cleanup (fst (snd (create_socketpair ans (None, None))))) (Closed h) = 2"
proof -
  let ?ans = "\<lparr>os_listener = Some 3, os_bind = True, os_listen = True, os_client = Some 4, os_connect = True, os_accept = None\<rparr>"
  have ok: "answers_ok ?ans" by (simp add: answers_ok_def)
  obtain r fds calls where c: "create_socketpair ?ans (None, None) = (r, fds, calls)" by (rule prod_cases3)
  from socketpair_failure_closes_twice [OF ok c] c show ?thesis by (simp add: Let_def)
qed

lemma pair_made_iff:
  "pair_made ans \<longleftrightarrow> os_listener ans \<noteq> None \<and> os_bind ans \<and> os_listen ans \<and> os_client ans \<noteq> None \<and> os_connect ans \<and>
     os_accept ans \<noteq> None"
  by (auto simp: pair_made_def create_socketpair_def split: option.splits)

end
