(* ===== verification/Server.thy ===== *)
theory Server
  imports Server_Relay Loopback
begin

text \<open>
  Starting and stopping the server on the device, \<open>src/device/server.c\<close>: the address, the push
  of the server file, the command line, the channels, socket pairs and threads, the metadata
  at the head of the video stream, and the cleanup of a failed start.
\<close>

section \<open>Configuration and address\<close>

record server_config =
  serial :: "string option"
  server_path :: "string option"
  local_port :: u16
  max_size :: u32
  video_bit_rate :: u32
  audio_bit_rate :: u32
  video_encoder :: "string option"
  audio_encoder :: "string option"
  control :: bool
  video :: bool
  audio :: bool

definition parse_serial :: "string option \<Rightarrow> nat \<Rightarrow> (string \<times> u16) option" where
  "parse_serial ser host_size =
     (case ser of
        None \<Rightarrow> None
      | Some s \<Rightarrow>
          if s = [] then None
          else case strrchr (CHR '':'') s of
            Some host_len \<Rightarrow>
              if host_len = 0 \<or> host_len \<ge> host_size then None
              else Some (take host_len s, word_of_int (atoi (drop (Suc host_len) s)))
          | None \<Rightarrow> Some (cut host_size s, 5555))"

lemma parse_serial_host_port:
  assumes "h \<noteq> []" and "length h < n" and "p < 65536"
  shows "parse_serial (Some (h @ '':'' @ decimal p)) n = Some (h, word_of_nat p)"
proof -
  have "CHR '':'' \<notin> set (decimal p)" using decimal_digits [of "CHR '':''" p] is_digit_not(4) by blast
  then have "strrchr (CHR '':'') (h @ CHR '':'' # decimal p) = Some (length h)" by (rule strrchr_append)
  then show ?thesis using assms by (simp add: parse_serial_def atoi_decimal)
qed

text \<open>A serial of the form host, colon, decimal port gives back host and port, whatever colons
  the host has itself, as long as it fits its buffer; a serial without a colon is a host with
  port 5555.\<close>

theorem parse_serial_roundtrip:
  assumes "h \<noteq> []" and "length h < n" and "p < 65536"
  shows "parse_serial (Some (h @ '':'' @ decimal p)) n = Some (h, word_of_nat p) \<and>
     (CHR '':'' \<notin> set h \<longrightarrow> parse_serial (Some h) n = Some (h, 5555))"
  using parse_serial_host_port [OF assms] assms(1,2) by (simp add: parse_serial_def strrchr_None)

theorem parse_serial_roundtrip_witness:
  "parse_serial (Some (''192.168.1.5'' @ '':'' @ decimal 5037)) 256 = Some (''192.168.1.5'', 5037)"
  using parse_serial_roundtrip [of "''192.168.1.5''" 256 5037] by simp

section \<open>Waiting with one message at a time\<close>

text \<open>
  The block that recurs in \<open>server_start\<close>: \<open>select\<close>, a receive with a buffer of 4096 bytes on
  the stack (\<open>fst junk\<close>), and the message handed to the session layer.
\<close>

definition server_pump :: "services \<Rightarrow> bytes \<times> bytes \<Rightarrow> adb_connection \<Rightarrow> adb_connection" where
  "server_pump sv junk c =
     (case do_select c of (sel, c1) \<Rightarrow>
        if sel \<le> 0 then c1
        else case adb_recv_msg_conn 4096 True zero_header (fst junk) c1 of (r, c2) \<Rightarrow>
          (case status r of
             Recv_Ok \<Rightarrow> session_handle_message sv (snd junk) (out_hdr r) (out_payload r) c2
           | Recv_Overrun \<Rightarrow> c2\<lparr>fault := True\<rparr>
           | _ \<Rightarrow> c2))"

text \<open>The drain after the connection: messages are read and dropped.\<close>

fun server_drain :: "bytes \<Rightarrow> nat \<Rightarrow> adb_connection \<Rightarrow> adb_connection" where
  "server_drain dpl 0 c = c"
| "server_drain dpl (Suc n) c =
     (case do_select c of (sel, c1) \<Rightarrow>
        if sel \<le> 0 then c1
        else case adb_recv_msg_conn 4096 True zero_header dpl c1 of (r, c2) \<Rightarrow>
          server_drain dpl n (if status r = Recv_Overrun then c2\<lparr>fault := True\<rparr> else c2))"

fun pump_until_open :: "services \<Rightarrow> bytes \<times> bytes \<Rightarrow> nat \<Rightarrow> nat \<Rightarrow> adb_connection \<Rightarrow> adb_connection" where
  "pump_until_open sv junk i 0 c = c"
| "pump_until_open sv junk i (Suc retries) c =
     (if chan_state (channels c ! i) \<noteq> CHAN_OPENING then c
      else pump_until_open sv junk i retries (server_pump sv junk c))"

definition pump_rounds :: "services \<Rightarrow> bytes \<times> bytes \<Rightarrow> nat \<Rightarrow> adb_connection \<Rightarrow> adb_connection" where
  "pump_rounds sv junk n = server_pump sv junk ^^ n"

section \<open>Pushing the server file\<close>

definition SYNC_CHUNK :: nat where "SYNC_CHUNK = 64 * 1024"

function server_send_chunks :: "services \<Rightarrow> nat \<Rightarrow> bytes \<Rightarrow> adb_connection \<Rightarrow> adb_connection" where
  "server_send_chunks sv i contents c =
     (if contents = [] then c
      else server_send_chunks sv i (drop SYNC_CHUNK contents)
             (write_channel sv i (sync_packet ''DATA'' (take SYNC_CHUNK contents)) c))"
  by pat_completeness auto
termination
  by (relation "measure (\<lambda>(sv, i, contents, c). length contents)") (auto simp: SYNC_CHUNK_def)

declare server_send_chunks.simps [simp del]

definition SYNC_OKAY :: u32 where "SYNC_OKAY = 0x59414b4f"
definition SYNC_FAIL :: u32 where "SYNC_FAIL = 0x4c494146"

text \<open>The wait for the service's answer: whether it is \<open>OKAY\<close>.\<close>

fun await_push_reply :: "services \<Rightarrow> bytes \<times> bytes \<Rightarrow> nat \<Rightarrow> nat \<Rightarrow> adb_connection \<Rightarrow> bool \<times> adb_connection" where
  "await_push_reply sv junk i 0 c = (False, c)"
| "await_push_reply sv junk i (Suc retries) c =
     (case do_select c of (sel, c1) \<Rightarrow>
        if sel \<le> 0 then await_push_reply sv junk i retries c1
        else case adb_recv_msg_conn 4096 True zero_header (fst junk) c1 of (r, c2) \<Rightarrow>
          (case status r of
             Recv_Ok \<Rightarrow>
               let msg = out_hdr r; pl = out_payload r;
                   c3 = session_handle_message sv (snd junk) msg pl c2;
                   reply = command msg = ADB_WRTE \<and> arg1 msg = local_id (channels c2 ! i) \<and> data_length msg \<ge> 4
               in if reply \<and> read32le pl = SYNC_OKAY then (True, c3)
                  else if reply \<and> read32le pl = SYNC_FAIL then (False, c3)
                  else await_push_reply sv junk i retries c3
           | Recv_Overrun \<Rightarrow> (False, c2\<lparr>fault := True\<rparr>)
           | _ \<Rightarrow> await_push_reply sv junk i retries c2))"

definition server_remote_path :: string where
  "server_remote_path = ''/data/local/tmp/scrcpy-server''"

text \<open>
  The push as \<open>server_start\<close> writes it out. \<open>file\<close> is what \<open>fopen\<close> finds. The result is whether
  the start goes on, the sync channel that the cleanup still has to close, and the connection.
\<close>

definition server_push ::
  "services \<Rightarrow> bytes \<times> bytes \<Rightarrow> bytes option \<Rightarrow> adb_connection \<Rightarrow> bool \<times> nat option \<times> adb_connection" where
  "server_push sv junk contents c =
     (case contents of
        None \<Rightarrow> (False, None, c)
      | Some bs \<Rightarrow>
          (case session_open_channel sv ''sync:'' c of
             (None, c1) \<Rightarrow> (False, None, c1)
           | (Some i, c1) \<Rightarrow>
               let c2 = pump_until_open sv junk i 200 c1
               in if chan_state (channels c2 ! i) \<noteq> CHAN_OPEN then (False, Some i, c2)
                  else
                    let c3 = write_channel sv i (sync_packet ''SEND'' (bytes_of (server_remote_path @ '',0644''))) c2;
                        c4 = server_pump sv junk c3;
                        c5 = server_send_chunks sv i bs c4;
                        c6 = write_channel sv i (sync_packet ''DONE'' []) c5
                    in case await_push_reply sv junk i 200 c6 of
                         (False, c7) \<Rightarrow> (False, Some i, c7)
                       | (True, c7) \<Rightarrow> (True, None, session_close_channel sv i c7)))"

section \<open>The command line of the server\<close>

definition bool_text :: "bool \<Rightarrow> string" where
  "bool_text b = (if b then ''true'' else ''false'')"

definition server_command_text :: "server_config \<Rightarrow> string" where
  "server_command_text cfg =
     ''CLASSPATH=/data/local/tmp/scrcpy-server '' @
     ''app_process / com.genymobile.scrcpy.Server 3.3.2 '' @
     ''tunnel_forward=true '' @
     ''video='' @ bool_text (video cfg) @ '' audio='' @ bool_text (audio cfg) @
     '' control='' @ bool_text (control cfg) @ '' '' @
     ''video_bit_rate='' @ decimal (unat (video_bit_rate cfg)) @
     '' audio_bit_rate='' @ decimal (unat (audio_bit_rate cfg)) @
     '' max_size='' @ decimal (unat (max_size cfg)) @ '' '' @
     ''audio_codec=opus''"

definition server_command :: "server_config \<Rightarrow> string" where
  "server_command cfg = cut 1024 (server_command_text cfg)"

lemma length_decimal32: "length (decimal (unat (w :: u32))) \<le> 10"
  using unat_lt32 [of w] by (intro length_decimal) simp_all

lemma length_bool_text: "length (bool_text b) \<le> 5"
  by (simp add: bool_text_def)

lemma length_server_command: "length (server_command_text cfg) \<le> 241"
proof -
  have "length (server_command_text cfg) \<le> 196 + length (bool_text (video cfg)) + length (bool_text (audio cfg)) +
      length (bool_text (control cfg)) + length (decimal (unat (video_bit_rate cfg))) +
      length (decimal (unat (audio_bit_rate cfg))) + length (decimal (unat (max_size cfg)))"
    by (simp add: server_command_text_def)
  with length_bool_text [of "video cfg"] length_bool_text [of "audio cfg"] length_bool_text [of "control cfg"]
    length_decimal32 [of "video_bit_rate cfg"] length_decimal32 [of "audio_bit_rate cfg"]
    length_decimal32 [of "max_size cfg"]
  show ?thesis by linarith
qed

text \<open>Whatever the configuration, the command that starts the server fits the two buffers it
  passes through: on an idle connection with room for a channel the shell is opened with the
  whole command line, at most 247 characters, and the open succeeds.\<close>

theorem server_command_sent_whole:
  assumes "idle_plain c" and "state c = ADB_STATE_CONNECTED" and "length (channels c) < 64"
    and "adb_shell sv (server_command cfg) c = (ok, c')"
  shows "ok \<and> length (''shell:'' @ server_command_text cfg) \<le> 247 \<and>
     wire (tx c') = wire (tx c) @
       header_bytes (sent_message ADB_OPEN (next_local_id c) 0 (cstr (''shell:'' @ server_command_text cfg)) True) @
       cstr (''shell:'' @ server_command_text cfg)"
proof -
  have len: "length (server_command_text cfg) \<le> 241" by (rule length_server_command)
  then have "server_command cfg = server_command_text cfg" by (simp add: server_command_def)
  then show ?thesis using shell_sent [OF assms(1-3), of "server_command_text cfg" sv] assms(4) len by auto
qed

theorem server_command_sent_whole_witness:
  "fst (adb_shell plain_services (server_command \<lparr>serial = None, server_path = None, local_port = 0,
      max_size = 1920, video_bit_rate = 8000000, audio_bit_rate = 128000, video_encoder = None,
      audio_encoder = None, control = True, video = True, audio = False\<rparr>) example_connection)"
proof -
  have c: "idle_plain example_connection" "state example_connection = ADB_STATE_CONNECTED"
    "length (channels example_connection) < 64" by (simp_all add: idle_plain_def example_connection_def)
  show ?thesis by (rule server_command_sent_whole [OF c surjective_pairing, THEN conjunct1])
qed

section \<open>The head of the video stream\<close>

text \<open>
  A dummy byte, the device name, codec and dimensions, and twelve bytes that are a session
  header or, kept as pending, the head of the first packet.
\<close>

definition read_video_metadata ::
  "(nat \<Rightarrow> bool) \<Rightarrow> video_socket \<Rightarrow> inbound \<Rightarrow> bool \<times> video_socket \<times> inbound" where
  "read_video_metadata mal sock s =
     (case recv_all 1 s of
        (None, s1) \<Rightarrow> (False, sock, s1)
      | (Some _, s1) \<Rightarrow>
          (case recv_all 64 s1 of
             (None, s2) \<Rightarrow> (False, sock, s2)
           | (Some _, s2) \<Rightarrow>
               (case recv_all 12 s2 of
                  (None, s3) \<Rightarrow> (False, sock, s3)
                | (Some buf, s3) \<Rightarrow>
                    let sock1 = sock\<lparr>video_codec_id := read32be buf, width := read32be (drop 4 buf),
                                     height := read32be (drop 8 buf)\<rparr>
                    in (case recv_all 12 s3 of
                          (None, s4) \<Rightarrow> (False, sock1, s4)
                        | (Some hdr, s4) \<Rightarrow>
                            (True, if bit (hdr ! 0) 7 then sock1
                                   else if mal 12 then sock1\<lparr>pending := hdr\<rparr> else sock1, s4)))))"

lemma video_metadata_read:
  assumes "stream s = dummy # name @ write32be codec @ write32be w @ write32be h @ hdr @ rest"
    and "length name = 64" and "length hdr = 12" and "mal 12" and "pending sock = []"
  shows "\<exists>sock' s'. read_video_metadata mal sock s = (True, sock', s') \<and>
     video_codec_id sock' = codec \<and> width sock' = w \<and> height sock' = h \<and> video_fd sock' = video_fd sock \<and>
     pending sock' = (if bit (hdr ! 0) 7 then [] else hdr) \<and> stream s' = rest"
proof -
  have "stream s = [dummy] @ (name @ write32be codec @ write32be w @ write32be h @ hdr @ rest)"
    using assms(1) by simp
  then obtain s1 where s1: "recv_all (Suc 0) s = (Some [dummy], s1)"
    "stream s1 = name @ (write32be codec @ write32be w @ write32be h @ hdr @ rest)"
    by (rule waiting.get_append) simp
  from s1(2) obtain s2 where s2: "recv_all 64 s1 = (Some name, s2)"
    "stream s2 = (write32be codec @ write32be w @ write32be h) @ (hdr @ rest)"
    by (rule waiting.get_append) (simp_all add: assms(2))
  from s2(2) obtain s3 where s3: "recv_all 12 s2 = (Some (write32be codec @ write32be w @ write32be h), s3)"
    "stream s3 = hdr @ rest" by (rule waiting.get_append) (simp add: codec_simps)
  from s3(2) obtain s4 where s4: "recv_all 12 s3 = (Some hdr, s4)" "stream s4 = rest"
    by (rule waiting.get_append) (simp add: assms(3))
  have f: "read32be (write32be codec @ write32be w @ write32be h) = codec"
    "read32be (drop 4 (write32be codec @ write32be w @ write32be h)) = w"
    "read32be (drop 8 (write32be codec @ write32be w @ write32be h)) = h"
    by (simp_all add: codec_simps)
  show ?thesis
    using s1(1) s2(1) s3(1) s4 f assms(4,5) by (simp add: read_video_metadata_def Let_def)
qed

text \<open>The metadata reader takes codec and dimensions from the stream and leaves the rest as a
  stream of packets: what the video socket has pending followed by what remains is everything
  after the dimensions, less a session header when there is one. No byte of a packet is lost.\<close>

theorem video_metadata_leaves_packets:
  assumes "stream s = dummy # name @ write32be codec @ write32be w @ write32be h @ hdr @ rest"
    and "length name = 64" and "length hdr = 12" and "mal 12" and "pending sock = []"
  shows "\<exists>sock' s'. read_video_metadata mal sock s = (True, sock', s') \<and>
     video_codec_id sock' = codec \<and> width sock' = w \<and> height sock' = h \<and> video_fd sock' = video_fd sock \<and>
     pending sock' @ stream s' = (if bit (hdr ! 0) 7 then rest else hdr @ rest)"
  using video_metadata_read [of s dummy name codec w h hdr rest mal sock, OF assms] by (auto split: if_splits)

theorem video_metadata_leaves_packets_witness:
  "\<exists>sock' s'. read_video_metadata (\<lambda>_. True) (video_socket_init None)
       [Arrive (0 # replicate 64 65 @ write32be 0x68323634 @ write32be 1080 @ write32be 2400 @ replicate 12 1 @ [5])] =
       (True, sock', s') \<and>
     width sock' = 1080 \<and> pending sock' @ stream s' = replicate 12 1 @ [5]"
proof -
  let ?s = "[Arrive (0 # replicate 64 65 @ write32be 0x68323634 @ write32be 1080 @ write32be 2400 @ replicate 12 1 @ [5])]"
  have s: "stream ?s = 0 # replicate 64 65 @ write32be 0x68323634 @ write32be 1080 @ write32be 2400 @ replicate 12 1 @ [5]"
    by simp
  have "\<not> bit ((replicate 12 1 :: bytes) ! 0) 7" by simp
  then show ?thesis
    using video_metadata_leaves_packets [OF s, of "\<lambda>_. True" "video_socket_init None"]
    by (auto simp: video_socket_init_def)
qed

section \<open>Channels, socket pairs and threads\<close>

definition open_stream :: "services \<Rightarrow> bool \<Rightarrow> adb_connection \<Rightarrow> nat option \<times> adb_connection" where
  "open_stream sv wanted c =
     (if wanted then session_open_channel sv ''localabstract:scrcpy'' c else (None, c))"

text \<open>The channels in the order the server accepts them; \<open>False\<close> when one cannot be opened.\<close>

definition open_streams ::
  "services \<Rightarrow> server_config \<Rightarrow> adb_connection \<Rightarrow>
     bool \<times> (nat option \<times> nat option \<times> nat option) \<times> adb_connection" where
  "open_streams sv cfg c =
     (case open_stream sv True c of (v, c1) \<Rightarrow>
        if v = None then (False, (None, None, None), c1)
        else case open_stream sv (audio cfg) c1 of (a, c2) \<Rightarrow>
          if audio cfg \<and> a = None then (False, (v, None, None), c2)
          else case open_stream sv (control cfg) c2 of (k, c3) \<Rightarrow>
            if control cfg \<and> k = None then (False, (v, a, None), c3) else (True, (v, a, k), c3))"

text \<open>
  The ends of the socket pairs. The application's sockets are given the read ends, the
  threads the write ends. \<open>pair_ok\<close> says which of the three pairs can be made (theory \<open>Loopback\<close>).
\<close>

datatype pipe_end = Video_Read | Video_Write | Audio_Read | Audio_Write | Ctrl_Read | Ctrl_Write

definition read_end :: "pipe_end \<Rightarrow> bool" where
  "read_end e \<longleftrightarrow> e \<in> {Video_Read, Audio_Read, Ctrl_Read}"

definition make_pairs ::
  "(pipe_end \<Rightarrow> bool) \<Rightarrow> nat option \<Rightarrow> nat option \<Rightarrow> bool \<times> pipe_end list" where
  "make_pairs pair_ok a k =
     (if \<not> pair_ok Video_Read then (False, [])
      else if a \<noteq> None \<and> \<not> pair_ok Audio_Read then (False, [Video_Read, Video_Write])
      else
        let ends = [Video_Read, Video_Write] @ (if a \<noteq> None then [Audio_Read, Audio_Write] else [])
        in if k \<noteq> None \<and> \<not> pair_ok Ctrl_Read then (False, ends)
           else (True, ends @ (if k \<noteq> None then [Ctrl_Read, Ctrl_Write] else [])))"

definition new_reader ::
  "services \<Rightarrow> bytes \<Rightarrow> nat option \<times> nat option \<times> nat option \<Rightarrow> inbound \<Rightarrow> adb_connection \<Rightarrow> adb_reader" where
  "new_reader sv junk chans written c =
     (case chans of (v, a, k) \<Rightarrow>
        \<lparr>conn = c, video_chan = v, audio_chan = a, ctrl_chan = k,
         video_out = \<lparr>sends = [], wire = []\<rparr>, audio_out = \<lparr>sends = [], wire = []\<rparr>,
         ctrl_out = \<lparr>sends = [], wire = []\<rparr>, ctrl_in = written, running = True,
         reader_buf = (if malloc sv ADB_MAX_PAYLOAD then Some junk else None), sender_alive = k \<noteq> None\<rparr>)"

text \<open>At most 300 looks at a channel, between which the threads make some turns.\<close>

fun wait_channel ::
  "services \<Rightarrow> bytes \<Rightarrow> (nat \<Rightarrow> relay_turn list) \<Rightarrow> nat option \<Rightarrow> nat \<Rightarrow> adb_reader \<Rightarrow> adb_reader" where
  "wait_channel sv junk turns None n r = r"
| "wait_channel sv junk turns (Some i) 0 r = r"
| "wait_channel sv junk turns (Some i) (Suc n) r =
     (if chan_state (channels (conn r) ! i) = CHAN_OPEN then r
      else wait_channel sv junk turns (Some i) n (relay_run sv junk (turns n) r))"

section \<open>server\_start\<close>

text \<open>
  \<open>srv_reader\<close> is \<open>srv->reader\<close> with the connection \<open>srv->adb_conn\<close> in it, \<open>srv_ends\<close> the pipe ends
  the server structure knows.
\<close>

record server =
  config :: server_config
  srv_reader :: "adb_reader option"
  srv_ends :: "pipe_end list"
  srv_running :: bool

definition server_init :: "server_config \<Rightarrow> server" where
  "server_init cfg = \<lparr>config = cfg, srv_reader = None, srv_ends = [], srv_running = False\<rparr>"

text \<open>
  What a start meets: the connection to a host and port, the server file, the contents of the
  stack, the sockets of each pair and the allocation of the structure, what the application writes to the
  control socket meanwhile, and the turns of the threads in each phase of waiting.
\<close>

record start_env =
  connect_to :: "string \<Rightarrow> u16 \<Rightarrow> adb_connection option"
  server_file :: "bytes option"
  stack :: "bytes \<times> bytes"
  pair_sockets :: "pipe_end \<Rightarrow> socket_answers"
  reader_ok :: bool
  written :: inbound
  progress :: "nat \<Rightarrow> nat \<Rightarrow> relay_turn list"

definition pair_ok :: "start_env \<Rightarrow> pipe_end \<Rightarrow> bool" where
  "pair_ok env e = pair_made (pair_sockets env e)"

text \<open>
  A failed start leaves the connection as the cleanup left it before its memory is freed, and
  the sockets' descriptors that name closed pipe ends. \<open>Start_Blocked\<close> is a wait for
  metadata that do not come: the write end of the pair is open, so the read does not return.
  A start that succeeds gives the server, the video socket and the pipe ends in use.
\<close>

datatype start_outcome =
    Start_Failed "adb_connection option" "pipe_end list"
  | Start_Blocked adb_reader
  | Started server video_socket "pipe_end list"

definition start_cleanup :: "services \<Rightarrow> nat option list \<Rightarrow> adb_connection \<Rightarrow> adb_connection" where
  "start_cleanup sv chans c =
     adb_disconnect sv
       (foldl (\<lambda>c ch. case ch of Some i \<Rightarrow> session_close_channel sv i c | None \<Rightarrow> c) c chans)"

definition start_threads ::
  "services \<Rightarrow> start_env \<Rightarrow> server \<Rightarrow> video_socket \<Rightarrow> nat option \<times> nat option \<times> nat option \<Rightarrow>
     pipe_end list \<Rightarrow> adb_connection \<Rightarrow> start_outcome" where
  "start_threads sv env srv vsock chans ends c =
     (case chans of (v, a, k) \<Rightarrow>
        let junk = snd (stack env);
            r1 = wait_channel sv junk (progress env 0) v 300 (new_reader sv junk chans (written env) c)
        in if chan_state (channels (conn r1) ! the v) \<noteq> CHAN_OPEN
           then Start_Failed (Some (start_cleanup sv [k, a, v] (conn r1))) (filter read_end ends)
           else
             let r2 = wait_channel sv junk (progress env 1) a 300 r1;
                 r3 = wait_channel sv junk (progress env 2) k 300 r2;
                 r4 = relay_run sv junk (progress env 3 0) r3
             in case read_video_metadata (malloc sv) vsock [Arrive (wire (video_out r4))] of
                  (False, _, _) \<Rightarrow> Start_Blocked r4
                | (True, vsock', s) \<Rightarrow>
                    Started (srv\<lparr>srv_reader := Some r4, srv_ends := [Video_Read, Video_Write],
                                 srv_running := True\<rparr>)
                            (vsock'\<lparr>video_fd := Some s\<rparr>) ends)"

definition server_start :: "services \<Rightarrow> start_env \<Rightarrow> server \<Rightarrow> video_socket \<Rightarrow> start_outcome" where
  "server_start sv env srv vsock =
     (let cfg = config srv
      in case parse_serial (serial cfg) 256 of
           None \<Rightarrow> Start_Failed None []
         | Some (host, port) \<Rightarrow>
      (case connect_to env host port of
         None \<Rightarrow> Start_Failed None []
       | Some c0 \<Rightarrow>
      (let c1 = server_drain (fst (stack env)) 10 (c0\<lparr>on_shell_output := True\<rparr>)
       in case (if server_path cfg = None then (True, None, c1)
                else server_push sv (stack env) (server_file env) c1) of
            (False, sync, c2) \<Rightarrow> Start_Failed (Some (start_cleanup sv [sync] c2)) []
          | (True, _, c2) \<Rightarrow>
      (case adb_shell sv (server_command cfg) c2 of
         (False, c3) \<Rightarrow> Start_Failed (Some (start_cleanup sv [] c3)) []
       | (True, c3) \<Rightarrow>
      (case open_streams sv cfg (pump_rounds sv (stack env) 50 c3) of
         (False, (v, a, k), c4) \<Rightarrow> Start_Failed (Some (start_cleanup sv [k, a, v] c4)) []
       | (True, (v, a, k), c4) \<Rightarrow>
      (case make_pairs (pair_ok env) a k of
         (False, ends) \<Rightarrow>
           Start_Failed (Some (start_cleanup sv [k, a, v] c4)) (filter read_end ends)
       | (True, ends) \<Rightarrow>
           if \<not> reader_ok env
           then Start_Failed (Some (start_cleanup sv [k, a, v] c4)) (filter read_end ends)
           else start_threads sv env srv vsock (v, a, k) ends c4))))))"

section \<open>server\_kill and server\_destroy\<close>

definition server_kill :: "services \<Rightarrow> server \<Rightarrow> server" where
  "server_kill sv srv =
     srv\<lparr>srv_reader := map_option (\<lambda>r. r\<lparr>conn :=
            snd (adb_shell sv ''pkill -f com.genymobile.scrcpy.Server'' (conn r))\<rparr>) (srv_reader srv),
         srv_running := False\<rparr>"

text \<open>
  The reader is stopped and freed, the video write end closed, the connection torn down. The
  result is the server, the pipe ends still open, the connection as it was freed, and whether
  the control sender goes on running on the freed structure.
\<close>

definition server_destroy ::
  "services \<Rightarrow> server \<Rightarrow> pipe_end list \<Rightarrow> server \<times> pipe_end list \<times> adb_connection option \<times> bool" where
  "server_destroy sv srv ends =
     (srv\<lparr>srv_reader := None, srv_ends := filter (\<lambda>e. e \<noteq> Video_Write) (srv_ends srv)\<rparr>,
      if Video_Write \<in> set (srv_ends srv) then filter (\<lambda>e. e \<noteq> Video_Write) ends else ends,
      map_option (\<lambda>r. adb_disconnect sv (conn r)) (srv_reader srv),
      case srv_reader srv of None \<Rightarrow> False | Some r \<Rightarrow> sender_alive r)"

section \<open>What a failed start and a stopped server leave behind\<close>

definition torn_down :: "adb_connection \<Rightarrow> bool" where
  "torn_down c \<longleftrightarrow> \<not> fd c \<and> state c = ADB_STATE_DISCONNECTED \<and>
     (\<forall>ch \<in> set (channels c). chan_state ch = CHAN_CLOSED)"

lemma close_prefix_states:
  "n \<le> length (channels c) \<Longrightarrow> foldl (\<lambda>c i. session_close_channel sv i c) c [0..<n] = c' \<Longrightarrow>
     length (channels c') = length (channels c) \<and> (\<forall>i < n. chan_state (channels c' ! i) = CHAN_CLOSED)"
proof (induction n arbitrary: c')
  case 0
  then show ?case by simp
next
  case (Suc n)
  let ?c1 = "foldl (\<lambda>c i. session_close_channel sv i c) c [0..<n]"
  from Suc have ih: "length (channels ?c1) = length (channels c)"
    "\<forall>i < n. chan_state (channels ?c1 ! i) = CHAN_CLOSED" by simp_all
  have c': "c' = session_close_channel sv n ?c1" using Suc.prems(2) by simp
  have n: "n < length (channels ?c1)" using Suc.prems(1) ih(1) by simp
  have "length (map local_id (channels c')) = length (map local_id (channels ?c1))"
    by (simp only: c' close_channel_fields(1) [OF n])
  moreover have "chan_state (channels c' ! i) = CHAN_CLOSED" if "i < Suc n" for i
  proof (cases "i = n")
    case True
    then show ?thesis using close_channel_fields(4) [OF n] by (simp add: c')
  next
    case False
    then show ?thesis using close_channel_fields(5) [OF n, of i] ih(2) that by (simp add: c')
  qed
  ultimately show ?case using ih(1) by simp
qed

lemma torn_down_disconnect: "torn_down (adb_disconnect sv c)"
  using close_prefix_states [of "length (channels c)" c sv, OF order_refl refl]
  by (auto simp: torn_down_def adb_disconnect_def session_disconnect_def close_all_def in_set_conv_nth)

lemma start_threads_failed:
  "start_threads sv env srv vsock chans ends c = Start_Failed left dangling \<Longrightarrow>
     \<exists>chs c'. left = Some (start_cleanup sv chs c')"
  by (auto simp: start_threads_def Let_def split: prod.splits if_splits bool.splits)

lemma server_start_failed:
  assumes "server_start sv env srv vsock = Start_Failed (Some c) dangling"
  shows "\<exists>chs c'. c = start_cleanup sv chs c'"
  using assms start_threads_failed
  by (fastforce simp: server_start_def Let_def split: option.splits prod.splits if_splits bool.splits)


definition example_config :: server_config where
  "example_config =
     \<lparr>serial = Some (''10.0.0.2'' @ '':'' @ decimal 5555), server_path = None, local_port = 27183, max_size = 0,
      video_bit_rate = 8000000, audio_bit_rate = 128000, video_encoder = None, audio_encoder = None,
      control = True, video = True, audio = True\<rparr>"

definition example_sockets :: socket_answers where
  "example_sockets =
     \<lparr>os_listener = Some 3, os_bind = True, os_listen = True, os_client = Some 4, os_connect = True, os_accept = Some 5\<rparr>"

definition example_env :: "adb_connection \<Rightarrow> start_env" where
  "example_env c =
     \<lparr>connect_to = (\<lambda>h p. if h = ''10.0.0.2'' \<and> p = 5555 then Some c else None), server_file = None,
      stack = ([], []), pair_sockets = (\<lambda>_. example_sockets), reader_ok = True, written = [],
      progress = (\<lambda>ph n. if ph = 0 \<and> n = 299 then replicate 5 Reader else [])\<rparr>"

lemma example_serial: "parse_serial (serial example_config) 256 = Some (''10.0.0.2'', 5555)"
  using parse_serial_host_port [of "''10.0.0.2''" 256 5555] by (simp add: example_config_def)

text \<open>The start of a configuration that pushes no file, up to the channels.\<close>

lemma server_start_no_push:
  assumes "parse_serial (serial (config srv)) 256 = Some (host, port)" and "connect_to env host port = Some c0"
    and "server_drain (fst (stack env)) 10 (c0\<lparr>on_shell_output := True\<rparr>) = c1"
    and "server_path (config srv) = None" and "adb_shell sv (server_command (config srv)) c1 = (ok, c3)"
    and "open_streams sv (config srv) (pump_rounds sv (stack env) 50 c3) = (ok2, (v, a, k), c4)"
  shows "\<not> ok \<Longrightarrow> server_start sv env srv vsock = Start_Failed (Some (start_cleanup sv [] c3)) []"
    and "ok \<Longrightarrow> ok2 \<Longrightarrow> make_pairs (pair_ok env) a k = (True, ends) \<Longrightarrow> reader_ok env \<Longrightarrow>
           server_start sv env srv vsock = start_threads sv env srv vsock (v, a, k) ends c4"
proof -
  note eqs = server_start_def Let_def assms option.case prod.case if_True simp_thms
  show "\<not> ok \<Longrightarrow> server_start sv env srv vsock = Start_Failed (Some (start_cleanup sv [] c3)) []"
    unfolding eqs by (cases ok) simp_all
  show "ok \<Longrightarrow> ok2 \<Longrightarrow> make_pairs (pair_ok env) a k = (True, ends) \<Longrightarrow> reader_ok env \<Longrightarrow>
           server_start sv env srv vsock = start_threads sv env srv vsock (v, a, k) ends c4"
    unfolding eqs by (cases ok; cases ok2) simp_all
qed


lemma start_threads_started:
  assumes "start_threads sv env srv vsock chans ends c = Started srv' vs ends'"
  shows "ends' = ends \<and> srv_ends srv' = [Video_Read, Video_Write] \<and> srv_reader srv' \<noteq> None \<and>
     srv_running srv' \<and> config srv' = config srv"
  using assms by (auto simp: start_threads_def Let_def split: prod.splits if_splits bool.splits)

lemma open_streams_wanted:
  assumes "open_streams sv cfg c = (True, (v, a, k), c')"
  shows "v \<noteq> None" "a \<noteq> None \<longleftrightarrow> audio cfg" "k \<noteq> None \<longleftrightarrow> control cfg"
  using assms by (auto simp: open_streams_def open_stream_def split: prod.splits if_splits)

lemma server_start_started:
  assumes "server_start sv env srv vsock = Started srv' vs ends"
  shows "\<exists>a k c v c'. open_streams sv (config srv) c = (True, (v, a, k), c') \<and>
     make_pairs (pair_ok env) a k = (True, ends) \<and>
     srv_ends srv' = [Video_Read, Video_Write] \<and> srv_reader srv' \<noteq> None \<and> srv_running srv'"
proof -
  let ?cfg = "config srv"
  obtain host port where p: "parse_serial (serial ?cfg) 256 = Some (host, port)"
    using assms by (auto simp: server_start_def Let_def split: option.splits)
  obtain c0 where c0: "connect_to env host port = Some c0"
    using assms p by (auto simp: server_start_def Let_def split: option.splits)
  let ?c1 = "server_drain (fst (stack env)) 10 (c0\<lparr>on_shell_output := True\<rparr>)"
  let ?push = "if server_path ?cfg = None then (True, None, ?c1) else server_push sv (stack env) (server_file env) ?c1"
  obtain ok sync c2 where push: "?push = (ok, sync, c2)" by (cases ?push)
  obtain ok2 c3 where sh: "adb_shell sv (server_command ?cfg) c2 = (ok2, c3)"
    by (cases "adb_shell sv (server_command ?cfg) c2")
  let ?c4 = "pump_rounds sv (stack env) 50 c3"
  obtain ok3 chans c4 where o': "open_streams sv ?cfg ?c4 = (ok3, chans, c4)"
    by (cases "open_streams sv ?cfg ?c4")
  obtain v a k where "chans = (v, a, k)" by (cases chans)
  with o' have o: "open_streams sv ?cfg ?c4 = (ok3, (v, a, k), c4)" by simp
  obtain ok4 ends0 where mp: "make_pairs (pair_ok env) a k = (ok4, ends0)" by (cases "make_pairs (pair_ok env) a k")
  note eqs = server_start_def Let_def p c0 push sh o mp option.case prod.case
  have ok: "ok" using assms unfolding eqs by (cases ok) simp_all
  then have ok2: "ok2" using assms unfolding eqs by (cases ok2) simp_all
  with ok have ok3: "ok3" using assms unfolding eqs by (cases ok3) simp_all
  with ok ok2 have ok4: "ok4" using assms unfolding eqs by (cases ok4) simp_all
  have "start_threads sv env srv vsock (v, a, k) ends0 c4 = Started srv' vs ends"
    using assms unfolding eqs by (simp add: ok ok2 ok3 ok4 split: if_splits)
  note st = start_threads_started [OF this]
  have "open_streams sv ?cfg ?c4 = (True, (v, a, k), c4)" using o ok3 by simp
  moreover have "make_pairs (pair_ok env) a k = (True, ends)" using mp ok4 st by simp
  ultimately show ?thesis using st by (intro exI conjI) simp_all
qed

text \<open>A started server uses the pipes its configuration asks for. Of these \<open>server_destroy\<close> closes
  the video write end alone: with audio or control on, the write ends of their pipes stay open.\<close>

theorem server_destroy_leaks_pipes:
  assumes "server_start sv env srv vsock = Started srv' vs ends"
  shows "set ends = {Video_Read, Video_Write} \<union> (if audio (config srv) then {Audio_Read, Audio_Write} else {}) \<union>
       (if control (config srv) then {Ctrl_Read, Ctrl_Write} else {}) \<and>
     (\<exists>srv'' open_ends c sender. server_destroy sv srv' ends = (srv'', open_ends, c, sender) \<and>
        set open_ends = set ends - {Video_Write})"
proof -
  obtain a k c v c' where o: "open_streams sv (config srv) c = (True, (v, a, k), c')"
    and p: "make_pairs (pair_ok env) a k = (True, ends)" and e: "srv_ends srv' = [Video_Read, Video_Write]"
    using server_start_started [OF assms] by blast
  have "ends = [Video_Read, Video_Write] @ (if a \<noteq> None then [Audio_Read, Audio_Write] else []) @
      (if k \<noteq> None then [Ctrl_Read, Ctrl_Write] else [])"
    using p by (auto simp: make_pairs_def Let_def split: if_splits)
  then have "set ends = {Video_Read, Video_Write} \<union> (if audio (config srv) then {Audio_Read, Audio_Write} else {}) \<union>
       (if control (config srv) then {Ctrl_Read, Ctrl_Write} else {})"
    unfolding open_streams_wanted(2,3) [OF o] by auto
  moreover have "set (filter (\<lambda>e. e \<noteq> Video_Write) ends) = set ends - {Video_Write}" by auto
  ultimately show ?thesis by (simp add: server_destroy_def e)
qed

section \<open>A start that succeeds\<close>

lemma session_open_channel_idle:
  assumes "idle_plain c" and "length (channels c) < 64" and "length serv < 256"
  shows "\<exists>w. session_open_channel sv serv c = (Some (length (channels c)),
     c\<lparr>channels := channels c @ [\<lparr>local_id = next_local_id c, remote_id = 0, service = serv,
                                  chan_state = CHAN_OPENING\<rparr>],
       next_local_id := next_local_id c + 1, tx := (tx c)\<lparr>wire := w\<rparr>\<rparr>)"
proof -
  have idle: "idle_plain (c\<lparr>channels := chs, next_local_id := n\<rparr>)" for chs n
    using assms(1) by (simp add: idle_plain_def)
  show ?thesis
    using assms(2,3) by (simp add: session_open_channel_def MAX_CHANNELS_def SERVICE_NAME_MAX_def Let_def
        send_idle_plain [OF idle]) (intro exI, rule refl)
qed

text \<open>On a socket where nothing arrives the waits change nothing.\<close>

lemma server_pump_quiet: "selects c = [] \<Longrightarrow> server_pump sv junk c = c"
  by (simp add: server_pump_def do_select_def)

lemma pump_rounds_quiet: "selects c = [] \<Longrightarrow> pump_rounds sv junk n c = c"
  unfolding pump_rounds_def by (induction n) (simp_all add: server_pump_quiet)

lemma server_drain_quiet: "selects c = [] \<Longrightarrow> server_drain dpl n c = c"
  by (cases n) (simp_all add: do_select_def)

lemma wait_channel_idle:
  assumes "chan_state (channels (conn r) ! i) \<noteq> CHAN_OPEN" and "t < n" and "\<forall>j. t < j \<longrightarrow> turns j = []"
  shows "wait_channel sv junk turns (Some i) n r = wait_channel sv junk turns (Some i) (Suc t) r"
  using assms(2)
proof (induction n)
  case 0
  then show ?case by simp
next
  case (Suc n)
  show ?case
  proof (cases "t = n")
    case False
    with Suc have "wait_channel sv junk turns (Some i) n r = wait_channel sv junk turns (Some i) (Suc t) r" by simp
    then show ?thesis using False Suc.prems assms(1,3) by simp
  qed simp
qed

lemma wait_channel_open: "chan_state (channels (conn r) ! i) = CHAN_OPEN \<Longrightarrow> wait_channel sv junk turns (Some i) n r = r"
  by (cases n) simp_all

lemma reader_turn_okay:
  assumes "running r" and "reader_buf r = Some pl" and "idle_plain (conn r)"
    and av: "ready (rx (conn r)) = header_bytes (make_header ADB_OKAY rid lid 0 0) @ rest"
  shows "\<exists>s. ready s = rest \<and> reader_turn sv junk r =
     r\<lparr>conn := (conn r)\<lparr>rx := s, channels := open_channel_entry lid rid (channels (conn r))\<rparr>\<rparr>"
proof -
  let ?m = "make_header ADB_OKAY rid lid 0 0"
  have t: "tls (conn r) = None" using assms(3) by (simp add: idle_plain_def)
  have "valid_frame (int ADB_MAX_PAYLOAD) True ?m []" by (simp add: valid_frame_def make_header_def)
  moreover have "arriving (conn r) = header_bytes ?m @ [] @ rest" using av t by (simp add: arriving_def)
  ultimately obtain c1 where r1: "adb_recv_msg_conn (int ADB_MAX_PAYLOAD) True zero_header pl (conn r) =
      (\<lparr>status = Recv_Ok, out_hdr = ?m, out_payload = blit [] pl\<rparr>, c1)" and rest: "arriving c1 = rest"
    using recv_conn_frame [of "int ADB_MAX_PAYLOAD" True zero_header pl "conn r" ?m "blit [] pl" rest] by blast
  obtain s where c1: "c1 = (conn r)\<lparr>rx := s\<rparr>"
    using r1 t by (auto simp: adb_recv_msg_conn_def split: prod.splits)
  have buf: "r\<lparr>conn := x, reader_buf := Some pl\<rparr> = r\<lparr>conn := x\<rparr>" for x
    using assms(2) by (cases r) simp
  have "ready s = rest" using rest t by (simp add: c1 arriving_def)
  moreover have "reader_turn sv junk r =
     r\<lparr>conn := (conn r)\<lparr>rx := s, channels := open_channel_entry lid rid (channels (conn r))\<rparr>\<rparr>"
    using assms(1,2) r1 [unfolded c1]
    by (simp add: reader_turn_def Let_def relay_message_def make_header_def adb_commands buf)
  ultimately show ?thesis by blast
qed

lemma session_open_idle:
  assumes "idle_plain c" and "length (channels c) < 64" and "length serv < 256"
  obtains c' where "session_open_channel sv serv c = (Some (length (channels c)), c')" and "idle_plain c'"
    and "rx c' = rx c" and "selects c' = selects c" and "next_local_id c' = next_local_id c + 1"
    and "channels c' = channels c @ [\<lparr>local_id = next_local_id c, remote_id = 0, service = serv,
                                       chan_state = CHAN_OPENING\<rparr>]"
  using session_open_channel_idle [OF assms, of sv] assms(1) that by (force simp: idle_plain_def)

definition pending_channels :: "server_config \<Rightarrow> adb_channel list" where
  "pending_channels cfg =
     [\<lparr>local_id = 1, remote_id = 0, service = ''shell:'' @ server_command_text cfg, chan_state = CHAN_OPENING\<rparr>,
      stream_channel 2 0 CHAN_OPENING, stream_channel 3 0 CHAN_OPENING, stream_channel 4 0 CHAN_OPENING]"

lemma shell_opens:
  assumes "idle_plain c" and "state c = ADB_STATE_CONNECTED" and "channels c = []" and "next_local_id c = 1"
  obtains c' where "adb_shell sv (server_command cfg) c = (True, c')" and "idle_plain c'" and "rx c' = rx c"
    and "selects c' = selects c" and "next_local_id c' = 2" and "channels c' = [hd (pending_channels cfg)]"
proof -
  obtain t where t: "''shell:'' @ server_command_text cfg = t" by simp
  have len: "length t \<le> 247" using length_server_command [of cfg] unfolding t [symmetric] by simp
  have "cut SERVICE_NAME_MAX (''shell:'' @ server_command cfg) = t"
    using len length_server_command [of cfg] by (simp add: server_command_def t [symmetric] SERVICE_NAME_MAX_def)
  then have sh: "adb_shell sv (server_command cfg) c = (case session_open_channel sv t c of
      (None, c1) \<Rightarrow> (False, c1) | (Some _, c1) \<Rightarrow> (True, c1))"
    unfolding adb_shell_def using assms(2) by simp
  have "length (channels c) < 64" "length t < 256" using assms(3) len by simp_all
  from session_open_idle [OF assms(1) this, of sv] obtain c' where
    "session_open_channel sv t c = (Some (length (channels c)), c')" "idle_plain c'" "rx c' = rx c"
    "selects c' = selects c" "next_local_id c' = next_local_id c + 1"
    "channels c' = channels c @ [\<lparr>local_id = next_local_id c, remote_id = 0, service = t, chan_state = CHAN_OPENING\<rparr>]"
    by metis
  with sh assms(3,4) show thesis by (intro that [of c']) (simp_all add: pending_channels_def t [symmetric])
qed

lemma streams_open:
  assumes "idle_plain c" and "channels c = [hd (pending_channels cfg)]" and "next_local_id c = 2"
    and "audio cfg" and "control cfg"
  obtains c' where "open_streams sv cfg c = (True, (Some 1, Some 2, Some 3), c')" and "idle_plain c'"
    and "rx c' = rx c" and "channels c' = pending_channels cfg"
proof -
  let ?n = "''localabstract:scrcpy''"
  have n: "length ?n < 256" by simp
  from assms(2) have "length (channels c) < 64" by simp
  then obtain c1 where c1: "session_open_channel sv ?n c = (Some (length (channels c)), c1)" "idle_plain c1" "rx c1 = rx c"
    "next_local_id c1 = next_local_id c + 1"
    "channels c1 = channels c @ [\<lparr>local_id = next_local_id c, remote_id = 0, service = ?n, chan_state = CHAN_OPENING\<rparr>]"
    using session_open_idle [OF assms(1) _ n, of sv] by metis
  from c1(5) assms(2) have "length (channels c1) < 64" by simp
  then obtain c2 where c2: "session_open_channel sv ?n c1 = (Some (length (channels c1)), c2)" "idle_plain c2" "rx c2 = rx c1"
    "next_local_id c2 = next_local_id c1 + 1"
    "channels c2 = channels c1 @ [\<lparr>local_id = next_local_id c1, remote_id = 0, service = ?n, chan_state = CHAN_OPENING\<rparr>]"
    using session_open_idle [OF c1(2) _ n, of sv] by metis
  from c2(5) c1(5) assms(2) have "length (channels c2) < 64" by simp
  then obtain c3 where c3: "session_open_channel sv ?n c2 = (Some (length (channels c2)), c3)" "idle_plain c3" "rx c3 = rx c2"
    "next_local_id c3 = next_local_id c2 + 1"
    "channels c3 = channels c2 @ [\<lparr>local_id = next_local_id c2, remote_id = 0, service = ?n, chan_state = CHAN_OPENING\<rparr>]"
    using session_open_idle [OF c2(2) _ n, of sv] by metis
  show thesis
  proof (rule that [of c3])
    show "open_streams sv cfg c = (True, (Some 1, Some 2, Some 3), c3)"
      using c1 c2 c3 assms by (simp add: open_streams_def open_stream_def)
    show "channels c3 = pending_channels cfg"
      using c1(4,5) c2(4,5) c3(4,5) assms(2,3) by (simp add: pending_channels_def stream_channel_def)
  qed (use c1 c2 c3 in simp_all)
qed

definition okay_frame :: "u32 \<Rightarrow> u32 \<Rightarrow> adb_message \<times> bytes" where
  "okay_frame rid lid = (make_header ADB_OKAY rid lid 0 0, [])"

text \<open>The state of the threads' structure after the device has opened the four channels.\<close>

lemma relay_opens:
  assumes "running r" and "reader_buf r = Some pl" and "idle_plain (conn r)"
    and "channels (conn r) = pending_channels cfg"
    and av: "ready (rx (conn r)) = concat (map frame_bytes [okay_frame s 1, okay_frame v 2, okay_frame a 3, okay_frame k 4]) @ rest"
  obtains x where "ready x = rest"
    and "relay_run sv junk (replicate 4 Reader) r = r\<lparr>conn := (conn r)\<lparr>rx := x, channels :=
       [(hd (pending_channels cfg))\<lparr>remote_id := s, chan_state := CHAN_OPEN\<rparr>,
        stream_channel 2 v CHAN_OPEN, stream_channel 3 a CHAN_OPEN, stream_channel 4 k CHAN_OPEN]\<rparr>\<rparr>"
proof -
  have upd: "running (r\<lparr>conn := (conn r)\<lparr>rx := x, channels := chs\<rparr>\<rparr>)"
    "reader_buf (r\<lparr>conn := (conn r)\<lparr>rx := x, channels := chs\<rparr>\<rparr>) = Some pl"
    "idle_plain (conn (r\<lparr>conn := (conn r)\<lparr>rx := x, channels := chs\<rparr>\<rparr>))" for x chs
    using assms(1-3) by (simp_all add: idle_plain_def)
  let ?h = "\<lambda>rid lid. header_bytes (make_header ADB_OKAY rid lid 0 0)"
  let ?e = "\<lambda>rid lid chs. open_channel_entry lid rid chs"
  have av1: "ready (rx (conn r)) = ?h s 1 @ ?h v 2 @ ?h a 3 @ ?h k 4 @ rest"
    using av by (simp add: okay_frame_def frame_bytes_def)
  obtain x1 where x1: "ready x1 = ?h v 2 @ ?h a 3 @ ?h k 4 @ rest"
    "reader_turn sv junk r = r\<lparr>conn := (conn r)\<lparr>rx := x1, channels := ?e s 1 (channels (conn r))\<rparr>\<rparr>" (is "_ = ?r1")
    using reader_turn_okay [OF assms(1-3) av1] by blast
  from x1(1) have "ready (rx (conn ?r1)) = ?h v 2 @ ?h a 3 @ ?h k 4 @ rest" by simp
  from reader_turn_okay [OF upd this, of sv junk] obtain x2 where x2: "ready x2 = ?h a 3 @ ?h k 4 @ rest"
    "reader_turn sv junk ?r1 = r\<lparr>conn := (conn r)\<lparr>rx := x2, channels := ?e v 2 (?e s 1 (channels (conn r)))\<rparr>\<rparr>" (is "_ = ?r2")
    by auto
  from x2(1) have "ready (rx (conn ?r2)) = ?h a 3 @ ?h k 4 @ rest" by simp
  from reader_turn_okay [OF upd this, of sv junk] obtain x3 where x3: "ready x3 = ?h k 4 @ rest"
    "reader_turn sv junk ?r2 = r\<lparr>conn := (conn r)\<lparr>rx := x3, channels := ?e a 3 (?e v 2 (?e s 1 (channels (conn r))))\<rparr>\<rparr>" (is "_ = ?r3")
    by auto
  from x3(1) have "ready (rx (conn ?r3)) = ?h k 4 @ rest" by simp
  from reader_turn_okay [OF upd this, of sv junk] obtain x4 where x4: "ready x4 = rest"
    "reader_turn sv junk ?r3 = r\<lparr>conn := (conn r)\<lparr>rx := x4, channels := ?e k 4 (?e a 3 (?e v 2 (?e s 1 (channels (conn r)))))\<rparr>\<rparr>"
    by auto
  have "?e k 4 (?e a 3 (?e v 2 (?e s 1 (channels (conn r))))) =
     [(hd (pending_channels cfg))\<lparr>remote_id := s, chan_state := CHAN_OPEN\<rparr>,
        stream_channel 2 v CHAN_OPEN, stream_channel 3 a CHAN_OPEN, stream_channel 4 k CHAN_OPEN]"
    unfolding assms(4) by (simp add: pending_channels_def open_channel_entry_def stream_channel_def)
  then show thesis
    using that [OF x4(1)] x1(2) x2(2) x3(2) x4(2) by (simp add: numeral_eq_Suc)
qed

text \<open>
  A device that opens the four channels, in whatever chunks its answers come, and then sends
  one message on the video channel.
\<close>

definition device_opens :: "u32 \<Rightarrow> u32 \<Rightarrow> u32 \<Rightarrow> u32 \<Rightarrow> bytes \<Rightarrow> bytes" where
  "device_opens s v a k data =
     concat (map frame_bytes [okay_frame s 1, okay_frame v 2, okay_frame a 3, okay_frame k 4]) @
     frame_bytes (make_header ADB_WRTE v 2 (word_of_nat (length data)) 0, data)"

lemma relay_opens_and_streams:
  assumes "running r" and "reader_buf r = Some pl" and "idle_plain (conn r)"
    and "channels (conn r) = pending_channels cfg"
    and "video_chan r = Some 1" "audio_chan r = Some 2" "ctrl_chan r = Some 3"
    and "sends (video_out r) = []" "sends (audio_out r) = []" "sends (ctrl_out r) = []" "wire (video_out r) = []"
    and av: "ready (rx (conn r)) = device_opens s v a k data @ rest"
    and ids: "v \<noteq> 0" "a \<noteq> 0" "k \<noteq> 0" "v \<noteq> a" "v \<noteq> k" "a \<noteq> k"
    and len: "length data \<le> ADB_MAX_PAYLOAD"
    and run: "relay_run sv junk (replicate 5 Reader) r = r'"
  shows "wire (video_out r') = data \<and> running r' \<and>
     (\<forall>i \<in> {1, 2, 3}. chan_state (channels (conn r') ! i) = CHAN_OPEN)"
proof -
  let ?m = "make_header ADB_WRTE v 2 (word_of_nat (length data)) 0"
  let ?chs = "[(hd (pending_channels cfg))\<lparr>remote_id := s, chan_state := CHAN_OPEN\<rparr>,
        stream_channel 2 v CHAN_OPEN, stream_channel 3 a CHAN_OPEN, stream_channel 4 k CHAN_OPEN]"
  have "ready (rx (conn r)) = concat (map frame_bytes [okay_frame s 1, okay_frame v 2, okay_frame a 3, okay_frame k 4]) @
      (frame_bytes (?m, data) @ rest)" using av by (simp add: device_opens_def)
  from relay_opens [OF assms(1-4) this] obtain x where x: "ready x = frame_bytes (?m, data) @ rest"
    "relay_run sv junk (replicate 4 Reader) r = r\<lparr>conn := (conn r)\<lparr>rx := x, channels := ?chs\<rparr>\<rparr>" (is "_ = ?r4") by metis
  have split: "relay_run sv junk (ts @ us) q = relay_run sv junk us (relay_run sv junk ts q)" for ts us q
  proof (induction ts arbitrary: q)
    case (Cons t ts)
    then show ?case by (cases t) simp_all
  qed simp
  have "replicate 5 Reader = replicate 4 Reader @ [Reader]" by (simp add: numeral_eq_Suc)
  then have r': "r' = reader_turn sv junk ?r4" using run split [of "replicate 4 Reader" "[Reader]" r] x(2) by simp
  have rel: "relaying 3 4 k ?r4"
    using assms(1-3,5-10) ids
    by (simp add: relaying_def apart_def Let_def chan_id_def stream_channel_def idle_plain_def)
  have n: "unat (word_of_nat (length data) :: u32) = length data"
    using len by (intro unat_of_nat32) (simp add: ADB_MAX_PAYLOAD_def)
  have "valid_frame (int ADB_MAX_PAYLOAD) True ?m data"
    using len n by (simp add: valid_frame_def make_header_def checksum_ok_def ADB_MAX_PAYLOAD_def)
  then have st: "streaming (channels (conn ?r4)) ((?m, data) # [])"
    by (simp add: streaming_def make_header_def)
  have av4: "ready (rx (conn ?r4)) = frame_bytes (?m, data) @ rest" using x(1) by simp
  note step = reader_turn_step [OF rel st av4, of sv junk, folded r']
  have "chan_id (conn ?r4) (video_chan ?r4) = Some v" using assms(5) by (simp add: chan_id_def stream_channel_def)
  then have "wire (video_out r') = data"
    using step assms(11) by (simp add: relayed_def routed_def make_header_def)
  moreover have "channels (conn r') = ?chs" using step by (simp add: make_header_def)
  ultimately show ?thesis using step by (simp add: relaying_def stream_channel_def)
qed

text \<open>The first wait on such a device: after it the three channels are open and the head of the stream is relayed.\<close>

lemma first_wait_opens:
  assumes "idle_plain c" and "channels c = pending_channels cfg" and "malloc sv ADB_MAX_PAYLOAD"
    and "ready (rx c) = device_opens s v a k data @ rest" and "length data \<le> ADB_MAX_PAYLOAD"
    and ids: "v \<noteq> 0" "a \<noteq> 0" "k \<noteq> 0" "v \<noteq> a" "v \<noteq> k" "a \<noteq> k"
    and threads: "t < 300" "turns t = replicate 5 Reader" "\<forall>j. t < j \<longrightarrow> turns j = []"
  obtains r where "wait_channel sv junk turns (Some 1) 300 (new_reader sv junk (Some 1, Some 2, Some 3) sent c) = r"
    and "wire (video_out r) = data" and "\<forall>i \<in> {1, 2, 3}. chan_state (channels (conn r) ! i) = CHAN_OPEN"
proof -
  let ?r0 = "new_reader sv junk (Some 1, Some 2, Some 3) sent c"
  obtain r1 where r1: "relay_run sv junk (replicate 5 Reader) ?r0 = r1" by simp
  have done1: "wire (video_out r1) = data \<and> running r1 \<and>
     (\<forall>i \<in> {1, 2, 3}. chan_state (channels (conn r1) ! i) = CHAN_OPEN)"
    by (rule relay_opens_and_streams [OF _ _ _ _ _ _ _ _ _ _ _ _ ids assms(5) r1, where rest = rest and pl = junk and cfg = cfg])
      (use assms(1-4) in \<open>simp_all add: new_reader_def\<close>)
  have shut: "chan_state (channels (conn ?r0) ! 1) \<noteq> CHAN_OPEN"
    by (simp add: new_reader_def assms(2) pending_channels_def stream_channel_def)
  then have "wait_channel sv junk turns (Some 1) 300 ?r0 = wait_channel sv junk turns (Some 1) (Suc t) ?r0"
    using threads(1,3) by (rule wait_channel_idle)
  also have "\<dots> = r1" using threads(2) r1 done1 shut by (simp add: wait_channel_open)
  finally show thesis using that done1 by blast
qed

lemma server_start_started_by_device:
  assumes cfg: "serial (config srv) = Some (h @ '':'' @ decimal p)" "h \<noteq> []" "length h < 256" "p < 65536"
      "server_path (config srv) = None" "audio (config srv)" "control (config srv)"
    and env: "connect_to env h (word_of_nat p) = Some c" "\<forall>e. pair_ok env e" "reader_ok env"
      "malloc sv ADB_MAX_PAYLOAD" "malloc sv 12"
    and conn: "idle_plain c" "state c = ADB_STATE_CONNECTED" "channels c = []" "next_local_id c = 1" "selects c = []"
    and device: "ready (rx c) = device_opens s v a k data @ rest"
      "data = dummy # name @ write32be codec @ write32be w @ write32be ht @ hdr @ packets"
      "length name = 64" "length hdr = 12" "length data \<le> ADB_MAX_PAYLOAD"
      "v \<noteq> 0" "a \<noteq> 0" "k \<noteq> 0" "v \<noteq> a" "v \<noteq> k" "a \<noteq> k"
    and threads: "t < 300" "progress env 0 t = replicate 5 Reader" "\<forall>j. t < j \<longrightarrow> progress env 0 j = []"
      "progress env 3 0 = []"
  shows "\<exists>srv' vs s ends. server_start sv env srv (video_socket_init None) = Started srv' vs ends \<and>
     srv_running srv' \<and> set ends = UNIV \<and> video_codec_id vs = codec \<and> width vs = w \<and> height vs = ht \<and>
     video_fd vs = Some s \<and> pending vs @ stream s = (if bit (hdr ! 0) 7 then packets else hdr @ packets)"
proof -
  let ?cfg = "config srv" and ?c = "c\<lparr>on_shell_output := True\<rparr>" and ?junk = "snd (stack env)"
  have ser: "parse_serial (serial ?cfg) 256 = Some (h, word_of_nat p)"
    using parse_serial_host_port [OF cfg(2,3,4)] cfg(1) by simp
  have "idle_plain ?c" "state ?c = ADB_STATE_CONNECTED" "channels ?c = []" "next_local_id ?c = 1"
    using conn by (simp_all add: idle_plain_def)
  from shell_opens [OF this, of sv ?cfg] obtain c3 where c3: "adb_shell sv (server_command ?cfg) ?c = (True, c3)"
    "idle_plain c3" "rx c3 = rx ?c" "selects c3 = selects ?c" "next_local_id c3 = 2"
    "channels c3 = [hd (pending_channels ?cfg)]" by metis
  from streams_open [OF c3(2,6,5) cfg(6,7), of sv] obtain c4 where
    c4: "open_streams sv ?cfg c3 = (True, (Some 1, Some 2, Some 3), c4)" "idle_plain c4" "rx c4 = rx c3"
      "channels c4 = pending_channels ?cfg" by metis
  let ?ends = "[Video_Read, Video_Write, Audio_Read, Audio_Write, Ctrl_Read, Ctrl_Write]"
  have pairs: "make_pairs (pair_ok env) (Some 2) (Some 3) = (True, ?ends)" using env(2) by (simp add: make_pairs_def)
  have quiet: "selects c3 = []" "selects ?c = []" using c3(4) conn(5) by simp_all
  have start: "server_start sv env srv (video_socket_init None) =
      start_threads sv env srv (video_socket_init None) (Some 1, Some 2, Some 3) ?ends c4"
    by (rule server_start_no_push(2) [OF ser env(1) server_drain_quiet [OF quiet(2)] cfg(5) c3(1) _ TrueI TrueI pairs env(3)])
      (simp add: pump_rounds_quiet [OF quiet(1)] c4(1))
  have "ready (rx c4) = device_opens s v a k data @ rest" using c4(3) c3(3) device(1) by simp
  from first_wait_opens [OF c4(2,4) env(4) this device(5-11) threads(1-3)] obtain r1 where
    w1: "wait_channel sv ?junk (progress env 0) (Some 1) 300
      (new_reader sv ?junk (Some 1, Some 2, Some 3) (written env) c4) = r1"
    and done1: "wire (video_out r1) = data" "\<forall>i \<in> {1, 2, 3}. chan_state (channels (conn r1) ! i) = CHAN_OPEN" .
  have w2: "wait_channel sv ?junk f (Some i) 300 r1 = r1" if "i \<in> {1, 2, 3}" for f i
    using done1(2) that by (intro wait_channel_open) blast
  obtain vs s where meta: "read_video_metadata (malloc sv) (video_socket_init None) [Arrive data] = (True, vs, s)"
    "video_codec_id vs = codec" "width vs = w" "height vs = ht"
    "pending vs @ stream s = (if bit (hdr ! 0) 7 then packets else hdr @ packets)"
    using video_metadata_read [of "[Arrive data]" dummy name codec w ht hdr packets "malloc sv" "video_socket_init None"]
      device(2-4) env(5) by (auto simp: video_socket_init_def)
  have op: "(chan_state (channels (conn r1) ! 1) \<noteq> CHAN_OPEN) = False" and wire: "wire (video_out r1) = data"
    using done1 by simp_all
  have w3: "wait_channel sv ?junk f (Some 2) 300 r1 = r1" "wait_channel sv ?junk f (Some 3) 300 r1 = r1" for f
    by (rule w2, simp)+
  have all: "set ?ends = UNIV" by (auto intro: pipe_end.exhaust)
  have "start_threads sv env srv (video_socket_init None) (Some 1, Some 2, Some 3) ?ends c4 =
     Started (srv\<lparr>srv_reader := Some r1, srv_ends := [Video_Read, Video_Write], srv_running := True\<rparr>)
       (vs\<lparr>video_fd := Some s\<rparr>) ?ends"
    unfolding start_threads_def Let_def prod.case option.sel w1 op if_False w3 threads(4) relay_run.simps(1) wire meta(1) bool.case
    by (rule refl)
  with start meta(2-5) all show ?thesis
    by (intro exI [of _ "srv\<lparr>srv_reader := Some r1, srv_ends := [Video_Read, Video_Write], srv_running := True\<rparr>"]
        exI [of _ "vs\<lparr>video_fd := Some s\<rparr>"] exI [of _ s] exI [of _ ?ends]) simp
qed


text \<open>A concrete start: the device's bytes arrive in two chunks, one wait after the first look.\<close>

definition example_metadata :: bytes where
  "example_metadata =
     0 # replicate 64 65 @ write32be 0x68323634 @ write32be 1080 @ write32be 2400 @ replicate 12 1 @ [5]"

definition example_device :: adb_connection where
  "example_device =
     example_connection\<lparr>rx := [Arrive (device_opens 11 12 13 14 example_metadata), Arrive [9]]\<rparr>"

lemma example_device_facts:
  "serial (config (server_init example_config)) = Some (''10.0.0.2'' @ '':'' @ decimal 5555)" "''10.0.0.2'' \<noteq> []"
  "length ''10.0.0.2'' < 256" "(5555 :: nat) < 65536" "server_path (config (server_init example_config)) = None"
  "audio (config (server_init example_config))" "control (config (server_init example_config))"
  "connect_to (example_env example_device) ''10.0.0.2'' (word_of_nat 5555) = Some example_device"
  "\<forall>e. pair_ok (example_env example_device) e" "reader_ok (example_env example_device)"
  "malloc plain_services ADB_MAX_PAYLOAD" "malloc plain_services 12"
  "idle_plain example_device" "state example_device = ADB_STATE_CONNECTED" "channels example_device = []"
  "next_local_id example_device = 1" "selects example_device = []"
  by (simp_all add: server_init_def example_config_def example_env_def plain_services_def example_device_def
      example_connection_def idle_plain_def pair_ok_def pair_made_iff example_sockets_def)

lemma example_device_stream:
  "ready (rx example_device) = device_opens 11 12 13 14 example_metadata @ [9]"
  "example_metadata = 0 # replicate 64 65 @ write32be 0x68323634 @ write32be 1080 @ write32be 2400 @ replicate 12 1 @ [5]"
  "length (replicate 64 65 :: bytes) = 64" "length (replicate 12 1 :: bytes) = 12"
  "length example_metadata \<le> ADB_MAX_PAYLOAD" "(12 :: u32) \<noteq> 0" "(13 :: u32) \<noteq> 0" "(14 :: u32) \<noteq> 0"
  "(12 :: u32) \<noteq> 13" "(12 :: u32) \<noteq> 14" "(13 :: u32) \<noteq> 14" "(299 :: nat) < 300"
  "progress (example_env example_device) 0 299 = replicate 5 Reader"
  "\<forall>j. 299 < j \<longrightarrow> progress (example_env example_device) 0 j = []" "progress (example_env example_device) 3 0 = []"
proof -
  have "device_opens 11 12 13 14 example_metadata \<noteq> []"
    by (simp add: device_opens_def frame_bytes_def flip: length_0_conv)
  then show "ready (rx example_device) = device_opens 11 12 13 14 example_metadata @ [9]"
    by (simp add: example_device_def)
qed (simp_all add: example_metadata_def ADB_MAX_PAYLOAD_def example_env_def)

lemma example_device_starts:
  "\<exists>srv' vs s ends. server_start plain_services (example_env example_device) (server_init example_config)
       (video_socket_init None) = Started srv' vs ends \<and>
     srv_running srv' \<and> set ends = UNIV \<and> video_codec_id vs = 0x68323634 \<and> width vs = 1080 \<and> height vs = 2400 \<and>
     video_fd vs = Some s \<and> pending vs @ stream s =
       (if bit ((replicate 12 1 :: bytes) ! 0) 7 then [5] else replicate 12 1 @ [5])"
  by (rule server_start_started_by_device [OF example_device_facts example_device_stream])


theorem server_destroy_leaks_pipes_witness:
  "\<exists>srv' vs ends. server_start plain_services (example_env example_device) (server_init example_config)
       (video_socket_init None) = Started srv' vs ends \<and> Ctrl_Write \<in> set (fst (snd (server_destroy plain_services srv' ends)))"
proof -
  obtain srv' vs ends where st: "server_start plain_services (example_env example_device) (server_init example_config)
       (video_socket_init None) = Started srv' vs ends" using example_device_starts by blast
  from server_destroy_leaks_pipes [OF st] st show ?thesis
    by (auto simp: server_init_def example_config_def intro!: exI)
qed

end
