(* ===== verification/Nv12.thy ===== *)
theory Nv12
  imports Prelude
begin

text \<open>
  \<open>frame_to_nv12\<close> of \<open>src/decode/video_decoder.c\<close>: a decoded planar picture becomes one block of
  memory with the luma rows and then rows of interleaved chroma pairs. Every access is checked
  against its block: \<open>None\<close> is an access outside.
\<close>

section \<open>Pictures\<close>

text \<open>The decoder's picture, as far as the code reads it: dimensions as the code converts them to
  \<open>uint32_t\<close>, planes and strides. Index arithmetic is that of \<open>uint32_t\<close>.\<close>

record av_frame =
  av_width :: nat
  av_height :: nat
  y_plane :: bytes
  u_plane :: bytes
  v_plane :: bytes
  y_stride :: nat
  uv_stride :: nat

record video_frame =
  nv12_data :: "bytes option"
  frame_width :: nat
  frame_height :: nat
  frame_format :: nat

section \<open>Loops that count up\<close>

fun steps :: "(nat \<Rightarrow> 's \<Rightarrow> 's option) \<Rightarrow> nat list \<Rightarrow> 's \<Rightarrow> 's option" where
  "steps f [] s = Some s"
| "steps f (k # ks) s = Option.bind (f k s) (steps f ks)"

text \<open>The rule for a loop that counts up, with an invariant.\<close>

lemma steps_invariant:
  assumes "\<And>k s. a \<le> k \<Longrightarrow> k < n \<Longrightarrow> I k s \<Longrightarrow> \<exists>s'. f k s = Some s' \<and> I (Suc k) s'" and "I a s" and "a \<le> n"
  shows "\<exists>s'. steps f [a..<n] s = Some s' \<and> I n s'"
  using assms
proof (induction "n - a" arbitrary: a s)
  case 0
  then show ?case by simp
next
  case (Suc d)
  then have lt: "a < n" by simp
  obtain s1 where s1: "f a s = Some s1" "I (Suc a) s1" using Suc.prems(1,2) lt by blast
  have "\<exists>s'. steps f [Suc a..<n] s1 = Some s' \<and> I n s'"
    by (rule Suc.hyps(1)) (use Suc.prems(1) Suc.hyps(2) s1(2) lt in auto)
  then show ?case using lt s1(1) by (simp add: upt_conv_Cons)
qed

section \<open>frame\_to\_nv12\<close>

definition copy_luma_row :: "av_frame \<Rightarrow> nat \<Rightarrow> bytes \<Rightarrow> bytes option" where
  "copy_luma_row src row dst =
     (let w = av_width src
      in Option.bind (read_at (y_plane src) (u32n (row * y_stride src)) w)
           (write_at dst (u32n (row * w))))"

definition copy_chroma :: "av_frame \<Rightarrow> nat \<Rightarrow> nat \<Rightarrow> bytes \<Rightarrow> bytes option" where
  "copy_chroma src row col dst =
     (let w = av_width src;
          uv_dst = u32n (w * av_height src);
          from = u32n (row * uv_stride src + col)
      in Option.bind (read_at (u_plane src) from 1) (\<lambda>u.
         Option.bind (write_at dst (uv_dst + u32n (row * w + col * 2 + 0)) u) (\<lambda>d1.
         Option.bind (read_at (v_plane src) from 1) (\<lambda>v.
         write_at d1 (uv_dst + u32n (row * w + col * 2 + 1)) v))))"

definition copy_chroma_row :: "av_frame \<Rightarrow> nat \<Rightarrow> bytes \<Rightarrow> bytes option" where
  "copy_chroma_row src row = steps (copy_chroma src row) [0..<av_width src div 2]"

definition nv12_size :: "nat \<Rightarrow> nat \<Rightarrow> nat" where
  "nv12_size w h = u32n (w * h + w * (h div 2))"

text \<open>\<open>mal\<close> gives a block of the size asked for, or nothing; what is in it is arbitrary.\<close>

definition frame_to_nv12 :: "(nat \<Rightarrow> bytes option) \<Rightarrow> av_frame \<Rightarrow> (bool \<times> video_frame) option" where
  "frame_to_nv12 mal src =
     (let w = av_width src; h = av_height src;
          dst = \<lparr>nv12_data = None, frame_width = w, frame_height = h, frame_format = 0\<rparr>
      in case mal (nv12_size w h) of
           None \<Rightarrow> Some (False, dst)
         | Some block \<Rightarrow>
             Option.bind (steps (copy_luma_row src) [0..<h] block) (\<lambda>b1.
             Option.bind (steps (copy_chroma_row src) [0..<h div 2] b1) (\<lambda>b2.
             Some (True, dst\<lparr>nv12_data := Some b2\<rparr>))))"


section \<open>What the block holds\<close>

definition picture_ok :: "av_frame \<Rightarrow> bool" where
  "picture_ok src \<longleftrightarrow>
     av_width src * av_height src + av_width src * (av_height src div 2) < 2 ^ 32 \<and>
     length (y_plane src) < 2 ^ 32 \<and> length (u_plane src) < 2 ^ 32 \<and> length (v_plane src) < 2 ^ 32 \<and>
     (\<forall>row < av_height src. row * y_stride src + av_width src \<le> length (y_plane src)) \<and>
     (\<forall>row < av_height src div 2. row * uv_stride src + av_width src div 2 \<le> length (u_plane src) \<and>
        row * uv_stride src + av_width src div 2 \<le> length (v_plane src))"

definition luma_rows :: "av_frame \<Rightarrow> nat \<Rightarrow> bytes \<Rightarrow> bool" where
  "luma_rows src n d \<longleftrightarrow>
     (\<forall>row < n. \<forall>col < av_width src. d ! (row * av_width src + col) = y_plane src ! (row * y_stride src + col))"

definition chroma_pair :: "av_frame \<Rightarrow> nat \<Rightarrow> nat \<Rightarrow> bytes \<Rightarrow> bool" where
  "chroma_pair src row col d \<longleftrightarrow>
     (let at = av_width src * av_height src + row * av_width src + 2 * col
      in d ! at = u_plane src ! (row * uv_stride src + col) \<and> d ! (at + 1) = v_plane src ! (row * uv_stride src + col))"

definition chroma_rows :: "av_frame \<Rightarrow> nat \<Rightarrow> bytes \<Rightarrow> bool" where
  "chroma_rows src n d \<longleftrightarrow> (\<forall>row < n. \<forall>col < av_width src div 2. chroma_pair src row col d)"

lemma cell_before: "row < n \<Longrightarrow> col < w \<Longrightarrow> row * w + col < n * (w :: nat)"
proof -
  assume "row < n" "col < w"
  then have "row * w + col < Suc row * w" by simp
  also have "\<dots> \<le> n * w" using \<open>row < n\<close> by (intro mult_le_mono1) simp
  finally show ?thesis .
qed

lemma row_fits: "row < n \<Longrightarrow> row * w + w \<le> n * (w :: nat)"
  using mult_le_mono1 [of "Suc row" n w] by simp

lemma copy_luma_row_ok:
  assumes ok: "picture_ok src" and row: "row < av_height src"
    and len: "length d = nv12_size (av_width src) (av_height src)" and done': "luma_rows src row d"
  shows "\<exists>d'. copy_luma_row src row d = Some d' \<and> length d' = length d \<and> luma_rows src (Suc row) d'"
proof -
  let ?w = "av_width src" and ?h = "av_height src"
  have size: "length d = ?w * ?h + ?w * (?h div 2)" using ok len by (simp add: picture_ok_def nv12_size_def)
  have fit: "row * ?w + ?w \<le> ?h * ?w" using row by (rule row_fits)
  then have in_d: "row * ?w + ?w \<le> length d" using size by (simp add: mult.commute)
  have lt: "row * ?w < 2 ^ 32" "row * y_stride src < 2 ^ 32"
    using ok row in_d size by (auto simp: picture_ok_def)
  have src: "row * y_stride src + ?w \<le> length (y_plane src)" using ok row by (simp add: picture_ok_def)
  define r where "r = take ?w (drop (row * y_stride src) (y_plane src))"
  have r: "length r = ?w" "\<And>c. c < ?w \<Longrightarrow> r ! c = y_plane src ! (row * y_stride src + c)"
    using src by (simp_all add: r_def)
  obtain d' where d': "write_at d (row * ?w) r = Some d'" "length d' = length d"
    "\<And>j. j < length d \<Longrightarrow> d' ! j = (if row * ?w \<le> j \<and> j < row * ?w + ?w then r ! (j - row * ?w) else d ! j)"
    using write_at_ok [of "row * ?w" r d] in_d r(1) by auto
  have "luma_rows src (Suc row) d'"
    unfolding luma_rows_def
  proof (intro allI impI)
    fix i c assume i: "i < Suc row" and c: "c < ?w"
    show "d' ! (i * ?w + c) = y_plane src ! (i * y_stride src + c)"
    proof (cases "i = row")
      case True
      then show ?thesis using d'(3) [of "row * ?w + c"] c in_d r(2) [OF c] by simp
    next
      case False
      then have b: "i * ?w + c < row * ?w" using i c by (intro cell_before) simp_all
      then show ?thesis using d'(3) [of "i * ?w + c"] done' i False c in_d by (simp add: luma_rows_def)
    qed
  qed
  then show ?thesis
    using d'(1,2) lt src by (simp add: copy_luma_row_def Let_def read_at_ok r_def)
qed

text \<open>A chroma pair is written behind everything written before it.\<close>

lemma copy_chroma_cells:
  assumes ok: "picture_ok src" and row: "row < av_height src div 2" and col: "col < av_width src div 2"
    and len: "length d = nv12_size (av_width src) (av_height src)"
  obtains d' where "copy_chroma src row col d = Some d'" "length d' = length d" "chroma_pair src row col d'"
    "\<And>j. j < av_width src * av_height src + row * av_width src + 2 * col \<Longrightarrow> d' ! j = d ! j"
proof -
  let ?w = "av_width src" and ?h = "av_height src" and ?from = "row * uv_stride src + col"
  let ?at = "?w * ?h + row * ?w + 2 * col"
  have size: "length d = ?w * ?h + ?w * (?h div 2)" "length d < 2 ^ 32"
    using ok len by (simp_all add: picture_ok_def nv12_size_def)
  have "row * ?w + ?w \<le> (?h div 2) * ?w" using row by (rule row_fits)
  then have in_d: "?at + 1 < length d" using col size by (simp add: mult.commute)
  have src: "?from < length (u_plane src)" "?from < length (v_plane src)" "?from < 2 ^ 32"
    using ok row col by (fastforce simp: picture_ok_def)+
  have nums: "u32n (?w * ?h) = ?w * ?h" "u32n (row * ?w + col * 2 + 0) = row * ?w + 2 * col"
    "u32n (row * ?w + col * 2 + 1) = row * ?w + 2 * col + 1" "u32n ?from = ?from"
    using in_d size src by simp_all
  have get: "read_at (u_plane src) ?from 1 = Some [u_plane src ! ?from]"
    "read_at (v_plane src) ?from 1 = Some [v_plane src ! ?from]"
    using src by (simp_all add: read_at_def take_Suc_conv_app_nth hd_drop_conv_nth take_Suc)
  have at: "?w * ?h + (row * ?w + 2 * col) = ?at" "?w * ?h + (row * ?w + 2 * col + 1) = ?at + 1" by simp_all
  obtain d1 where d1: "write_at d ?at [u_plane src ! ?from] = Some d1" "length d1 = length d"
    "\<And>j. j < length d \<Longrightarrow> d1 ! j = (if ?at \<le> j \<and> j < ?at + 1 then [u_plane src ! ?from] ! (j - ?at) else d ! j)"
    using write_at_ok [of ?at "[u_plane src ! ?from]" d] in_d by auto
  obtain d2 where d2: "write_at d1 (?at + 1) [v_plane src ! ?from] = Some d2" "length d2 = length d1"
    "\<And>j. j < length d1 \<Longrightarrow> d2 ! j = (if ?at + 1 \<le> j \<and> j < ?at + 2 then [v_plane src ! ?from] ! (j - (?at + 1)) else d1 ! j)"
    using write_at_ok [of "?at + 1" "[v_plane src ! ?from]" d1] in_d d1(2) by auto
  have "copy_chroma src row col d = Some d2"
    unfolding copy_chroma_def Let_def nums get Option.bind.bind_lunit at using d1(1) d2(1) by simp
  moreover have "chroma_pair src row col d2"
    using d2(3) [of ?at] d2(3) [of "?at + 1"] d1(3) [of ?at] in_d d1(2) by (simp add: chroma_pair_def Let_def)
  moreover have "d2 ! j = d ! j" if "j < ?at" for j
    using d2(3) [of j] d1(3) [of j] in_d d1(2) that by simp
  ultimately show ?thesis using that d2(2) d1(2) by simp
qed

definition chroma_done :: "av_frame \<Rightarrow> nat \<Rightarrow> nat \<Rightarrow> bytes \<Rightarrow> bool" where
  "chroma_done src row col d \<longleftrightarrow>
     length d = nv12_size (av_width src) (av_height src) \<and> luma_rows src (av_height src) d \<and>
     chroma_rows src row d \<and> (\<forall>c < col. chroma_pair src row c d)"

lemma copy_chroma_done:
  assumes ok: "picture_ok src" and row: "row < av_height src div 2" and col: "col < av_width src div 2"
    and done': "chroma_done src row col d"
  shows "\<exists>d'. copy_chroma src row col d = Some d' \<and> chroma_done src row (Suc col) d'"
proof -
  let ?w = "av_width src" and ?h = "av_height src"
  let ?at = "?w * ?h + row * ?w + 2 * col"
  have len: "length d = nv12_size ?w ?h" using done' by (simp add: chroma_done_def)
  obtain d' where d': "copy_chroma src row col d = Some d'" "length d' = length d" "chroma_pair src row col d'"
    and same: "\<And>j. j < ?at \<Longrightarrow> d' ! j = d ! j"
    using copy_chroma_cells [OF ok row col len] by blast
  have "i * ?w + c < ?at" if "i < ?h" "c < ?w" for i c
    using cell_before [OF that] by (simp add: mult.commute)
  then have "luma_rows src ?h d'" using done' same by (simp add: chroma_done_def luma_rows_def)
  moreover have keep: "chroma_pair src i c d'" if "chroma_pair src i c d" "i * ?w + 2 * c + 1 < row * ?w + 2 * col" for i c
    using that same by (simp add: chroma_pair_def Let_def)
  have "chroma_rows src row d'"
    unfolding chroma_rows_def
  proof (intro allI impI)
    fix i c assume i: "i < row" and c: "c < ?w div 2"
    have "i * ?w + (2 * c + 1) < row * ?w" using i c by (intro cell_before) simp_all
    then show "chroma_pair src i c d'" using keep [of i c] done' i c by (simp add: chroma_done_def chroma_rows_def)
  qed
  moreover have "chroma_pair src row c d'" if "c < Suc col" for c
    using d'(3) keep [of row c] done' that by (cases "c = col") (simp_all add: chroma_done_def)
  ultimately show ?thesis using d'(1,2) len by (simp add: chroma_done_def)
qed

lemma copy_chroma_row_done:
  assumes "picture_ok src" and "row < av_height src div 2" and "chroma_done src row 0 d"
  shows "\<exists>d'. copy_chroma_row src row d = Some d' \<and> chroma_done src (Suc row) 0 d'"
proof -
  obtain d' where d': "steps (copy_chroma src row) [0..<av_width src div 2] d = Some d'"
    "chroma_done src row (av_width src div 2) d'"
    using steps_invariant [of 0 "av_width src div 2" "chroma_done src row" "copy_chroma src row" d]
      copy_chroma_done [OF assms(1,2)] assms(3) by auto
  then have "chroma_done src (Suc row) 0 d'" by (auto simp: chroma_done_def chroma_rows_def less_Suc_eq)
  with d'(1) show ?thesis by (simp add: copy_chroma_row_def)
qed

lemma nv12_pixels:
  assumes "picture_ok src" and "mal (nv12_size (av_width src) (av_height src)) = Some block"
    and "length block = nv12_size (av_width src) (av_height src)"
  shows "\<exists>d. frame_to_nv12 mal src = Some (True, \<lparr>nv12_data = Some d, frame_width = av_width src,
         frame_height = av_height src, frame_format = 0\<rparr>) \<and>
     length d = av_width src * av_height src + av_width src * (av_height src div 2) \<and>
     luma_rows src (av_height src) d \<and> chroma_rows src (av_height src div 2) d"
proof -
  let ?w = "av_width src" and ?h = "av_height src"
  obtain b1 where b1: "steps (copy_luma_row src) [0..<?h] block = Some b1" "length b1 = nv12_size ?w ?h"
    "luma_rows src ?h b1"
    using steps_invariant [of 0 ?h "\<lambda>row d. length d = nv12_size ?w ?h \<and> luma_rows src row d" "copy_luma_row src" block]
      copy_luma_row_ok [OF assms(1)] assms(3) by (auto simp: luma_rows_def)
  then have start: "chroma_done src 0 0 b1" by (simp add: chroma_done_def chroma_rows_def)
  obtain b2 where b2: "steps (copy_chroma_row src) [0..<?h div 2] b1 = Some b2" "chroma_done src (?h div 2) 0 b2"
    using steps_invariant [of 0 "?h div 2" "\<lambda>row. chroma_done src row 0" "copy_chroma_row src" b1]
      copy_chroma_row_done [OF assms(1)] start by auto
  have "length b2 = ?w * ?h + ?w * (?h div 2)"
    using b2(2) assms(1) by (simp add: chroma_done_def nv12_size_def picture_ok_def)
  then show ?thesis
    using b1(1) b2 assms(2) by (simp add: frame_to_nv12_def Let_def chroma_done_def)
qed

text \<open>For a picture whose planes hold their rows, \<open>frame_to_nv12\<close> stays inside its blocks and gives a
  block of \<open>w * h + w * (h / 2)\<close> bytes in which every luma sample stands at its place and every
  chroma sample in the pair of its position, whatever the strides.\<close>

theorem frame_to_nv12_pixels:
  assumes "picture_ok src" and "mal (nv12_size (av_width src) (av_height src)) = Some block"
    and "length block = nv12_size (av_width src) (av_height src)"
  shows "\<exists>d. frame_to_nv12 mal src = Some (True, \<lparr>nv12_data = Some d, frame_width = av_width src,
         frame_height = av_height src, frame_format = 0\<rparr>) \<and>
     length d = av_width src * av_height src + av_width src * (av_height src div 2) \<and>
     luma_rows src (av_height src) d \<and> chroma_rows src (av_height src div 2) d"
  using assms by (rule nv12_pixels)

theorem frame_to_nv12_pixels_witness:
  "\<exists>d. frame_to_nv12 (\<lambda>n. Some (replicate n 0))
       \<lparr>av_width = 2, av_height = 2, y_plane = [1, 2, 9, 3, 4], u_plane = [5], v_plane = [6], y_stride = 3,
        uv_stride = 1\<rparr> = Some (True, \<lparr>nv12_data = Some d, frame_width = 2, frame_height = 2, frame_format = 0\<rparr>) \<and>
     d ! 2 = 3 \<and> d ! 5 = 6"
proof -
  let ?src = "\<lparr>av_width = 2, av_height = 2, y_plane = [1, 2, 9, 3, 4], u_plane = [5], v_plane = [6], y_stride = 3,
        uv_stride = 1\<rparr>"
  have "picture_ok ?src" by (auto simp: picture_ok_def less_2_cases_iff)
  from frame_to_nv12_pixels [OF this, of "\<lambda>n. Some (replicate n 0)" "replicate (nv12_size 2 2) 0"]
  obtain d where d: "frame_to_nv12 (\<lambda>n. Some (replicate n 0)) ?src =
      Some (True, \<lparr>nv12_data = Some d, frame_width = 2, frame_height = 2, frame_format = 0\<rparr>)"
    "luma_rows ?src 2 d" "chroma_rows ?src 1 d" by auto
  have "d ! (1 * 2 + 0) = y_plane ?src ! (1 * 3 + 0)" using d(2) [unfolded luma_rows_def, rule_format, of 1 0] by simp
  moreover have "d ! (2 * 2 + 0 * 2 + 2 * 0 + 1) = v_plane ?src ! (0 * 1 + 0)"
    using d(3) [unfolded chroma_rows_def, rule_format, of 0 0] by (simp add: chroma_pair_def Let_def)
  ultimately show ?thesis using d(1) by (simp add: eval_nat_numeral)
qed

end
