(* ===== verification/Control_Msg.thy ===== *)
theory Control_Msg
  imports Device_Sockets
begin

text \<open>
  The control messages of \<open>src/control/control_msg.c\<close>: the writer, and the meaning of a message
  as a reader of the wire format sees it.
\<close>

section \<open>The writer\<close>

datatype control_msg_type =
    INJECT_KEYCODE | INJECT_TEXT | INJECT_TOUCH_EVENT | INJECT_SCROLL_EVENT | BACK_OR_SCREEN_ON
  | EXPAND_NOTIFICATION_PANEL | EXPAND_SETTINGS_PANEL | COLLAPSE_PANELS | GET_CLIPBOARD
  | SET_CLIPBOARD | SET_DISPLAY_POWER | ROTATE_DEVICE | UHID_CREATE | UHID_INPUT | UHID_DESTROY
  | OPEN_HARD_KEYBOARD_SETTINGS | START_APP | RESET_VIDEO | CAMERA_SET_TORCH | CAMERA_ZOOM_IN
  | CAMERA_ZOOM_OUT | RESIZE_DISPLAY

fun type_byte :: "control_msg_type \<Rightarrow> byte" where
  "type_byte INJECT_KEYCODE = 0" | "type_byte INJECT_TEXT = 1" | "type_byte INJECT_TOUCH_EVENT = 2"
| "type_byte INJECT_SCROLL_EVENT = 3" | "type_byte BACK_OR_SCREEN_ON = 4"
| "type_byte EXPAND_NOTIFICATION_PANEL = 5" | "type_byte EXPAND_SETTINGS_PANEL = 6"
| "type_byte COLLAPSE_PANELS = 7" | "type_byte GET_CLIPBOARD = 8" | "type_byte SET_CLIPBOARD = 9"
| "type_byte SET_DISPLAY_POWER = 10" | "type_byte ROTATE_DEVICE = 11" | "type_byte UHID_CREATE = 12"
| "type_byte UHID_INPUT = 13" | "type_byte UHID_DESTROY = 14"
| "type_byte OPEN_HARD_KEYBOARD_SETTINGS = 15" | "type_byte START_APP = 16" | "type_byte RESET_VIDEO = 17"
| "type_byte CAMERA_SET_TORCH = 18" | "type_byte CAMERA_ZOOM_IN = 19" | "type_byte CAMERA_ZOOM_OUT = 20"
| "type_byte RESIZE_DISPLAY = 21"

text \<open>
  \<open>args\<close> are the 32-bit values behind \<open>msg_data\<close>; the result is the number of bytes written
  and the buffer. The type is stored before the size is looked at.
\<close>

definition keycode_bytes :: "u32 list \<Rightarrow> bytes" where
  "keycode_bytes args =
     [0, ucast (args ! 0)] @ write32be (args ! 1) @ write32be (args ! 2) @ write32be (args ! 3)"

definition touch_bytes :: "u32 list \<Rightarrow> bytes" where
  "touch_bytes args =
     [2, ucast (args ! 0)] @ write64be (push_bit 32 (ucast (args ! 1)) OR ucast (args ! 2)) @
     write32be (args ! 3) @ write32be (args ! 4) @ write16be (ucast (args ! 5)) @
     write16be (ucast (args ! 6)) @ write16be (ucast (args ! 7)) @ write32be (args ! 8) @
     write32be (args ! 9)"

definition scroll_bytes :: "u32 list \<Rightarrow> bytes" where
  "scroll_bytes args =
     [3] @ write32be (args ! 0) @ write32be (args ! 1) @ write16be (ucast (args ! 2)) @
     write16be (ucast (args ! 3)) @ write16be (ucast (args ! 4)) @ write16be (ucast (args ! 5)) @
     write32be (args ! 6)"

definition control_msg_serialize :: "control_msg_type \<Rightarrow> u32 list \<Rightarrow> bytes \<Rightarrow> nat \<times> bytes" where
  "control_msg_serialize ty args buf =
     (let buf0 = blit [type_byte ty] buf;
          put = (\<lambda>msg. if length buf < length msg then (0, buf0) else (length msg, blit msg buf))
      in case ty of
           INJECT_KEYCODE \<Rightarrow> put (keycode_bytes args)
         | INJECT_TOUCH_EVENT \<Rightarrow> put (touch_bytes args)
         | INJECT_SCROLL_EVENT \<Rightarrow> put (scroll_bytes args)
         | SET_DISPLAY_POWER \<Rightarrow> put [10, if args ! 0 \<noteq> 0 then 1 else 0]
         | BACK_OR_SCREEN_ON \<Rightarrow> (1, buf0)
         | EXPAND_NOTIFICATION_PANEL \<Rightarrow> (1, buf0)
         | EXPAND_SETTINGS_PANEL \<Rightarrow> (1, buf0)
         | COLLAPSE_PANELS \<Rightarrow> (1, buf0)
         | ROTATE_DEVICE \<Rightarrow> (1, buf0)
         | OPEN_HARD_KEYBOARD_SETTINGS \<Rightarrow> (1, buf0)
         | RESET_VIDEO \<Rightarrow> (1, buf0)
         | _ \<Rightarrow> (0, buf0))"

section \<open>The wire format, from the reader's side\<close>

datatype control_meaning =
    Key_Event (key_action: byte) (key_code: u32) (key_repeat: u32) (key_meta: u32)
  | Touch_Event (touch_action: byte) (touch_pointer: u64) (touch_x: u32) (touch_y: u32)
      (touch_width: u16) (touch_height: u16) (touch_pressure: u16) (touch_button: u32) (touch_buttons: u32)
  | Scroll_Event (scroll_x: u32) (scroll_y: u32) (scroll_width: u16) (scroll_height: u16)
      (scroll_h: u16) (scroll_v: u16) (scroll_buttons: u32)
  | Display_Power bool
  | Plain_Request byte

definition control_msg_parse :: "bytes \<Rightarrow> (control_meaning \<times> bytes) option" where
  "control_msg_parse bs =
     (case bs of
        [] \<Rightarrow> None
      | t # d \<Rightarrow>
          if t = 0 then
            (if length d < 13 then None
             else Some (Key_Event (d ! 0) (read32be (drop 1 d)) (read32be (drop 5 d)) (read32be (drop 9 d)), drop 13 d))
          else if t = 2 then
            (if length d < 31 then None
             else Some (Touch_Event (d ! 0) (read64be (drop 1 d)) (read32be (drop 9 d)) (read32be (drop 13 d))
                   (read16be (drop 17 d)) (read16be (drop 19 d)) (read16be (drop 21 d))
                   (read32be (drop 23 d)) (read32be (drop 27 d)), drop 31 d))
          else if t = 3 then
            (if length d < 20 then None
             else Some (Scroll_Event (read32be d) (read32be (drop 4 d)) (read16be (drop 8 d)) (read16be (drop 10 d))
                   (read16be (drop 12 d)) (read16be (drop 14 d)) (read32be (drop 16 d)), drop 20 d))
          else if t = 10 then (if d = [] then None else Some (Display_Power (d ! 0 \<noteq> 0), drop 1 d))
          else Some (Plain_Request t, d))"

fun control_meaning_of :: "control_msg_type \<Rightarrow> u32 list \<Rightarrow> control_meaning" where
  "control_meaning_of INJECT_KEYCODE args = Key_Event (ucast (args ! 0)) (args ! 1) (args ! 2) (args ! 3)"
| "control_meaning_of INJECT_TOUCH_EVENT args =
     Touch_Event (ucast (args ! 0)) (push_bit 32 (ucast (args ! 1)) OR ucast (args ! 2)) (args ! 3) (args ! 4)
       (ucast (args ! 5)) (ucast (args ! 6)) (ucast (args ! 7)) (args ! 8) (args ! 9)"
| "control_meaning_of INJECT_SCROLL_EVENT args =
     Scroll_Event (args ! 0) (args ! 1) (ucast (args ! 2)) (ucast (args ! 3)) (ucast (args ! 4))
       (ucast (args ! 5)) (args ! 6)"
| "control_meaning_of SET_DISPLAY_POWER args = Display_Power (args ! 0 \<noteq> 0)"
| "control_meaning_of ty args = Plain_Request (type_byte ty)"

lemma length_messages [simp]:
  "length (keycode_bytes args) = 14" "length (touch_bytes args) = 32" "length (scroll_bytes args) = 21"
  by (simp_all add: keycode_bytes_def touch_bytes_def scroll_bytes_def)

lemma drop_writes:
  "2 \<le> k \<Longrightarrow> drop k (write16be v @ xs) = drop (k - 2) xs"
  "4 \<le> k \<Longrightarrow> drop k (write32be w @ xs) = drop (k - 4) xs"
  "8 \<le> k \<Longrightarrow> drop k (write64be u @ xs) = drop (k - 8) xs"
  by simp_all

lemma parse_messages:
  "control_msg_parse (keycode_bytes args @ rest) = Some (control_meaning_of INJECT_KEYCODE args, rest)"
  "control_msg_parse (touch_bytes args @ rest) = Some (control_meaning_of INJECT_TOUCH_EVENT args, rest)"
  "control_msg_parse (scroll_bytes args @ rest) = Some (control_meaning_of INJECT_SCROLL_EVENT args, rest)"
  by (simp_all add: control_msg_parse_def keycode_bytes_def touch_bytes_def scroll_bytes_def
      drop_writes drop_Cons' codec_roundtrips)

text \<open>What a writer that reports \<open>n\<close> bytes has put at the front of the buffer.\<close>

lemma control_msg_serialize_cases:
  assumes "control_msg_serialize ty args buf = (n, buf')" and "0 < n"
  obtains msg where "buf' = blit msg buf" and "n = length msg"
    and "\<And>rest. control_msg_parse (msg @ rest) = Some (control_meaning_of ty args, rest)"
proof -
  have one: "control_msg_parse ([type_byte ty] @ rest) = Some (Plain_Request (type_byte ty), rest)"
    if "type_byte ty \<notin> {0, 2, 3, 10}" for rest
    using that by (simp add: control_msg_parse_def)
  have power: "control_msg_parse ([10, if b then 1 else 0] @ rest) = Some (Display_Power b, rest)" for b rest
    by (simp add: control_msg_parse_def)
  note ser = assms(1) [unfolded control_msg_serialize_def Let_def]
  consider (key) "ty = INJECT_KEYCODE" | (touch) "ty = INJECT_TOUCH_EVENT" | (scroll) "ty = INJECT_SCROLL_EVENT"
    | (pow) "ty = SET_DISPLAY_POWER"
    | (plain) "control_meaning_of ty args = Plain_Request (type_byte ty)" "type_byte ty \<notin> {0, 2, 3, 10}"
    by (cases ty) simp_all
  then show thesis
  proof cases
    case key
    with ser assms(2) have "n = length (keycode_bytes args)" "buf' = blit (keycode_bytes args) buf"
      by (simp_all split: if_splits)
    then show thesis by (intro that [of "keycode_bytes args"]) (simp_all add: key parse_messages)
  next
    case touch
    with ser assms(2) have "n = length (touch_bytes args)" "buf' = blit (touch_bytes args) buf"
      by (simp_all split: if_splits)
    then show thesis by (intro that [of "touch_bytes args"]) (simp_all add: touch parse_messages)
  next
    case scroll
    with ser assms(2) have "n = length (scroll_bytes args)" "buf' = blit (scroll_bytes args) buf"
      by (simp_all split: if_splits)
    then show thesis by (intro that [of "scroll_bytes args"]) (simp_all add: scroll parse_messages)
  next
    case pow
    let ?m = "[10, if args ! 0 \<noteq> 0 then 1 else 0]"
    from pow ser assms(2) have "n = length ?m" "buf' = blit ?m buf"
      by (simp_all split: if_splits)
    moreover have "control_msg_parse (?m @ rest) = Some (control_meaning_of ty args, rest)" for rest
      using power [of "args ! 0 \<noteq> 0" rest] by (simp only: pow control_meaning_of.simps)
    ultimately show thesis using that by blast
  next
    case plain
    with ser assms(2) have "n = length [type_byte ty]" "buf' = blit [type_byte ty] buf"
      by (cases ty; simp)+
    moreover have "control_msg_parse ([type_byte ty] @ rest) = Some (control_meaning_of ty args, rest)" for rest
      unfolding plain(1) by (rule one [OF plain(2)])
    ultimately show thesis using that by blast
  qed
qed



text \<open>The writer stays inside a buffer of at least one byte, whatever the message, and reports
  no more bytes than the buffer has; what it reports as written leaves the rest of the buffer
  unchanged. With an empty buffer it stores the type all the same.\<close>

theorem control_msg_serialize_bounds:
  "case control_msg_serialize ty args buf of (n, buf') \<Rightarrow>
     length buf' = max 1 (length buf) \<and> n \<le> max 1 (length buf) \<and> drop (max 1 n) buf' = drop (max 1 n) buf"
proof -
  have one: "length (blit [b] buf) = max 1 (length buf)" "drop (Suc 0) (blit [b] buf) = drop (Suc 0) buf" for b
    by (cases buf; simp add: blit_def)+
  have more: "length msg \<le> length buf \<Longrightarrow> drop (length msg) (blit msg buf) = drop (length msg) buf" for msg
    by (simp add: blit_def)
  show ?thesis
    by (cases ty)
      (simp_all add: control_msg_serialize_def Let_def one more
         more [of "keycode_bytes args", simplified] more [of "touch_bytes args", simplified]
         more [of "scroll_bytes args", simplified] more [of "[_, _]", simplified] max_def)
qed

end
