(* ===== verification/Input.thy ===== *)
theory Input
  imports Complex_Main Control_Msg "HOL-Library.Signed_Division"
begin

text \<open>
  Input events: the key table and the modifier state of \<open>src/input/keycode_map.c\<close>, the
  coordinate transformation of \<open>src/input/input_transform.c\<close>, and the three event writers of
  \<open>src/input/keyboard.c\<close>, \<open>mouse.c\<close> and \<open>gamepad.c\<close>.
\<close>

section \<open>Keys\<close>

text \<open>The virtual key codes of the Windows headers that the table names.\<close>

definition VK_BACK :: u32 where "VK_BACK = 0x08"
definition VK_UP :: u32 where "VK_UP = 0x26"
definition VK_DOWN :: u32 where "VK_DOWN = 0x28"

text \<open>A character constant of C as a number.\<close>

definition chr :: "char \<Rightarrow> u32" where "chr c = word_of_nat (of_char c)"

definition vk_map :: "(u32 \<times> u32) list" where
  "vk_map =
     [(VK_BACK, 67), (0x09, 61), (0x0D, 66),
      (0xA0, 59), (0xA1, 60), (0xA2, 113), (0xA3, 114),
      (0xA4, 57), (0xA5, 58), (0x14, 115), (0x1B, 111),
      (0x20, 62), (0x21, 92), (0x22, 93), (0x23, 123), (0x24, 122),
      (0x25, 21), (VK_UP, 19), (0x27, 22), (VK_DOWN, 20),
      (0x2D, 124), (0x2E, 112),
      (chr CHR ''0'', 7), (chr CHR ''1'', 8), (chr CHR ''2'', 9), (chr CHR ''3'', 10), (chr CHR ''4'', 11),
      (chr CHR ''5'', 12), (chr CHR ''6'', 13), (chr CHR ''7'', 14), (chr CHR ''8'', 15), (chr CHR ''9'', 16),
      (chr CHR ''A'', 29), (chr CHR ''B'', 30), (chr CHR ''C'', 31), (chr CHR ''D'', 32), (chr CHR ''E'', 33),
      (chr CHR ''F'', 34), (chr CHR ''G'', 35), (chr CHR ''H'', 36), (chr CHR ''I'', 37), (chr CHR ''J'', 38),
      (chr CHR ''K'', 39), (chr CHR ''L'', 40), (chr CHR ''M'', 41), (chr CHR ''N'', 42), (chr CHR ''O'', 43),
      (chr CHR ''P'', 44), (chr CHR ''Q'', 45), (chr CHR ''R'', 46), (chr CHR ''S'', 47), (chr CHR ''T'', 48),
      (chr CHR ''U'', 49), (chr CHR ''V'', 50), (chr CHR ''W'', 51), (chr CHR ''X'', 52),
      (chr CHR ''Y'', 53), (chr CHR ''Z'', 54),
      (0x5B, 117), (0x5C, 118),
      (0x70, 131), (0x71, 132), (0x72, 133), (0x73, 134), (0x74, 135),
      (0x75, 136), (0x76, 137), (0x77, 138), (0x78, 139), (0x79, 140),
      (0x7A, 141), (0x7B, 142),
      (0x90, 143), (0x91, 116)]"

fun first_entry :: "(u32 \<times> u32) list \<Rightarrow> u32 \<Rightarrow> u32" where
  "first_entry [] vk = 0"
| "first_entry ((k, v) # rest) vk = (if k = vk then v else first_entry rest vk)"

definition vk_to_android_keycode :: "u32 \<Rightarrow> u32" where
  "vk_to_android_keycode vk = first_entry vk_map vk"

lemma first_entry_map_of: "first_entry m vk = (case map_of m vk of None \<Rightarrow> 0 | Some v \<Rightarrow> v)"
  by (induction m) auto

lemmas vk_map_values = vk_map_def chr_def VK_BACK_def VK_UP_def VK_DOWN_def

lemma vk_map_distinct: "distinct (map fst vk_map)" "distinct (map snd vk_map)" "0 \<notin> set (map snd vk_map)"
  by (simp_all add: vk_map_values)

lemma distinct_snd_inj:
  "distinct (map snd m) \<Longrightarrow> (a, v) \<in> set m \<Longrightarrow> (b, v) \<in> set m \<Longrightarrow> a = b"
  by (metis distinct_map inj_onD prod.inject snd_conv)

text \<open>The table maps no two keys to the same Android key: keys that are mapped to the same
  non-zero code are the same key, so a key event can be told from every other.\<close>

theorem vk_to_android_keycode_injective:
  assumes "vk_to_android_keycode a = vk_to_android_keycode b" and "vk_to_android_keycode a \<noteq> 0"
  shows "a = b"
proof -
  obtain v where "map_of vk_map a = Some v" "map_of vk_map b = Some v"
    using assms unfolding vk_to_android_keycode_def first_entry_map_of by (auto split: option.splits)
  then have "(a, v) \<in> set vk_map" "(b, v) \<in> set vk_map" by (auto dest: map_of_SomeD)
  with vk_map_distinct(2) show ?thesis by (rule distinct_snd_inj)
qed

theorem vk_to_android_keycode_injective_witness: "chr CHR ''A'' = 0x41"
proof (rule vk_to_android_keycode_injective)
  show "vk_to_android_keycode (chr CHR ''A'') = vk_to_android_keycode 0x41"
    "vk_to_android_keycode (chr CHR ''A'') \<noteq> 0"
    by (simp_all add: vk_to_android_keycode_def vk_map_values)
qed

text \<open>The state of the modifier keys, as \<open>GetKeyState\<close> reports it.\<close>

record modifiers =
  shift :: bool
  ctrl :: bool
  alt :: bool
  lwin :: bool

definition get_android_metastate :: "modifiers \<Rightarrow> u32" where
  "get_android_metastate m =
     (if shift m then 0x01 else 0) OR (if ctrl m then 0x1000 else 0) OR
     (if alt m then 0x02 else 0) OR (if lwin m then 0x10000 else 0)"

section \<open>Coordinates\<close>

text \<open>
  The transformation computes in single precision. The floating-point operations are those
  of the machine: conversions, division, product, comparison, and the truncation to an
  integer.
\<close>

record 'f float_ops =
  of_i :: "int \<Rightarrow> 'f"
  fdiv :: "'f \<Rightarrow> 'f \<Rightarrow> 'f"
  fmul :: "'f \<Rightarrow> 'f \<Rightarrow> 'f"
  fgreater :: "'f \<Rightarrow> 'f \<Rightarrow> bool"
  trunc :: "'f \<Rightarrow> int"

definition clamp_rel :: "int \<Rightarrow> int \<Rightarrow> int" where
  "clamp_rel rel extent = (let r = (if rel < 0 then 0 else rel) in if r > extent then extent else r)"

definition render_rect :: "'f float_ops \<Rightarrow> int \<Rightarrow> int \<Rightarrow> nat \<Rightarrow> nat \<Rightarrow> int \<times> int \<times> int \<times> int" where
  "render_rect F win_w win_h dev_w dev_h =
     (let video_aspect = fdiv F (of_i F (int dev_w)) (of_i F (int dev_h));
          window_aspect = fdiv F (of_i F win_w) (of_i F win_h)
      in if fgreater F window_aspect video_aspect then
           let render_w = trunc F (fmul F (of_i F win_h) video_aspect)
           in ((win_w - render_w) sdiv 2, 0, render_w, win_h)
         else
           let render_h = trunc F (fdiv F (of_i F win_w) video_aspect)
           in (0, (win_h - render_h) sdiv 2, win_w, render_h))"

definition input_transform_coords ::
  "'f float_ops \<Rightarrow> int \<Rightarrow> int \<Rightarrow> int \<Rightarrow> int \<Rightarrow> nat \<Rightarrow> nat \<Rightarrow> int \<times> int" where
  "input_transform_coords F win_x win_y win_w win_h dev_w dev_h =
     (if win_w \<le> 0 \<or> win_h \<le> 0 \<or> dev_w = 0 \<or> dev_h = 0 then (0, 0)
      else case render_rect F win_w win_h dev_w dev_h of (render_x, render_y, render_w, render_h) \<Rightarrow>
        let rel_x = clamp_rel (win_x - render_x) render_w;
            rel_y = clamp_rel (win_y - render_y) render_h
        in (trunc F (fmul F (fdiv F (of_i F rel_x) (of_i F render_w)) (of_i F (int dev_w))),
            trunc F (fmul F (fdiv F (of_i F rel_y) (of_i F render_h)) (of_i F (int dev_h)))))"

text \<open>
  What single precision promises on the values that occur: a quotient of integers
  \<open>0 \<le> x \<le> w\<close> lies between 0 and 1, the product of such a value with an integer up to
  \<open>2 ^ 24\<close> between 0 and the integer, and truncation keeps these bounds.
\<close>

definition fle :: "'f float_ops \<Rightarrow> 'f \<Rightarrow> 'f \<Rightarrow> bool" where
  "fle F a b \<longleftrightarrow> fgreater F b a \<or> a = b"

definition float_ok :: "'f float_ops \<Rightarrow> bool" where
  "float_ok F \<longleftrightarrow>
     (\<forall>x w. 0 \<le> x \<and> x \<le> w \<and> 0 < w \<longrightarrow>
        fle F (of_i F 0) (fdiv F (of_i F x) (of_i F w)) \<and> fle F (fdiv F (of_i F x) (of_i F w)) (of_i F 1)) \<and>
     (\<forall>u d. fle F (of_i F 0) u \<and> fle F u (of_i F 1) \<and> 0 < d \<and> d \<le> 2 ^ 24 \<longrightarrow>
        fle F (of_i F 0) (fmul F u (of_i F d)) \<and> fle F (fmul F u (of_i F d)) (of_i F d)) \<and>
     (\<forall>v d. fle F (of_i F 0) v \<and> fle F v (of_i F d) \<and> 0 \<le> d \<and> d \<le> 2 ^ 24 \<longrightarrow>
        0 \<le> trunc F v \<and> trunc F v \<le> d)"

lemma clamp_rel_bounds: "0 \<le> extent \<Longrightarrow> 0 \<le> clamp_rel rel extent \<and> clamp_rel rel extent \<le> extent"
  by (simp add: clamp_rel_def Let_def)

lemma scaled_bounds:
  assumes "float_ok F" and "0 \<le> x" and "x \<le> w" and "0 < w" and "0 < d" and "d \<le> 2 ^ 24"
  shows "0 \<le> trunc F (fmul F (fdiv F (of_i F x) (of_i F w)) (of_i F d))"
    and "trunc F (fmul F (fdiv F (of_i F x) (of_i F w)) (of_i F d)) \<le> d"
proof -
  let ?u = "fdiv F (of_i F x) (of_i F w)"
  have u: "fle F (of_i F 0) ?u" "fle F ?u (of_i F 1)"
    using assms(1-4) unfolding float_ok_def by blast+
  then have v: "fle F (of_i F 0) (fmul F ?u (of_i F d))" "fle F (fmul F ?u (of_i F d)) (of_i F d)"
    using assms(1,5,6) unfolding float_ok_def by blast+
  have "0 \<le> d" using assms(5) by simp
  with v assms(1,6) show "0 \<le> trunc F (fmul F ?u (of_i F d))" "trunc F (fmul F ?u (of_i F d)) \<le> d"
    unfolding float_ok_def by blast+
qed

lemma transform_bounds:
  assumes "float_ok F" and "render_rect F win_w win_h dev_w dev_h = (rx, ry, rw, rh)"
    and "0 < rw" and "0 < rh" and "dev_w \<le> 2 ^ 24" and "dev_h \<le> 2 ^ 24"
    and "input_transform_coords F x y win_w win_h dev_w dev_h = (dx, dy)"
  shows "0 \<le> dx \<and> dx \<le> int dev_w \<and> 0 \<le> dy \<and> dy \<le> int dev_h"
proof (cases "win_w \<le> 0 \<or> win_h \<le> 0 \<or> dev_w = 0 \<or> dev_h = 0")
  case True
  with assms(7) show ?thesis by (auto simp: input_transform_coords_def)
next
  case False
  let ?x = "clamp_rel (x - rx) rw" and ?y = "clamp_rel (y - ry) rh"
  have dx: "dx = trunc F (fmul F (fdiv F (of_i F ?x) (of_i F rw)) (of_i F (int dev_w)))"
    and dy: "dy = trunc F (fmul F (fdiv F (of_i F ?y) (of_i F rh)) (of_i F (int dev_h)))"
    using assms(2,7) False by (simp_all add: input_transform_coords_def)
  have cx: "0 \<le> ?x" "?x \<le> rw" and cy: "0 \<le> ?y" "?y \<le> rh"
    using clamp_rel_bounds [of rw "x - rx"] clamp_rel_bounds [of rh "y - ry"] assms(3,4) by simp_all
  have d: "0 < int dev_w" "int dev_w \<le> 2 ^ 24" "0 < int dev_h" "int dev_h \<le> 2 ^ 24"
    using False assms(5,6) by simp_all
  show ?thesis
    unfolding dx dy using scaled_bounds [OF assms(1) cx assms(3) d(1,2)] scaled_bounds [OF assms(1) cy assms(4) d(3,4)]
    by simp
qed

text \<open>A window position, inside or outside the rendered picture, is mapped to device coordinates
  from 0 to the device's width and height, both ends included, as long as the rendered
  rectangle has at least one pixel in each direction.\<close>

theorem input_transform_coords_bounds:
  assumes "float_ok F" and "render_rect F win_w win_h dev_w dev_h = (rx, ry, rw, rh)"
    and "0 < rw" and "0 < rh" and "dev_w \<le> 2 ^ 24" and "dev_h \<le> 2 ^ 24"
    and "input_transform_coords F x y win_w win_h dev_w dev_h = (dx, dy)"
  shows "0 \<le> dx \<and> dx \<le> int dev_w \<and> 0 \<le> dy \<and> dy \<le> int dev_h"
  using assms by (rule transform_bounds)

text \<open>Exact rational arithmetic has these properties.\<close>

definition rat_ops :: "rat float_ops" where
  "rat_ops = \<lparr>of_i = of_int, fdiv = (/), fmul = (*), fgreater = (>),
     trunc = (\<lambda>v. if v < 0 then \<lceil>v\<rceil> else \<lfloor>v\<rfloor>)\<rparr>"

lemma rat_ops_ok: "float_ok rat_ops"
proof -
  have le: "fle rat_ops a b \<longleftrightarrow> a \<le> b" for a b
    by (auto simp: fle_def rat_ops_def)
  have mult: "u * of_int d \<le> (of_int d :: rat)" if "0 \<le> u" "u \<le> 1" "0 < d" for u d
    using that mult_right_mono [of u 1 "of_int d"] by simp
  show ?thesis
    unfolding float_ok_def le by (auto simp: rat_ops_def mult floor_le_iff)
qed

theorem input_transform_coords_bounds_witness:
  "case input_transform_coords rat_ops 9999 1500 540 1200 1080 2400 of
     (dx, dy) \<Rightarrow> 0 \<le> dx \<and> dx \<le> int 1080 \<and> 0 \<le> dy \<and> dy \<le> int 2400"
proof -
  have "render_rect rat_ops 540 1200 1080 2400 = (0, 0, 540, 1200)"
    by (simp add: render_rect_def rat_ops_def)
  from input_transform_coords_bounds [OF rat_ops_ok this, of 9999 1500] show ?thesis
    by (auto split: prod.splits)
qed

section \<open>Fixed point\<close>

text \<open>
  The two conversions of \<open>src/adb/binary.h\<close>. A value of \<open>float\<close> outside the range is moved to its
  end first; \<open>fgreater F a b\<close> is \<open>a > b\<close>.
\<close>

definition float_to_u16fp :: "'f float_ops \<Rightarrow> 'f \<Rightarrow> u16" where
  "float_to_u16fp F f =
     (let f1 = (if fgreater F (of_i F 0) f then of_i F 0 else f);
          f2 = (if fgreater F f1 (of_i F 1) then of_i F 1 else f1)
      in word_of_int (trunc F (fmul F f2 (of_i F 0xFFFF))))"

definition float_to_i16fp :: "'f float_ops \<Rightarrow> 'f \<Rightarrow> u16" where
  "float_to_i16fp F f =
     (let f1 = (if fgreater F (of_i F (- 1)) f then of_i F (- 1) else f);
          f2 = (if fgreater F f1 (of_i F 1) then of_i F 1 else f1)
      in word_of_int (trunc F (fmul F f2 (of_i F 0x7FFF))))"

text \<open>The truncated product is in range of the result, so the conversion to 16 bits loses nothing: over exact
  arithmetic the two results are the scaled and clamped value rounded towards zero.\<close>

lemma float_to_u16fp_value:
  "uint (float_to_u16fp rat_ops f) = \<lfloor>min 1 (max 0 f) * 65535\<rfloor>"
proof -
  let ?g = "min 1 (max 0 f)"
  have g: "0 \<le> ?g * 65535" "?g * 65535 \<le> 65535" by (simp_all add: min_def max_def)
  then have "0 \<le> \<lfloor>?g * 65535\<rfloor>" "\<lfloor>?g * 65535\<rfloor> < 65536" by (simp_all add: floor_less_iff)
  moreover have "float_to_u16fp rat_ops f = word_of_int \<lfloor>?g * 65535\<rfloor>"
    by (simp add: float_to_u16fp_def rat_ops_def Let_def min_def max_def)
  ultimately show ?thesis by (simp add: uint_word_of_int_eq take_bit_int_eq_self)
qed

lemma float_to_i16fp_value:
  "sint (float_to_i16fp rat_ops f) =
     (let v = min 1 (max (- 1) f) * 32767 in if v < 0 then \<lceil>v\<rceil> else \<lfloor>v\<rfloor>)"
proof -
  let ?v = "min 1 (max (- 1) f) * 32767"
  have v: "- 32767 \<le> ?v" "?v \<le> 32767" by (simp_all add: min_def max_def)
  then have r: "- 32768 \<le> (if ?v < 0 then \<lceil>?v\<rceil> else \<lfloor>?v\<rfloor>)" "(if ?v < 0 then \<lceil>?v\<rceil> else \<lfloor>?v\<rfloor>) < 32768"
    by (auto simp: floor_less_iff le_floor_iff ceiling_less_iff le_ceiling_iff)
  have "float_to_i16fp rat_ops f = word_of_int (if ?v < 0 then \<lceil>?v\<rceil> else \<lfloor>?v\<rfloor>)"
    by (simp add: float_to_i16fp_def rat_ops_def Let_def min_def max_def)
  then show ?thesis using r by (simp add: sint_sbintrunc' signed_take_bit_int_eq_self Let_def)
qed

section \<open>Event writers\<close>

text \<open>The three writers store their fields in the byte order of the machine (little-endian).\<close>

definition write16le :: "u16 \<Rightarrow> bytes" where
  "write16le v = [ucast v, ucast (drop_bit 8 v)]"

record keyboard_event =
  kb_keycode :: u32
  kb_action :: u32
  kb_repeat :: u32

definition keyboard_process_event :: "keyboard_event \<Rightarrow> bytes" where
  "keyboard_process_event e =
     [type_byte INJECT_KEYCODE, ucast (kb_action e)] @ write32le (kb_keycode e) @ write32le (kb_repeat e)"

record mouse_event =
  ms_x :: u32
  ms_y :: u32
  ms_width :: u32
  ms_height :: u32
  ms_action :: u32
  ms_buttons :: u32

definition mouse_process_event :: "mouse_event \<Rightarrow> bytes" where
  "mouse_process_event e =
     [type_byte INJECT_TOUCH_EVENT] @ write32le (ms_x e) @ write32le (ms_y e) @ write32le (ms_width e) @
     write32le (ms_height e) @ write32le (ms_action e) @ write32le (ms_buttons e)"

record gamepad_event =
  gp_id :: u16
  gp_type :: u16
  gp_code :: u16
  gp_value :: u32

definition gamepad_process_event :: "gamepad_event \<Rightarrow> bytes" where
  "gamepad_process_event e =
     [type_byte UHID_INPUT] @ write16le (gp_id e) @ write16le (gp_type e) @ write16le (gp_code e) @
     write32le (gp_value e)"

text \<open>The messages of the keyboard and the mouse writer are shorter than the messages of their
  type: a reader of the control format finds no complete message in them.\<close>

theorem input_writers_incomplete:
  "control_msg_parse (keyboard_process_event ke) = None \<and> control_msg_parse (mouse_process_event me) = None"
  by (simp add: control_msg_parse_def keyboard_process_event_def mouse_process_event_def)

end
