(* ===== verification/Renderer.thy ===== *)
theory Renderer
  imports Nv12 Input
begin

text \<open>
  Drawing of frames: \<open>src/render/d3d_context.c\<close>, \<open>src/render/shader.c\<close> and
  \<open>src/render/video_renderer.c\<close>. Of Direct3D there
  remain the objects that exist, the memory of a mapped texture, and the scale in the constant
  buffer; whether a creation succeeds is a parameter.
\<close>

section \<open>The context\<close>

text \<open>\<open>ctx_rtv\<close> and \<open>ctx_swap_chain\<close> say which pointers are set, \<open>presented\<close> counts the frames shown.\<close>

record d3d_context =
  ctx_width :: int
  ctx_height :: int
  ctx_swap_chain :: bool
  ctx_rtv :: bool
  presented :: nat

definition d3d_context_init :: "bool \<Rightarrow> bool \<Rightarrow> bool \<Rightarrow> int \<Rightarrow> int \<Rightarrow> d3d_context \<Rightarrow> bool \<times> d3d_context" where
  "d3d_context_init device_ok buffer_ok view_ok w h ctx =
     (let ctx1 = ctx\<lparr>ctx_width := w, ctx_height := h\<rparr>
      in if \<not> device_ok then (False, ctx1)
         else if \<not> buffer_ok then (False, ctx1\<lparr>ctx_swap_chain := True\<rparr>)
         else if \<not> view_ok then (False, ctx1\<lparr>ctx_swap_chain := True\<rparr>)
         else (True, ctx1\<lparr>ctx_swap_chain := True, ctx_rtv := True\<rparr>))"

definition d3d_context_resize :: "bool \<Rightarrow> bool \<Rightarrow> bool \<Rightarrow> int \<Rightarrow> int \<Rightarrow> d3d_context \<Rightarrow> d3d_context" where
  "d3d_context_resize resize_ok buffer_ok view_ok w h ctx =
     (if w = 0 \<or> h = 0 then ctx
      else
        let ctx1 = ctx\<lparr>ctx_width := w, ctx_height := h, ctx_rtv := False\<rparr>
        in if \<not> resize_ok then ctx1
           else if \<not> buffer_ok then ctx1
           else if \<not> view_ok then ctx1
           else ctx1\<lparr>ctx_rtv := True\<rparr>)"

text \<open>Whether the frame has a target to be drawn to.\<close>

definition d3d_context_begin_frame :: "d3d_context \<Rightarrow> bool" where
  "d3d_context_begin_frame ctx = ctx_rtv ctx"

definition d3d_context_end_frame :: "d3d_context \<Rightarrow> d3d_context" where
  "d3d_context_end_frame ctx = ctx\<lparr>presented := Suc (presented ctx)\<rparr>"

section \<open>Construction and destruction of the renderer\<close>

datatype gpu =
    Vertex_Buffer | Index_Buffer | Constant_Buffer | Sampler | Vertex_Shader | Pixel_Shader | Input_Layout
  | Nv12_Tex | Nv12_Staging | Y_Srv | Uv_Srv

text \<open>
  \<open>made\<close> are the objects the structure's pointers name, \<open>texture\<close> the row pitch and the contents of
  the texture last uploaded, \<open>scale\<close> the diagonal of the transformation, \<open>drawn\<close> the draw calls.
\<close>

record 'f video_renderer =
  made :: "gpu set"
  video_width :: u32
  video_height :: u32
  rend_width :: u32
  rend_height :: u32
  rend_initialized :: bool
  texture :: "nat \<times> bytes"
  scale :: "'f \<times> 'f"
  drawn :: nat

fun make_all :: "(gpu \<Rightarrow> bool) \<Rightarrow> gpu list \<Rightarrow> gpu set \<Rightarrow> bool \<times> gpu set" where
  "make_all ok [] s = (True, s)"
| "make_all ok (g # gs) s = (if ok g then make_all ok gs (insert g s) else (False, s))"

text \<open>\<open>src/render/shader.c\<close>: what has been created is released when a later creation fails.\<close>

definition shader_init :: "(gpu \<Rightarrow> bool) \<Rightarrow> gpu set \<Rightarrow> bool \<times> gpu set" where
  "shader_init ok s =
     (if \<not> ok Vertex_Shader then (False, s)
      else
        let s1 = insert Vertex_Shader s
        in if \<not> ok Pixel_Shader then (False, s1 - {Vertex_Shader})
           else
             let s2 = insert Pixel_Shader s1
             in if \<not> ok Input_Layout then (False, s2 - {Vertex_Shader, Pixel_Shader})
                else (True, insert Input_Layout s2))"

definition shader_destroy :: "gpu set \<Rightarrow> gpu set" where
  "shader_destroy s = s - {Vertex_Shader, Pixel_Shader, Input_Layout}"

definition video_renderer_destroy :: "'f video_renderer \<Rightarrow> 'f video_renderer" where
  "video_renderer_destroy rend =
     rend\<lparr>made := shader_destroy (made rend) -
       {Vertex_Buffer, Index_Buffer, Constant_Buffer, Sampler, Nv12_Tex, Nv12_Staging, Y_Srv, Uv_Srv}\<rparr>"

definition video_renderer_init ::
  "(gpu \<Rightarrow> bool) \<Rightarrow> bool \<Rightarrow> 'f \<times> 'f \<Rightarrow> d3d_context \<Rightarrow> 'f video_renderer \<Rightarrow> bool \<times> 'f video_renderer" where
  "video_renderer_init ok bytecode unit_scale ctx rend =
     (let rend1 = rend\<lparr>made := {}, video_width := 0, video_height := 0, rend_width := word_of_int (ctx_width ctx),
                       rend_height := word_of_int (ctx_height ctx), rend_initialized := False\<rparr>
      in if \<not> ok Vertex_Buffer then (False, rend1)
         else case make_all ok [Index_Buffer, Constant_Buffer, Sampler] {Vertex_Buffer} of
           (False, s) \<Rightarrow> (False, video_renderer_destroy (rend1\<lparr>made := s\<rparr>))
         | (True, s) \<Rightarrow>
             if \<not> bytecode then (False, video_renderer_destroy (rend1\<lparr>made := s\<rparr>))
             else case shader_init ok s of
               (False, s1) \<Rightarrow> (False, video_renderer_destroy (rend1\<lparr>made := s1\<rparr>))
             | (True, s1) \<Rightarrow> (True, rend1\<lparr>made := s1, scale := unit_scale, rend_initialized := True\<rparr>))"

definition video_renderer_set_window_size :: "u32 \<Rightarrow> u32 \<Rightarrow> 'f video_renderer \<Rightarrow> 'f video_renderer" where
  "video_renderer_set_window_size w h rend = rend\<lparr>rend_width := w, rend_height := h\<rparr>"

lemma nothing_left [simp]: "made (video_renderer_destroy rend) = {}"
proof -
  have "g \<notin> made (video_renderer_destroy rend)" for g
    by (cases g) (simp_all add: video_renderer_destroy_def shader_destroy_def)
  then show ?thesis by blast
qed

section \<open>The texture\<close>

definition textures :: "gpu list" where
  "textures = [Nv12_Tex, Nv12_Staging, Y_Srv, Uv_Srv]"

text \<open>The old objects are released first; the dimensions are noted only when all four have been made.\<close>

definition ensure_nv12_texture ::
  "(gpu \<Rightarrow> bool) \<Rightarrow> u32 \<Rightarrow> u32 \<Rightarrow> 'f video_renderer \<Rightarrow> bool \<times> 'f video_renderer" where
  "ensure_nv12_texture ok w h rend =
     (if video_width rend = w \<and> video_height rend = h then (True, rend)
      else case make_all ok textures (made rend - set textures) of
        (False, s) \<Rightarrow> (False, rend\<lparr>made := s\<rparr>)
      | (True, s) \<Rightarrow> (True, rend\<lparr>made := s, video_width := w, video_height := h\<rparr>))"

text \<open>The rows of the source are \<open>stride\<close> bytes apart, those of the texture \<open>pitch\<close>.\<close>

definition upload_row :: "bytes \<Rightarrow> nat \<Rightarrow> nat \<Rightarrow> nat \<Rightarrow> nat \<Rightarrow> nat \<Rightarrow> nat \<Rightarrow> bytes \<Rightarrow> bytes option" where
  "upload_row src from to w stride pitch row dst =
     Option.bind (read_at src (from + u32n (row * stride)) w) (write_at dst (to + u32n (row * pitch)))"

text \<open>
  \<open>mapped\<close> is what \<open>Map\<close> gives, the row pitch and the memory, or a failure. The outer option is
  \<open>None\<close> for an access outside a block, \<open>data\<close> of the frame included.
\<close>

definition update_nv12_texture ::
  "(nat \<times> bytes) option \<Rightarrow> bytes \<Rightarrow> nat \<Rightarrow> nat \<Rightarrow> (nat \<times> bytes) option option" where
  "update_nv12_texture mapped data w h =
     (case mapped of
        None \<Rightarrow> Some None
      | Some (pitch, block) \<Rightarrow>
          Option.bind (steps (upload_row data 0 0 w w pitch) [0..<h] block) (\<lambda>b1.
          Option.bind (steps (upload_row data (u32n (w * h)) (u32n (pitch * h)) w w pitch) [0..<h div 2] b1) (\<lambda>b2.
          Some (Some (pitch, b2)))))"

section \<open>The transformation\<close>

text \<open>The ratios are of type \<open>double\<close>, \<open>to_float\<close> rounds them to \<open>float\<close>.\<close>

definition update_aspect_ratio_transform ::
  "'d float_ops \<Rightarrow> ('d \<Rightarrow> 'f) \<Rightarrow> 'f \<Rightarrow> 'f video_renderer \<Rightarrow> 'f video_renderer" where
  "update_aspect_ratio_transform D to_float one rend =
     (if video_width rend = 0 \<or> video_height rend = 0 then rend
      else if rend_width rend = 0 \<or> rend_height rend = 0 then rend
      else
        let src_ratio = fdiv D (of_i D (uint (video_width rend))) (of_i D (uint (video_height rend)));
            dst_ratio = fdiv D (of_i D (uint (rend_width rend))) (of_i D (uint (rend_height rend)));
            s = (if fgreater D src_ratio dst_ratio then (one, to_float (fdiv D dst_ratio src_ratio))
                 else if fgreater D dst_ratio src_ratio then (to_float (fdiv D src_ratio dst_ratio), one)
                 else (one, one))
        in rend\<lparr>scale := s\<rparr>)"

section \<open>Drawing\<close>

record ('d, 'f) graphics_card =
  can_make :: "gpu \<Rightarrow> bool"
  map_texture :: "u32 \<Rightarrow> u32 \<Rightarrow> (nat \<times> bytes) option"
  map_constants :: bool
  double_ops :: "'d float_ops"
  round_float :: "'d \<Rightarrow> 'f"
  float_one :: 'f

text \<open>\<open>None\<close> is an access through a null pointer or outside a block.\<close>

definition video_renderer_render ::
  "('d, 'f) graphics_card \<Rightarrow> 'f video_renderer \<Rightarrow> video_frame \<Rightarrow> (bool \<times> 'f video_renderer) option" where
  "video_renderer_render G rend frame =
     (case nv12_data frame of
        None \<Rightarrow> Some (False, rend)
      | Some data \<Rightarrow>
          if \<not> rend_initialized rend then Some (False, rend)
          else case ensure_nv12_texture (can_make G) (word_of_nat (frame_width frame)) (word_of_nat (frame_height frame)) rend of
            (False, r1) \<Rightarrow> Some (False, r1)
          | (True, r1) \<Rightarrow>
              if Nv12_Staging \<notin> made r1 then None
              else case update_nv12_texture (map_texture G (video_width r1) (video_height r1)) data
                          (frame_width frame) (frame_height frame) of
                None \<Rightarrow> None
              | Some None \<Rightarrow> Some (False, r1)
              | Some (Some t) \<Rightarrow>
                  let r2 = r1\<lparr>texture := t\<rparr>;
                      r3 = (if map_constants G then update_aspect_ratio_transform (double_ops G) (round_float G) (float_one G) r2
                            else r2)
                  in Some (True, r3\<lparr>drawn := Suc (drawn r3)\<rparr>))"

section \<open>The picture in the texture\<close>

definition rows_copied :: "bytes \<Rightarrow> nat \<Rightarrow> nat \<Rightarrow> nat \<Rightarrow> nat \<Rightarrow> nat \<Rightarrow> nat \<Rightarrow> bytes \<Rightarrow> bool" where
  "rows_copied src from to w stride pitch n d \<longleftrightarrow>
     (\<forall>row < n. \<forall>col < w. d ! (to + row * pitch + col) = src ! (from + row * stride + col))"

lemma upload_row_ok:
  assumes "from + n * stride \<le> length src" and "to + n * pitch \<le> length d" and "w \<le> pitch" and "n * pitch < 2 ^ 32"
    and "w \<le> stride" and "n * stride < 2 ^ 32"
    and row: "row < n" and copied: "rows_copied src from to w stride pitch row d"
  shows "\<exists>d'. upload_row src from to w stride pitch row d = Some d' \<and> length d' = length d \<and>
     rows_copied src from to w stride pitch (Suc row) d' \<and> (\<forall>j < to. d' ! j = d ! j)"
proof -
  have fits: "row * stride + stride \<le> n * stride" "row * pitch + pitch \<le> n * pitch" using row by (rule row_fits)+
  have lt: "row * pitch < 2 ^ 32" "row * stride < 2 ^ 32" using fits assms(4,6) by linarith+
  define r where "r = take w (drop (from + row * stride) src)"
  have r: "length r = w" "\<And>c. c < w \<Longrightarrow> r ! c = src ! (from + row * stride + c)"
    using fits assms(1,5) by (simp_all add: r_def)
  let ?at = "to + row * pitch"
  have in_d: "?at + w \<le> length d" using fits assms(2,3) by linarith
  obtain d' where d': "write_at d ?at r = Some d'" "length d' = length d"
    "\<And>j. j < length d \<Longrightarrow> d' ! j = (if ?at \<le> j \<and> j < ?at + w then r ! (j - ?at) else d ! j)"
    using write_at_ok [of ?at r d] in_d r(1) by auto
  have "rows_copied src from to w stride pitch (Suc row) d'"
    unfolding rows_copied_def
  proof (intro allI impI)
    fix i c assume i: "i < Suc row" and c: "c < w"
    show "d' ! (to + i * pitch + c) = src ! (from + i * stride + c)"
    proof (cases "i = row")
      case True
      then show ?thesis using d'(3) [of "?at + c"] c in_d r(2) [OF c] by simp
    next
      case False
      then have "i * pitch + c < row * pitch" using i c assms(3) by (intro cell_before) simp_all
      then show ?thesis using d'(3) [of "to + i * pitch + c"] copied i False c in_d by (simp add: rows_copied_def)
    qed
  qed
  moreover have "\<forall>j < to. d' ! j = d ! j" using d'(3) in_d by simp
  ultimately show ?thesis
    using d'(1,2) lt fits assms(1,5) by (simp add: upload_row_def read_at_ok r_def)
qed

lemma upload_rows:
  assumes "from + n * stride \<le> length src" and "to + n * pitch \<le> length d" and "w \<le> pitch" and "n * pitch < 2 ^ 32"
    and "w \<le> stride" and "n * stride < 2 ^ 32"
  shows "\<exists>d'. steps (upload_row src from to w stride pitch) [0..<n] d = Some d' \<and> length d' = length d \<and>
     rows_copied src from to w stride pitch n d' \<and> (\<forall>j < to. d' ! j = d ! j)"
proof -
  let ?I = "\<lambda>row e. length e = length d \<and> rows_copied src from to w stride pitch row e \<and> (\<forall>j < to. e ! j = d ! j)"
  have "\<exists>e'. upload_row src from to w stride pitch row e = Some e' \<and> ?I (Suc row) e'" if "row < n" "?I row e" for row e
    using upload_row_ok [of "from" n stride src to pitch e w row] assms that by fastforce
  then show ?thesis
    using steps_invariant [of 0 n ?I "upload_row src from to w stride pitch" d] by (simp add: rows_copied_def)
qed

lemma frame_uploaded:
  assumes len: "length data = w * h + w * (h div 2)" and block: "length block = pitch * (h + h div 2)"
    and small: "pitch * (h + h div 2) < 2 ^ 32" and wide: "w \<le> pitch"
  shows "\<exists>d. update_nv12_texture (Some (pitch, block)) data w h = Some (Some (pitch, d)) \<and>
     rows_copied data 0 0 w w pitch h d \<and> rows_copied data (w * h) (pitch * h) w w pitch (h div 2) d"
proof -
  have size: "pitch * (h + h div 2) = h * pitch + h div 2 * pitch" by (simp add: algebra_simps)
  have ph: "pitch * h < 2 ^ 32" using small size by (simp add: mult.commute)
  have wh: "w * h < 2 ^ 32" using mult_le_mono1 [OF wide, of h] ph by (rule le_less_trans)
  have half: "h div 2 * w < 2 ^ 32" 
    using wh mult_le_mono1 [OF div_le_dividend, of h 2 w] unfolding mult.commute [of w h] by (rule le_less_trans [rotated])
  from wh ph have nums: "u32n (w * h) = w * h" "u32n (pitch * h) = pitch * h" by (simp_all only: u32n_id)
  obtain b1 where b1: "steps (upload_row data 0 0 w w pitch) [0..<h] block = Some b1" "length b1 = length block"
    "rows_copied data 0 0 w w pitch h b1"
    using upload_rows [of 0 h w data 0 pitch block w] len block small wide size wh by (auto simp: mult.commute)
  obtain b2 where b2: "steps (upload_row data (w * h) (pitch * h) w w pitch) [0..<h div 2] b1 = Some b2"
    "rows_copied data (w * h) (pitch * h) w w pitch (h div 2) b2" "\<forall>j < pitch * h. b2 ! j = b1 ! j"
    using upload_rows [of "w * h" "h div 2" w data "pitch * h" pitch b1 w] len block small wide size half b1(2)
    by (auto simp: mult.commute)
  have "row * pitch + col < pitch * h" if "row < h" "col < w" for row col
    using cell_before [of row h col pitch] that wide by (simp add: mult.commute)
  then have "rows_copied data 0 0 w w pitch h b2" using b1(3) b2(3) by (simp add: rows_copied_def)
  then show ?thesis using b1(1) b2(1,2) nums by (simp add: update_nv12_texture_def)
qed

section \<open>The texture with four bytes for a pixel\<close>

text \<open>
  \<open>src/render/texture.c\<close>: a texture and its view, of which a creation that fails halfway leaves the first.
  The renderer does not use it.
\<close>

record rgba_texture =
  tex_width :: u32
  tex_height :: u32
  tex_object :: bool
  tex_view :: bool

definition texture_init :: "bool \<Rightarrow> bool \<Rightarrow> u32 \<Rightarrow> u32 \<Rightarrow> rgba_texture \<Rightarrow> bool \<times> rgba_texture" where
  "texture_init tex_ok view_ok w h tex =
     (let t1 = tex\<lparr>tex_width := w, tex_height := h\<rparr>
      in if \<not> tex_ok then (False, t1\<lparr>tex_object := False\<rparr>)
         else if \<not> view_ok then (False, t1\<lparr>tex_object := True, tex_view := False\<rparr>)
         else (True, t1\<lparr>tex_object := True, tex_view := True\<rparr>))"

definition texture_update ::
  "(nat \<times> bytes) option \<Rightarrow> bytes \<Rightarrow> nat \<Rightarrow> rgba_texture \<Rightarrow> (nat \<times> bytes) option option" where
  "texture_update mapped data stride tex =
     (case mapped of
        None \<Rightarrow> Some None
      | Some (pitch, block) \<Rightarrow>
          map_option (\<lambda>b. Some (pitch, b))
            (steps (upload_row data 0 0 (unat (tex_width tex * 4)) stride pitch) [0..<unat (tex_height tex)] block))"

definition texture_destroy :: "rgba_texture \<Rightarrow> rgba_texture" where
  "texture_destroy tex = tex\<lparr>tex_view := False, tex_object := False\<rparr>"

lemma texture_rows_uploaded:
  fixes tex :: rgba_texture
  defines "w \<equiv> unat (tex_width tex) * 4" and "h \<equiv> unat (tex_height tex)"
  assumes "length data = h * stride" and "length block = h * pitch" and "w \<le> stride" and "w \<le> pitch"
    and "h * stride < 2 ^ 32" and "h * pitch < 2 ^ 32" and "w < 2 ^ 32"
  shows "\<exists>d. texture_update (Some (pitch, block)) data stride tex = Some (Some (pitch, d)) \<and> length d = length block \<and>
     (\<forall>row < h. \<forall>i < w. d ! (row * pitch + i) = data ! (row * stride + i))"
proof -
  have "unat (tex_width tex * 4) = w" using assms(9) by (simp add: w_def unat_mult_lem [THEN iffD1])
  moreover obtain d where "steps (upload_row data 0 0 w stride pitch) [0..<h] block = Some d" "length d = length block"
    "rows_copied data 0 0 w stride pitch h d"
    using upload_rows [of 0 h stride data 0 pitch block w] assms(3-8) by auto
  ultimately show ?thesis by (simp add: texture_update_def h_def rows_copied_def)
qed

section \<open>Pictures of the decoder in the texture\<close>

text \<open>Every sample of a picture stands in its place of a texture.\<close>

definition texture_shows :: "av_frame \<Rightarrow> nat \<Rightarrow> bytes \<Rightarrow> bool" where
  "texture_shows src pitch d \<longleftrightarrow>
     (\<forall>row < av_height src. \<forall>col < av_width src. d ! (row * pitch + col) = y_plane src ! (row * y_stride src + col)) \<and>
     (\<forall>row < av_height src div 2. \<forall>col < av_width src div 2.
        d ! (pitch * av_height src + row * pitch + 2 * col) = u_plane src ! (row * uv_stride src + col) \<and>
        d ! (pitch * av_height src + row * pitch + (2 * col + 1)) = v_plane src ! (row * uv_stride src + col))"

lemma picture_uploaded:
  assumes "picture_ok src" and "mal (nv12_size (av_width src) (av_height src)) = Some memory"
    and "length memory = nv12_size (av_width src) (av_height src)"
    and "length block = pitch * (av_height src + av_height src div 2)"
    and "pitch * (av_height src + av_height src div 2) < 2 ^ 32" and "av_width src \<le> pitch"
  shows "\<exists>data d. frame_to_nv12 mal src =
       Some (True, \<lparr>nv12_data = Some data, frame_width = av_width src, frame_height = av_height src, frame_format = 0\<rparr>) \<and>
     update_nv12_texture (Some (pitch, block)) data (av_width src) (av_height src) = Some (Some (pitch, d)) \<and>
     texture_shows src pitch d"
proof -
  let ?w = "av_width src" and ?h = "av_height src"
  obtain data where f: "frame_to_nv12 mal src = Some (True, \<lparr>nv12_data = Some data, frame_width = ?w, frame_height = ?h, frame_format = 0\<rparr>)"
    "length data = ?w * ?h + ?w * (?h div 2)" "luma_rows src ?h data" "chroma_rows src (?h div 2) data"
    using nv12_pixels [of src mal memory, OF assms(1-3)] by blast
  obtain d where d: "update_nv12_texture (Some (pitch, block)) data ?w ?h = Some (Some (pitch, d))"
    "rows_copied data 0 0 ?w ?w pitch ?h d" "rows_copied data (?w * ?h) (pitch * ?h) ?w ?w pitch (?h div 2) d"
    using frame_uploaded [OF f(2) assms(4-6)] by blast
  have "d ! (row * pitch + col) = y_plane src ! (row * y_stride src + col)" if "row < ?h" "col < ?w" for row col
    using d(2) f(3) that by (simp add: rows_copied_def luma_rows_def)
  moreover have "d ! (pitch * ?h + row * pitch + 2 * col) = u_plane src ! (row * uv_stride src + col) \<and>
      d ! (pitch * ?h + row * pitch + (2 * col + 1)) = v_plane src ! (row * uv_stride src + col)"
    if "row < ?h div 2" "col < ?w div 2" for row col
  proof -
    have "2 * col < ?w" "2 * col + 1 < ?w" using that(2) by simp_all
    then have "d ! (pitch * ?h + row * pitch + 2 * col) = data ! (?w * ?h + row * ?w + 2 * col)"
      "d ! (pitch * ?h + row * pitch + (2 * col + 1)) = data ! (?w * ?h + row * ?w + (2 * col + 1))"
      using d(3) that(1) unfolding rows_copied_def by blast+
    then show ?thesis using f(4) that by (simp add: chroma_rows_def chroma_pair_def Let_def)
  qed
  ultimately have "texture_shows src pitch d" by (simp add: texture_shows_def)
  then show ?thesis using f(1) d(1) by blast
qed

text \<open>C12. A decoded picture reaches the texture whole: after the conversion by the decoder and the upload
  by the renderer, every luma sample of the picture stands in its row of the texture and every
  chroma sample in its pair, whatever the strides of the picture and the row pitch of the
  texture, and no access on the way leaves its block.\<close>

theorem picture_reaches_texture:
  assumes "picture_ok src" and "mal (nv12_size (av_width src) (av_height src)) = Some memory"
    and "length memory = nv12_size (av_width src) (av_height src)"
    and "length block = pitch * (av_height src + av_height src div 2)"
    and "pitch * (av_height src + av_height src div 2) < 2 ^ 32" and "av_width src \<le> pitch"
  shows "\<exists>fr data d. frame_to_nv12 mal src = Some (True, fr) \<and> nv12_data fr = Some data \<and>
     update_nv12_texture (Some (pitch, block)) data (frame_width fr) (frame_height fr) = Some (Some (pitch, d)) \<and>
     (\<forall>row < av_height src. \<forall>col < av_width src. d ! (row * pitch + col) = y_plane src ! (row * y_stride src + col)) \<and>
     (\<forall>row < av_height src div 2. \<forall>col < av_width src div 2.
        d ! (pitch * av_height src + row * pitch + 2 * col) = u_plane src ! (row * uv_stride src + col) \<and>
        d ! (pitch * av_height src + row * pitch + (2 * col + 1)) = v_plane src ! (row * uv_stride src + col))"
  using picture_uploaded [of src mal memory, OF assms] by (fastforce simp: texture_shows_def)

theorem picture_reaches_texture_witness:
  "\<exists>fr data d. frame_to_nv12 (\<lambda>n. Some (replicate n 0))
       \<lparr>av_width = 2, av_height = 2, y_plane = [1, 2, 9, 3, 4], u_plane = [5], v_plane = [6], y_stride = 3, uv_stride = 1\<rparr> =
       Some (True, fr) \<and> nv12_data fr = Some data \<and>
     update_nv12_texture (Some (8, replicate 24 0)) data (frame_width fr) (frame_height fr) = Some (Some (8, d)) \<and>
     d ! 9 = 4 \<and> d ! 17 = 6"
proof -
  let ?src = "\<lparr>av_width = 2, av_height = 2, y_plane = [1, 2, 9, 3, 4], u_plane = [5], v_plane = [6], y_stride = 3,
        uv_stride = 1\<rparr>"
  have "picture_ok ?src" by (auto simp: picture_ok_def less_2_cases_iff)
  from picture_reaches_texture [OF this, of "\<lambda>n. Some (replicate n 0)" "replicate (nv12_size 2 2) 0" "replicate 24 0" 8]
  obtain fr data d where r: "frame_to_nv12 (\<lambda>n. Some (replicate n 0)) ?src = Some (True, fr)" "nv12_data fr = Some data"
    "update_nv12_texture (Some (8, replicate 24 0)) data (frame_width fr) (frame_height fr) = Some (Some (8, d))"
    "\<forall>row < 2. \<forall>col < 2. d ! (row * 8 + col) = y_plane ?src ! (row * 3 + col)"
    "\<forall>row < 1. \<forall>col < 1. d ! (8 * 2 + row * 8 + 2 * col) = u_plane ?src ! (row * 1 + col) \<and>
       d ! (8 * 2 + row * 8 + (2 * col + 1)) = v_plane ?src ! (row * 1 + col)"
    by auto
  have "d ! 9 = 4" using r(4) [rule_format, of 1 1] by simp
  moreover have "d ! 17 = 6" using r(5) [rule_format, of 0 0] by simp
  ultimately show ?thesis using r(1-3) by blast
qed

section \<open>A texture that could not be made\<close>

text \<open>When the texture for a new size cannot be made, the old objects are gone but the old size is
  still noted: the next frame of the old size is taken to have its texture and is written
  through a null pointer.\<close>

theorem failed_texture_leaves_old_size:
  assumes "rend_initialized rend" and "video_renderer_render G rend new = Some (False, rend1)"
    and "nv12_data new \<noteq> None" and "\<not> can_make G Nv12_Staging"
    and "nv12_data old \<noteq> None" and "word_of_nat (frame_width old) = video_width rend"
    and "word_of_nat (frame_height old) = video_height rend"
    and "word_of_nat (frame_width new) \<noteq> video_width rend"
  shows "video_renderer_render G rend1 old = None"
proof -
  obtain s where "make_all (can_make G) textures (made rend - set textures) = (False, s)" and s: "Nv12_Staging \<notin> s"
    using assms(4) by (cases "can_make G Nv12_Tex") (auto simp: textures_def)
  then have "rend1 = rend\<lparr>made := s\<rparr>"
    using assms(1,2,3,8) by (auto simp: video_renderer_render_def ensure_nv12_texture_def)
  then show ?thesis
    using assms(1,5-7) s by (auto simp: video_renderer_render_def ensure_nv12_texture_def)
qed

section \<open>The picture and the pointer\<close>

text \<open>Exact arithmetic in the place of both floating-point types.\<close>

lemma rat_trunc_nonneg: "0 \<le> v \<Longrightarrow> trunc rat_ops v = \<lfloor>v\<rfloor>"
  by (simp add: rat_ops_def)


text \<open>Witnesses: a renderer for a video of 1080 by 2400 in a window of 800 by 600.\<close>

definition example_renderer :: "rat video_renderer" where
  "example_renderer =
     \<lparr>made = UNIV, video_width = 1080, video_height = 2400, rend_width = 800, rend_height = 600, rend_initialized = True,
      texture = (1088, []), scale = (1, 1), drawn = 5\<rparr>"


definition failing_card :: "(rat, rat) graphics_card" where
  "failing_card =
     \<lparr>can_make = (\<lambda>g. g \<noteq> Nv12_Staging), map_texture = (\<lambda>w h. None), map_constants = True, double_ops = rat_ops,
      round_float = (\<lambda>x. x), float_one = 1\<rparr>"

definition example_frame :: "nat \<Rightarrow> nat \<Rightarrow> video_frame" where
  "example_frame w h = \<lparr>nv12_data = Some (replicate (nv12_size w h) 0), frame_width = w, frame_height = h, frame_format = 0\<rparr>"

theorem failed_texture_leaves_old_size_witness:
  "\<exists>rend1. video_renderer_render failing_card example_renderer (example_frame 2400 1080) = Some (False, rend1) \<and>
     video_renderer_render failing_card rend1 (example_frame 1080 2400) = None"
proof -
  obtain rend1 where r: "video_renderer_render failing_card example_renderer (example_frame 2400 1080) = Some (False, rend1)"
    by (auto simp: video_renderer_render_def example_renderer_def failing_card_def example_frame_def ensure_nv12_texture_def
        textures_def)
  have "video_renderer_render failing_card rend1 (example_frame 1080 2400) = None"
    by (rule failed_texture_leaves_old_size [OF _ r])
      (simp_all add: example_renderer_def failing_card_def example_frame_def)
  with r show ?thesis by blast
qed

end
