(* ===== verification/Shared_Frame.thy ===== *)
theory Shared_Frame
  imports Prelude "HOL-Library.Multiset" "HOL-Library.Sublist"
begin

text \<open>
  The hand-over of decoded frames from the video thread to the window's thread
  (\<open>src/pipeline/pipeline.h\<close>), and the single-frame buffer of \<open>src/decode/frame_buffer.c\<close>.
\<close>

section \<open>The shared frame\<close>

record 'f shared_frame =
  current :: "'f option"
  ready :: bool

definition shared_frame_init :: "'f shared_frame" where
  "shared_frame_init = \<lparr>current = None, ready = False\<rparr>"

text \<open>The atomic steps of \<open>shared_frame_submit\<close>: the exchange of the pointer, which gives the old
  one, and the store of the flag; then the old frame, now the producer's own, is freed.\<close>

definition submit_swap :: "'f \<Rightarrow> 'f shared_frame \<Rightarrow> 'f option \<times> 'f shared_frame" where
  "submit_swap f sf = (current sf, sf\<lparr>current := Some f\<rparr>)"

definition submit_raise :: "'f shared_frame \<Rightarrow> 'f shared_frame" where
  "submit_raise sf = sf\<lparr>ready := True\<rparr>"

text \<open>Those of \<open>shared_frame_acquire\<close>: the compare and exchange, which gives the old flag, and the
  exchange of the pointer.\<close>

definition acquire_claim :: "'f shared_frame \<Rightarrow> bool \<times> 'f shared_frame" where
  "acquire_claim sf = (ready sf, sf\<lparr>ready := False\<rparr>)"

definition acquire_take :: "'f shared_frame \<Rightarrow> 'f option \<times> 'f shared_frame" where
  "acquire_take sf = (current sf, sf\<lparr>current := None\<rparr>)"

text \<open>The two functions without interference; the first also gives the frame it frees.\<close>

definition shared_frame_submit :: "'f \<Rightarrow> 'f shared_frame \<Rightarrow> 'f option \<times> 'f shared_frame" where
  "shared_frame_submit f sf = (case submit_swap f sf of (old, sf1) \<Rightarrow> (old, submit_raise sf1))"

definition shared_frame_acquire :: "'f shared_frame \<Rightarrow> 'f option \<times> 'f shared_frame" where
  "shared_frame_acquire sf =
     (case acquire_claim sf of (got, sf1) \<Rightarrow> if got then acquire_take sf1 else (None, sf1))"

section \<open>Interleavings\<close>

text \<open>
  Where the two threads are: the producer between the steps of a submit, with the old frame
  in hand, and the consumer between the steps of an acquire. The last three fields record
  what has happened: the frames submitted, those returned by an acquire and those freed.
\<close>

datatype 'f producer = Producing | Swapped "'f option" | Raised "'f option"

record 'f handover = "'f shared_frame" +
  producer :: "'f producer"
  claimed :: bool
  submitted :: "'f list"
  delivered :: "'f list"
  freed :: "'f list"

definition idle_handover :: "'f handover" where
  "idle_handover = \<lparr>current = None, ready = False, producer = Producing, claimed = False, submitted = [],
     delivered = [], freed = []\<rparr>"

definition the_frame :: "'f handover \<Rightarrow> 'f shared_frame" where
  "the_frame s = \<lparr>current = current s, ready = ready s\<rparr>"

definition with_frame :: "'f shared_frame \<Rightarrow> 'f handover \<Rightarrow> 'f handover" where
  "with_frame sf s = s\<lparr>current := current sf, ready := ready sf\<rparr>"

definition shown :: "'f option \<Rightarrow> 'f list" where
  "shown c = (case c of None \<Rightarrow> [] | Some g \<Rightarrow> [g])"

text \<open>One step of either thread. An acquire that returns nothing delivers nothing.\<close>

inductive handover_step :: "'f handover \<Rightarrow> 'f handover \<Rightarrow> bool" where
  swap: "producer s = Producing \<Longrightarrow> submit_swap f (the_frame s) = (old, sf) \<Longrightarrow>
    handover_step s ((with_frame sf s)\<lparr>producer := Swapped old, submitted := submitted s @ [f]\<rparr>)"
| raise: "producer s = Swapped old \<Longrightarrow> submit_raise (the_frame s) = sf \<Longrightarrow>
    handover_step s ((with_frame sf s)\<lparr>producer := Raised old\<rparr>)"
| release: "producer s = Raised old \<Longrightarrow>
    handover_step s (s\<lparr>producer := Producing, freed := freed s @ shown old\<rparr>)"
| claim: "\<not> claimed s \<Longrightarrow> acquire_claim (the_frame s) = (got, sf) \<Longrightarrow>
    handover_step s ((with_frame sf s)\<lparr>claimed := got\<rparr>)"
| fetch: "claimed s \<Longrightarrow> acquire_take (the_frame s) = (got, sf) \<Longrightarrow>
    handover_step s ((with_frame sf s)\<lparr>claimed := False,
      delivered := delivered s @ shown got\<rparr>)"

definition in_hand :: "'f producer \<Rightarrow> 'f list" where
  "in_hand p = (case p of Producing \<Rightarrow> [] | Swapped old \<Rightarrow> shown old | Raised old \<Rightarrow> shown old)"

text \<open>Every frame is in one place; what was delivered, and then the current frame, come in the
  order of submission; the current frame is the last submitted; and a current frame that no
  thread is at work on is announced.\<close>

definition handover_ok :: "'f handover \<Rightarrow> bool" where
  "handover_ok s \<longleftrightarrow>
     mset (submitted s) = mset (delivered s) + mset (freed s) + mset (shown (current s)) + mset (in_hand (producer s)) \<and>
     (case current s of
        None \<Rightarrow> subseq (delivered s) (submitted s)
      | Some f \<Rightarrow> (\<exists>before. submitted s = before @ [f] \<and> subseq (delivered s) before)) \<and>
     (current s \<noteq> None \<longrightarrow> ready s \<or> claimed s \<or> (\<exists>old. producer s = Swapped old))"

lemma handover_step_ok: "handover_step s t \<Longrightarrow> handover_ok s \<Longrightarrow> handover_ok t"
proof (induction rule: handover_step.induct)
  case (swap s f old sf)
  then show ?case
    by (auto simp: handover_ok_def submit_swap_def the_frame_def with_frame_def in_hand_def shown_def
        split: option.splits)
next
  case (raise s old sf)
  then show ?case
    by (auto simp: handover_ok_def submit_raise_def the_frame_def with_frame_def in_hand_def split: option.splits)
next
  case (release s old)
  then show ?case by (auto simp: handover_ok_def in_hand_def split: option.splits)
next
  case (claim s got sf)
  then show ?case by (auto simp: handover_ok_def acquire_claim_def the_frame_def with_frame_def split: option.splits)
next
  case (fetch s got sf)
  then show ?case
    by (auto simp: handover_ok_def acquire_take_def the_frame_def with_frame_def shown_def split: option.splits)
qed

lemma handover_steps_ok: "handover_step\<^sup>*\<^sup>* s t \<Longrightarrow> handover_ok s \<Longrightarrow> handover_ok t"
  by (induction rule: rtranclp_induct) (auto intro: handover_step_ok)


lemma idle_handover_ok: "handover_ok idle_handover"
  by (simp add: handover_ok_def idle_handover_def shown_def in_hand_def)

text \<open>A submit and an acquire that nothing interrupts are runs of these steps.\<close>

lemma shared_frame_submit_runs:
  assumes "producer s = Producing" and "shared_frame_submit f (the_frame s) = (old, sf)"
  shows "handover_step\<^sup>*\<^sup>* s ((with_frame sf s)\<lparr>submitted := submitted s @ [f], freed := freed s @ shown old\<rparr>)"
proof -
  obtain sf1 where 1: "submit_swap f (the_frame s) = (old, sf1)" and 2: "submit_raise sf1 = sf"
    using assms(2) by (simp add: shared_frame_submit_def split: prod.splits)
  let ?s1 = "(with_frame sf1 s)\<lparr>producer := Swapped old, submitted := submitted s @ [f]\<rparr>"
  let ?s2 = "(with_frame sf ?s1)\<lparr>producer := Raised old\<rparr>"
  have "handover_step s ?s1" using assms(1) 1 by (rule handover_step.swap)
  moreover have "handover_step ?s1 ?s2"
    using 2 by (intro handover_step.raise) (auto simp: the_frame_def with_frame_def submit_raise_def)
  moreover have "handover_step ?s2 (?s2\<lparr>producer := Producing, freed := freed ?s2 @ shown old\<rparr>)"
    by (rule handover_step.release) simp
  moreover have "?s2\<lparr>producer := Producing, freed := freed ?s2 @ shown old\<rparr> =
      (with_frame sf s)\<lparr>submitted := submitted s @ [f], freed := freed s @ shown old\<rparr>"
    using assms(1) by (cases s) (simp add: with_frame_def)
  ultimately show ?thesis by (metis (no_types, lifting) r_into_rtranclp rtranclp.rtrancl_into_rtrancl)
qed

lemma shared_frame_acquire_runs:
  assumes "\<not> claimed s" and "shared_frame_acquire (the_frame s) = (got, sf)"
  shows "handover_step\<^sup>*\<^sup>* s ((with_frame sf s)\<lparr>delivered := delivered s @ shown got\<rparr>)"
proof (cases "ready s")
  case True
  let ?s1 = "s\<lparr>ready := False, claimed := True\<rparr>"
  have "handover_step s ?s1"
    using handover_step.claim [of s True] assms(1) True
    by (simp add: acquire_claim_def the_frame_def with_frame_def)
  moreover have "handover_step ?s1 ((with_frame sf s)\<lparr>delivered := delivered s @ shown got\<rparr>)"
    using handover_step.fetch [of ?s1] assms True
    by (cases s) (auto simp: shared_frame_acquire_def acquire_claim_def acquire_take_def the_frame_def with_frame_def)
  ultimately show ?thesis by (auto intro: converse_rtranclp_into_rtranclp)
next
  case False
  then show ?thesis
    using handover_step.claim [of s False] assms
    by (cases s) (auto simp: shared_frame_acquire_def acquire_claim_def the_frame_def with_frame_def shown_def)
qed

text \<open>C11. In every interleaving of the steps of the producer's submits and the consumer's acquires:
  each submitted frame is in exactly one place (delivered, freed by the producer, current, or
  in the producer's hand), so that none is lost, delivered twice, or freed after delivery;
  frames are delivered in the order of submission; the current frame is the last submitted;
  and when both threads are between calls a current frame is announced to the next acquire.\<close>

theorem shared_frame_handover:
  assumes "handover_step\<^sup>*\<^sup>* idle_handover s"
  shows "mset (submitted s) =
       mset (delivered s) + mset (freed s) + mset (shown (current s)) + mset (in_hand (producer s)) \<and>
     subseq (delivered s) (submitted s) \<and>
     (current s = None \<or> current s = Some (last (submitted s))) \<and>
     (producer s = Producing \<and> \<not> claimed s \<and> current s \<noteq> None \<longrightarrow> ready s)"
proof -
  have ok: "handover_ok s" using handover_steps_ok [OF assms idle_handover_ok] .
  then have "subseq (delivered s) (submitted s) \<and> (current s = None \<or> current s = Some (last (submitted s)))"
    by (auto simp: handover_ok_def split: option.splits)
  then show ?thesis using ok by (auto simp: handover_ok_def)
qed

text \<open>The consumer claims the first frame, the producer replaces it, the consumer takes the second:
  the next acquire finds the flag set and no frame.\<close>

theorem shared_frame_handover_witness:
  "\<exists>s. handover_step\<^sup>*\<^sup>* idle_handover s \<and> submitted s = [10 :: nat, 20] \<and> delivered s = [20] \<and> freed s = [10] \<and>
     ready s \<and> current s = None \<and> mset [10 :: nat, 20] = mset [20] + mset [10]"
proof -
  define s1 :: "nat handover" where "s1 = idle_handover\<lparr>current := Some 10, ready := True, submitted := [10]\<rparr>"
  define s2 where "s2 = s1\<lparr>ready := False, claimed := True\<rparr>"
  define s3 where "s3 = s2\<lparr>current := Some 20, ready := True, submitted := [10, 20], freed := [10]\<rparr>"
  define s4 where "s4 = s3\<lparr>current := None, claimed := False, delivered := [20]\<rparr>"
  have 1: "handover_step\<^sup>*\<^sup>* idle_handover s1"
    using shared_frame_submit_runs [of idle_handover 10]
    by (simp add: s1_def shared_frame_submit_def submit_swap_def submit_raise_def the_frame_def with_frame_def
        idle_handover_def shown_def)
  have 2: "handover_step s1 s2"
    using handover_step.claim [of s1 True]
    by (simp add: s2_def s1_def acquire_claim_def the_frame_def with_frame_def idle_handover_def)
  have 3: "handover_step\<^sup>*\<^sup>* s2 s3"
    using shared_frame_submit_runs [of s2 20]
    by (simp add: s3_def s2_def s1_def shared_frame_submit_def submit_swap_def submit_raise_def the_frame_def
        with_frame_def idle_handover_def shown_def)
  have 4: "handover_step s3 s4"
    using handover_step.fetch [of s3 "Some 20"]
    by (simp add: s4_def s3_def s2_def s1_def acquire_take_def the_frame_def with_frame_def idle_handover_def shown_def)
  have r: "handover_step\<^sup>*\<^sup>* idle_handover s4"
    using 1 2 3 4 by (meson rtranclp.rtrancl_into_rtrancl rtranclp_trans)
  have f: "submitted s4 = [10, 20]" "delivered s4 = [20]" "freed s4 = [10]" "ready s4" "current s4 = None"
    "producer s4 = Producing"
    by (simp_all add: s4_def s3_def s2_def s1_def idle_handover_def)
  show ?thesis
    using shared_frame_handover [OF r] r f by (intro exI [of _ s4]) (simp add: shown_def in_hand_def)
qed

section \<open>The frame buffer\<close>

text \<open>
  Each function runs under the buffer's mutex. \<open>pending_frame\<close> is \<open>None\<close> when the frame is
  unreferenced; \<open>ref\<close> is \<open>av_frame_ref\<close>, which gives the contents of the new reference or fails.
\<close>

record 'f frame_buffer =
  pending_frame :: "'f option"
  has_frame :: bool

definition frame_buffer_init :: "bool \<Rightarrow> 'f frame_buffer option" where
  "frame_buffer_init alloc_ok = (if alloc_ok then Some \<lparr>pending_frame = None, has_frame = False\<rparr> else None)"

definition frame_buffer_push ::
  "('f option \<Rightarrow> 'f option) \<Rightarrow> 'f frame_buffer \<Rightarrow> 'f \<Rightarrow> bool \<times> 'f frame_buffer" where
  "frame_buffer_push ref fb f =
     (case ref (Some f) of
        None \<Rightarrow> (False, fb\<lparr>pending_frame := None\<rparr>)
      | Some g \<Rightarrow> (True, fb\<lparr>pending_frame := Some g, has_frame := True\<rparr>))"

definition frame_buffer_has_frame :: "'f frame_buffer \<Rightarrow> bool" where
  "frame_buffer_has_frame fb = has_frame fb"

definition frame_buffer_consume ::
  "('f option \<Rightarrow> 'f option) \<Rightarrow> 'f frame_buffer \<Rightarrow> bool \<times> 'f option \<times> 'f frame_buffer" where
  "frame_buffer_consume ref fb =
     (if \<not> has_frame fb then (False, None, fb)
      else (ref (pending_frame fb) \<noteq> None, ref (pending_frame fb), fb\<lparr>has_frame := False\<rparr>))"

text \<open>With references that succeed, the consumer gets the last frame pushed, and gets it once.\<close>

lemma frame_buffer_latest:
  assumes "\<And>f. ref (Some f) = Some f"
  shows "frame_buffer_consume ref (foldl (\<lambda>b f. snd (frame_buffer_push ref b f)) fb (fs @ [f])) =
     (True, Some f, \<lparr>pending_frame = Some f, has_frame = False\<rparr>)"
  by (simp add: assms frame_buffer_push_def frame_buffer_consume_def)

text \<open>A push whose reference fails drops the frame before it, but still announces one.\<close>

lemma frame_buffer_failed_push:
  assumes "ref (Some f) = None" and "has_frame fb"
  shows "frame_buffer_has_frame (snd (frame_buffer_push ref fb f)) \<and>
     pending_frame (snd (frame_buffer_push ref fb f)) = None"
  using assms by (simp add: frame_buffer_push_def frame_buffer_has_frame_def)

end
