(* ===== verification/Video_Pipeline.thy ===== *)
theory Video_Pipeline
  imports Nv12 Shared_Frame Server
begin

text \<open>
  Decoding of the video stream: \<open>src/decode/video_decoder.c\<close> and the thread of
  \<open>src/pipeline/video_pipeline.c\<close> that feeds the decoder and hands its frames over. FFmpeg's
  parser and decoder are parameters: \<open>'d\<close> is the state of their contexts.
\<close>

section \<open>The decoder\<close>

datatype codec = H264 | HEVC | AV1

datatype send_status = Sent | Again | Send_Error

record 'd codec_library =
  find_decoder :: "codec \<Rightarrow> bool"
  parser_init :: "codec \<Rightarrow> bool"
  alloc_context :: "codec \<Rightarrow> bool"
  open_codec :: "codec \<Rightarrow> u32 \<Rightarrow> u32 \<Rightarrow> 'd option"
  parse :: "bytes \<Rightarrow> 'd \<Rightarrow> int \<times> bytes \<times> 'd"
  send_packet :: "bytes \<Rightarrow> 'd \<Rightarrow> send_status \<times> 'd"
  receive_frame :: "'d \<Rightarrow> av_frame option \<times> 'd"

text \<open>\<open>dec_parser\<close> and \<open>dec_codec\<close> say which of the two pointers are set.\<close>

record 'd video_decoder =
  dec_parser :: bool
  dec_codec :: bool
  dec_state :: 'd

definition codec_of :: "u32 \<Rightarrow> codec option" where
  "codec_of codec_id =
     (if codec_id = 0x68323634 then Some H264 else if codec_id = 0x68323635 then Some HEVC
      else if codec_id = 0x00617631 then Some AV1 else None)"

definition video_decoder_create :: "'d \<Rightarrow> bool \<Rightarrow> bool \<Rightarrow> bool \<Rightarrow> 'd video_decoder option" where
  "video_decoder_create zeroed struct_ok frame_made packet_made =
     (if struct_ok \<and> frame_made \<and> packet_made
      then Some \<lparr>dec_parser = False, dec_codec = False, dec_state = zeroed\<rparr> else None)"

definition video_decoder_init ::
  "'d codec_library \<Rightarrow> u32 \<Rightarrow> u32 \<Rightarrow> u32 \<Rightarrow> 'd video_decoder \<Rightarrow> bool \<times> 'd video_decoder" where
  "video_decoder_init lib codec_id w h dec =
     (case codec_of codec_id of
        None \<Rightarrow> (False, dec)
      | Some codec \<Rightarrow>
          if \<not> find_decoder lib codec then (False, dec)
          else if \<not> parser_init lib codec then (False, dec\<lparr>dec_parser := False\<rparr>)
          else if \<not> alloc_context lib codec then (False, dec\<lparr>dec_parser := True, dec_codec := False\<rparr>)
          else case open_codec lib codec w h of
            None \<Rightarrow> (False, dec\<lparr>dec_parser := True, dec_codec := False\<rparr>)
          | Some d \<Rightarrow> (True, dec\<lparr>dec_parser := True, dec_codec := True, dec_state := d\<rparr>))"

text \<open>A parsed packet goes to the decoder, which may have a picture then.\<close>

definition feed_decoder :: "'d codec_library \<Rightarrow> bytes \<Rightarrow> 'd \<Rightarrow> av_frame option \<times> 'd" where
  "feed_decoder lib parsed d =
     (if parsed = [] then (None, d)
      else case send_packet lib parsed d of (st, d1) \<Rightarrow>
        if st = Send_Error then (None, d1) else receive_frame lib d1)"

text \<open>
  The loop of \<open>video_decoder_decode\<close> on what remains of the chunk. It need not end: nothing makes
  the parser take a byte. A picture decoded before the last one is freed.
\<close>

datatype 'd decode_end = Bad_Access | Decoded bool video_frame 'd

partial_function (option) decode_loop ::
  "'d codec_library \<Rightarrow> (nat \<Rightarrow> bytes option) \<Rightarrow> bytes \<Rightarrow> bool \<Rightarrow> video_frame \<Rightarrow> 'd \<Rightarrow> 'd decode_end option" where
  "decode_loop lib mal buf got frame d =
     (if buf = [] then Some (Decoded got frame d)
      else case parse lib buf d of (consumed, parsed, d1) \<Rightarrow>
        if consumed < 0 then Some (Decoded got frame d1)
        else
          let buf1 = drop (nat consumed) buf
          in case feed_decoder lib parsed d1 of (pic, d2) \<Rightarrow>
               (case pic of
                  None \<Rightarrow> decode_loop lib mal buf1 got frame d2
                | Some src \<Rightarrow>
                    (case frame_to_nv12 mal src of
                       None \<Rightarrow> Some Bad_Access
                     | Some (ok, fr) \<Rightarrow> decode_loop lib mal buf1 ok fr d2)))"

definition no_frame :: video_frame where
  "no_frame = \<lparr>nv12_data = None, frame_width = 0, frame_height = 0, frame_format = 0\<rparr>"

text \<open>\<open>size\<close> is read as an \<open>int\<close>: from \<open>2 ^ 31\<close> on there is nothing to decode.\<close>

definition video_decoder_decode ::
  "'d codec_library \<Rightarrow> (nat \<Rightarrow> bytes option) \<Rightarrow> 'd video_decoder \<Rightarrow> bytes \<Rightarrow> 'd decode_end option" where
  "video_decoder_decode lib mal dec buf =
     (if \<not> dec_parser dec \<or> \<not> dec_codec dec then Some (Decoded False no_frame (dec_state dec))
      else decode_loop lib mal (if length buf < 2 ^ 31 then buf else []) False no_frame (dec_state dec))"

section \<open>The video thread\<close>

text \<open>
  The pipeline with its thread: \<open>vp_thread\<close> is its handle, \<open>thread_alive\<close> holds while its loop goes on, \<open>fed\<close> the chunks the decoder was
  given, \<open>vp_fault\<close> an access outside a block.
\<close>

record 'd video_pipeline =
  vp_decoder :: "'d video_decoder"
  vp_sock :: video_socket
  vp_frame :: "video_frame shared_frame"
  vp_running :: bool
  vp_thread :: bool
  thread_alive :: bool
  fed :: "bytes list"
  vp_fault :: bool

definition video_pipeline_init ::
  "'d video_decoder \<Rightarrow> video_socket \<Rightarrow> video_frame shared_frame \<Rightarrow> 'd video_pipeline" where
  "video_pipeline_init dec sock sf =
     \<lparr>vp_decoder = dec, vp_sock = sock, vp_frame = sf, vp_running = False, vp_thread = False,
      thread_alive = False,
      fed = [], vp_fault = False\<rparr>"

definition video_pipeline_start :: "bool \<Rightarrow> 'd video_pipeline \<Rightarrow> bool \<times> 'd video_pipeline" where
  "video_pipeline_start thread_ok vp =
     (if thread_ok then (True, vp\<lparr>vp_running := True, vp_thread := True, thread_alive := True\<rparr>)
      else (False, vp\<lparr>vp_running := False, vp_thread := False\<rparr>))"

definition VIDEO_BUF :: nat where "VIDEO_BUF = 128 * 1024"

text \<open>One round of the thread's loop; \<open>None\<close> when the decoder does not return. A frame the decoder
  gives is submitted when the structure for it (\<open>calloc_ok\<close>) can be allocated.\<close>

definition video_thread_turn ::
  "'d codec_library \<Rightarrow> (nat \<Rightarrow> bytes option) \<Rightarrow> bool \<Rightarrow> 'd video_pipeline \<Rightarrow> 'd video_pipeline option" where
  "video_thread_turn lib mal calloc_ok vp =
     (if \<not> thread_alive vp then Some vp
      else if \<not> vp_running vp then Some (vp\<lparr>thread_alive := False\<rparr>)
      else case video_fd (vp_sock vp) of
        None \<Rightarrow> Some (vp\<lparr>thread_alive := False\<rparr>)
      | Some s \<Rightarrow>
          (case recv VIDEO_BUF s of
             (Got buf, s1) \<Rightarrow>
               let vp1 = vp\<lparr>vp_sock := (vp_sock vp)\<lparr>video_fd := Some s1\<rparr>, fed := fed vp @ [buf]\<rparr>
               in (case video_decoder_decode lib mal (vp_decoder vp) buf of
                     None \<Rightarrow> None
                   | Some Bad_Access \<Rightarrow> Some (vp1\<lparr>thread_alive := False, vp_fault := True\<rparr>)
                   | Some (Decoded got fr d) \<Rightarrow>
                       let vp2 = vp1\<lparr>vp_decoder := (vp_decoder vp)\<lparr>dec_state := d\<rparr>\<rparr>
                       in Some (if got \<and> calloc_ok
                                then vp2\<lparr>vp_frame := snd (shared_frame_submit fr (vp_frame vp))\<rparr> else vp2))
           | (_, s1) \<Rightarrow> Some (vp\<lparr>vp_sock := (vp_sock vp)\<lparr>video_fd := Some s1\<rparr>, thread_alive := False\<rparr>)))"

fun video_run ::
  "'d codec_library \<Rightarrow> (nat \<Rightarrow> bytes option) \<Rightarrow> bool list \<Rightarrow> 'd video_pipeline \<Rightarrow> 'd video_pipeline option" where
  "video_run lib mal [] vp = Some vp"
| "video_run lib mal (calloc_ok # rest) vp = Option.bind (video_thread_turn lib mal calloc_ok vp) (video_run lib mal rest)"

text \<open>Stopping shuts the socket down, so that the thread's \<open>recv\<close> reports the end, and waits.\<close>

definition video_pipeline_stop :: "'d video_pipeline \<Rightarrow> 'd video_pipeline" where
  "video_pipeline_stop vp =
     (if vp_thread vp
      then vp\<lparr>vp_running := False, vp_thread := False, thread_alive := False,
              vp_sock := (vp_sock vp)\<lparr>video_fd := map_option (\<lambda>_. []) (video_fd (vp_sock vp))\<rparr>\<rparr>
      else vp\<lparr>vp_running := False\<rparr>)"

section \<open>Termination and result of the decoder\<close>

text \<open>
  A parser makes progress when each call fails, takes a byte, or gives out something it had
  held back, of which there is less with each such call: \<open>held\<close> measures it.
\<close>

definition makes_progress :: "'d codec_library \<Rightarrow> ('d \<Rightarrow> nat) \<Rightarrow> bool" where
  "makes_progress lib held \<longleftrightarrow>
     (\<forall>buf d n parsed d1 pic d2. buf \<noteq> [] \<longrightarrow> parse lib buf d = (n, parsed, d1) \<longrightarrow>
        feed_decoder lib parsed d1 = (pic, d2) \<longrightarrow> n \<noteq> 0 \<or> held d2 < held d)"

text \<open>The pictures that a chunk gives, in order.\<close>

inductive decodes :: "'d codec_library \<Rightarrow> bytes \<Rightarrow> 'd \<Rightarrow> av_frame list \<Rightarrow> 'd \<Rightarrow> bool" for lib where
  all_read: "decodes lib [] d [] d"
| failed: "buf \<noteq> [] \<Longrightarrow> parse lib buf d = (n, parsed, d1) \<Longrightarrow> n < 0 \<Longrightarrow> decodes lib buf d [] d1"
| step: "buf \<noteq> [] \<Longrightarrow> parse lib buf d = (n, parsed, d1) \<Longrightarrow> 0 \<le> n \<Longrightarrow> feed_decoder lib parsed d1 = (pic, d2) \<Longrightarrow>
    decodes lib (drop (nat n) buf) d2 pics d' \<Longrightarrow> decodes lib buf d (shown pic @ pics) d'"

lemma progress_induct [consumes 1, case_names chunk]:
  assumes "makes_progress lib held"
    and "\<And>buf d. (\<And>n parsed d1 pic d2. buf \<noteq> [] \<Longrightarrow> parse lib buf d = (n, parsed, d1) \<Longrightarrow> \<not> n < 0 \<Longrightarrow>
        feed_decoder lib parsed d1 = (pic, d2) \<Longrightarrow> P (drop (nat n) buf) d2) \<Longrightarrow> P buf d"
  shows "P buf d"
proof (induction "(length buf, held d)" arbitrary: buf d rule: wf_induct_rule [OF wf_lex_prod [OF wf_less_than wf_less_than]])
  case 1
  show ?case
  proof (rule assms(2))
    fix n parsed d1 pic d2
    assume a: "buf \<noteq> []" "parse lib buf d = (n, parsed, d1)" "\<not> n < 0" "feed_decoder lib parsed d1 = (pic, d2)"
    then have "n \<noteq> 0 \<or> held d2 < held d" using assms(1) unfolding makes_progress_def by blast
    then show "P (drop (nat n) buf) d2" using a(1,3) by (intro 1) auto
  qed
qed

lemma progress_decodes: "makes_progress lib held \<Longrightarrow> \<exists>pics d'. decodes lib buf d pics d'"
proof (induction buf d rule: progress_induct)
  case (chunk buf d)
  obtain n parsed d1 where p: "parse lib buf d = (n, parsed, d1)" by (cases "parse lib buf d")
  obtain pic d2 where f: "feed_decoder lib parsed d1 = (pic, d2)" by (cases "feed_decoder lib parsed d1")
  consider "buf = []" | "buf \<noteq> []" "n < 0" | "buf \<noteq> []" "\<not> n < 0" by blast
  then show ?case
  proof cases
    case 1
    then have "decodes lib buf d [] d" by (simp add: decodes.all_read)
    then show ?thesis by blast
  next
    case 2
    then show ?thesis using decodes.failed [OF _ p] by blast
  next
    case 3
    then obtain pics d' where "decodes lib (drop (nat n) buf) d2 pics d'" using chunk [OF _ p _ f] by blast
    then show ?thesis using decodes.step [OF _ p _ f] 3 by force
  qed
qed

lemma decode_loop_returns: "makes_progress lib held \<Longrightarrow> decode_loop lib mal buf got fr d \<noteq> None"
proof (induction buf d arbitrary: got fr rule: progress_induct)
  case (chunk buf d)
  obtain n parsed d1 where p: "parse lib buf d = (n, parsed, d1)" by (cases "parse lib buf d")
  obtain pic d2 where f: "feed_decoder lib parsed d1 = (pic, d2)" by (cases "feed_decoder lib parsed d1")
  have "decode_loop lib mal (drop (nat n) buf) got fr d2 \<noteq> None" if "buf \<noteq> []" "\<not> n < 0" for got fr
    using chunk [OF that(1) p that(2) f] by blast
  then show ?case
    by (subst decode_loop.simps) (auto simp: p f Let_def split: option.split prod.split)
qed


text \<open>A parser that takes three bytes at a time and passes them on, with a decoder that gives a picture
  of one pixel for each packet.\<close>

definition example_pixel :: "nat \<Rightarrow> av_frame" where
  "example_pixel d = \<lparr>av_width = 1, av_height = 1, y_plane = [word_of_nat d], u_plane = [], v_plane = [],
     y_stride = 1, uv_stride = 1\<rparr>"

definition example_library :: "nat codec_library" where
  "example_library =
     \<lparr>find_decoder = (\<lambda>_. True), parser_init = (\<lambda>_. True), alloc_context = (\<lambda>_. True),
      open_codec = (\<lambda>_ _ _. Some 0),
      parse = (\<lambda>buf d. (int (min 3 (length buf)), take 3 buf, d)),
      send_packet = (\<lambda>p d. (Sent, unat (hd p))),
      receive_frame = (\<lambda>d. (Some (example_pixel d), d))\<rparr>"

lemma example_library_progress: "makes_progress example_library (\<lambda>_. 0)"
  by (auto simp: makes_progress_def example_library_def)


text \<open>What a decode gives when nothing fails: the last picture of the chunk.\<close>

definition nv12_of :: "(nat \<Rightarrow> bytes option) \<Rightarrow> av_frame \<Rightarrow> video_frame" where
  "nv12_of mal src = snd (the (frame_to_nv12 mal src))"

definition always_allocates :: "(nat \<Rightarrow> bytes option) \<Rightarrow> bool" where
  "always_allocates mal \<longleftrightarrow> (\<forall>n. \<exists>block. mal n = Some block \<and> length block = n)"

lemma frame_to_nv12_ok:
  assumes "picture_ok src" and "always_allocates mal"
  shows "frame_to_nv12 mal src = Some (True, nv12_of mal src)"
proof -
  obtain block where b: "mal (nv12_size (av_width src) (av_height src)) = Some block"
    "length block = nv12_size (av_width src) (av_height src)"
    using assms(2) unfolding always_allocates_def by blast
  then show ?thesis using nv12_pixels [of src mal block, OF assms(1) b] by (auto simp: nv12_of_def)
qed

lemma decode_loop_decodes:
  "decodes lib buf d pics d' \<Longrightarrow> \<forall>p \<in> set pics. picture_ok p \<Longrightarrow> always_allocates mal \<Longrightarrow>
     decode_loop lib mal buf got fr d =
       Some (Decoded (got \<or> pics \<noteq> []) (if pics = [] then fr else nv12_of mal (last pics)) d')"
proof (induction arbitrary: got fr rule: decodes.induct)
  case (all_read d)
  then show ?case by (subst decode_loop.simps) simp
next
  case (failed buf d n parsed d1)
  then show ?case by (subst decode_loop.simps) simp
next
  case (step buf d n parsed d1 pic d2 pics d')
  show ?case
  proof (cases pic)
    case None
    then show ?thesis using step by (subst decode_loop.simps) (simp add: shown_def)
  next
    case (Some src)
    then have "frame_to_nv12 mal src = Some (True, nv12_of mal src)"
      using step.prems frame_to_nv12_ok by (simp add: shown_def)
    then show ?thesis using step Some by (subst decode_loop.simps) (simp add: shown_def)
  qed
qed

text \<open>A decode of a chunk gives the last of the pictures the library makes of it, in the layout the
  renderer reads, and none when there are none: the earlier pictures of the chunk are dropped.
  It holds for every parser that makes progress, when allocations succeed and the pictures
  hold their rows.\<close>

theorem video_decoder_decode_last:
  assumes "makes_progress lib held" and "dec_parser dec \<and> dec_codec dec" and "length buf < 2 ^ 31"
    and "always_allocates mal" and "\<And>pics d'. decodes lib buf (dec_state dec) pics d' \<Longrightarrow> \<forall>p \<in> set pics. picture_ok p"
  shows "\<exists>pics d' fr. decodes lib buf (dec_state dec) pics d' \<and>
     video_decoder_decode lib mal dec buf = Some (Decoded (pics \<noteq> []) fr d') \<and>
     (pics \<noteq> [] \<longrightarrow> frame_to_nv12 mal (last pics) = Some (True, fr))"
proof -
  obtain pics d' where d: "decodes lib buf (dec_state dec) pics d'" using progress_decodes [OF assms(1)] by blast
  have ok: "\<forall>p \<in> set pics. picture_ok p" using assms(5) [OF d] .
  have r: "video_decoder_decode lib mal dec buf =
      Some (Decoded (pics \<noteq> []) (if pics = [] then no_frame else nv12_of mal (last pics)) d')"
    using decode_loop_decodes [OF d ok assms(4)] assms(2,3) by (simp add: video_decoder_decode_def)
  have "pics \<noteq> [] \<Longrightarrow> frame_to_nv12 mal (last pics) = Some (True, nv12_of mal (last pics))"
    using frame_to_nv12_ok [OF _ assms(4)] ok by simp
  with d r show ?thesis by auto
qed

inductive_cases decodesE: "decodes lib buf d pics d'"

lemma example_decodes:
  assumes "decodes example_library [1, 2, 3, 4, 5] d pics d'"
  shows "pics = [example_pixel 1, example_pixel 4]"
proof -
  have p: "parse example_library [1, 2, 3, 4, 5] d = (3, [1, 2, 3], d)"
    "parse example_library [4, 5] d = (2, [4, 5], d)" for d
    by (simp_all add: example_library_def)
  have f: "feed_decoder example_library [1, 2, 3] d = (Some (example_pixel 1), 1)"
    "feed_decoder example_library [4, 5] d = (Some (example_pixel 4), 4)" for d
    by (simp_all add: feed_decoder_def example_library_def)
  have last': "pics = [example_pixel 4]" if "decodes example_library [4, 5] d pics d'" for d pics d'
    using that by (rule decodesE) (auto simp: p f shown_def elim: decodesE)
  show ?thesis
    using assms by (rule decodesE) (auto simp: p f shown_def dest: last')
qed

theorem video_decoder_decode_last_witness:
  "\<exists>d'. video_decoder_decode example_library (\<lambda>n. Some (replicate n 0))
     \<lparr>dec_parser = True, dec_codec = True, dec_state = 0\<rparr> [1, 2, 3, 4, 5] =
     Some (Decoded True \<lparr>nv12_data = Some [4], frame_width = 1, frame_height = 1, frame_format = 0\<rparr> d')"
proof -
  let ?dec = "\<lparr>dec_parser = True, dec_codec = True, dec_state = 0\<rparr>" and ?mal = "\<lambda>n. Some (replicate n 0)"
  have ok: "\<forall>p \<in> set pics. picture_ok p"
    if "decodes example_library [1, 2, 3, 4, 5] (dec_state ?dec) pics d'" for pics d'
    using example_decodes [OF that] by (simp add: picture_ok_def example_pixel_def)
  have mal: "always_allocates ?mal" by (simp add: always_allocates_def)
  obtain pics d' fr where r: "decodes example_library [1, 2, 3, 4, 5] (dec_state ?dec) pics d'"
    "video_decoder_decode example_library ?mal ?dec [1, 2, 3, 4, 5] = Some (Decoded (pics \<noteq> []) fr d')"
    "pics \<noteq> [] \<longrightarrow> frame_to_nv12 ?mal (last pics) = Some (True, fr)"
    using video_decoder_decode_last [OF example_library_progress, of ?dec "[1, 2, 3, 4, 5]" ?mal] ok mal by auto
  have "pics = [example_pixel 1, example_pixel 4]" using example_decodes [OF r(1)] .
  moreover from this r(3) have "frame_to_nv12 ?mal (example_pixel 4) = Some (True, fr)" by simp
  then have "fr = \<lparr>nv12_data = Some [4], frame_width = 1, frame_height = 1, frame_format = 0\<rparr>"
    by (simp add: frame_to_nv12_def example_pixel_def nv12_size_def copy_luma_row_def read_at_def write_at_def Let_def)
  ultimately show ?thesis using r(2) by auto
qed

section \<open>What the video thread feeds the decoder\<close>

definition feeds :: "bytes \<Rightarrow> bytes \<Rightarrow> 'd video_pipeline \<Rightarrow> bool" where
  "feeds hdr bs vp \<longleftrightarrow>
     pending (vp_sock vp) = hdr \<and> (\<exists>more. concat (fed vp) @ more = bs) \<and>
     (thread_alive vp \<longrightarrow> (\<exists>s. video_fd (vp_sock vp) = Some s \<and> concat (fed vp) @ stream s = bs))"

lemma video_thread_turn_feeds:
  assumes "feeds hdr bs vp" and "video_thread_turn lib mal calloc_ok vp = Some vp'"
  shows "feeds hdr bs vp'"
proof (cases "thread_alive vp \<and> vp_running vp")
  case True
  then obtain s where s: "video_fd (vp_sock vp) = Some s" "concat (fed vp) @ stream s = bs"
    using assms(1) by (auto simp: feeds_def)
  obtain r s1 where r: "recv VIDEO_BUF s = (r, s1)" by (cases "recv VIDEO_BUF s")
  show ?thesis
  proof (cases r)
    case (Got buf)
    then have "stream s = buf @ stream s1" using recv_stream [of VIDEO_BUF s] r by (simp add: VIDEO_BUF_def)
    then show ?thesis
      using assms True s r Got
      by (auto simp: video_thread_turn_def feeds_def Let_def split: option.splits decode_end.splits if_splits)
  qed (use assms True s r in \<open>auto simp: video_thread_turn_def feeds_def\<close>)
next
  case False
  then show ?thesis using assms by (auto simp: video_thread_turn_def feeds_def split: if_splits)
qed

lemma video_run_feeds: "video_run lib mal turns vp = Some vp' \<Longrightarrow> feeds hdr bs vp \<Longrightarrow> feeds hdr bs vp'"
  by (induction turns arbitrary: vp) (auto simp: bind_eq_Some_conv intro: video_thread_turn_feeds)

text \<open>C38. The video thread gives the decoder the socket's bytes as they come, from the point where the
  metadata reader stopped. When that reader has found the header of a first packet instead of a
  session header and kept it as pending, these twelve bytes stay pending for ever: whatever the
  turns, the decoder is given a prefix of what follows them, packet headers included.\<close>

theorem video_thread_skips_pending:
  assumes "stream s = dummy # name @ write32be codec @ write32be w @ write32be h @ hdr @ rest"
    and "length name = 64" and "length hdr = 12" and "mal12 12" and "pending sock = []" and "\<not> bit (hdr ! 0) 7"
    and "read_video_metadata mal12 sock s = (True, sock', s')"
    and "video_run lib mal turns
           (snd (video_pipeline_start True (video_pipeline_init dec (sock'\<lparr>video_fd := Some s'\<rparr>) sf))) = Some vp"
  shows "pending (vp_sock vp) = hdr \<and> (\<exists>more. concat (fed vp) @ more = rest)"
proof -
  have "pending sock' = hdr \<and> stream s' = rest"
    using video_metadata_read [of s dummy name codec w h hdr rest mal12 sock, OF assms(1-5)] assms(6,7) by auto
  then have "feeds hdr rest (snd (video_pipeline_start True (video_pipeline_init dec (sock'\<lparr>video_fd := Some s'\<rparr>) sf)))"
    by (simp add: feeds_def video_pipeline_start_def video_pipeline_init_def)
  from video_run_feeds [OF assms(8) this] show ?thesis by (simp add: feeds_def)
qed

text \<open>With a parser that makes progress every run of the thread goes on.\<close>

lemma video_run_returns:
  assumes "makes_progress lib held"
  shows "\<exists>vp'. video_run lib mal turns vp = Some vp'"
proof (induction turns arbitrary: vp)
  case Nil
  then show ?case by simp
next
  case (Cons calloc_ok rest)
  have d: "video_decoder_decode lib mal dec buf = None \<longleftrightarrow> False" for dec buf
    using decode_loop_returns [OF assms] by (simp add: video_decoder_decode_def)
  have "video_thread_turn lib mal calloc_ok vp \<noteq> None"
    by (auto simp: video_thread_turn_def Let_def d split: option.split prod.split recv_result.split decode_end.split)
  then show ?case using Cons.IH by (auto simp: bind_eq_Some_conv)
qed

theorem video_thread_skips_pending_witness:
  "\<exists>sock' s' vp. read_video_metadata (\<lambda>_. True) (video_socket_init None)
       [Arrive (0 # replicate 64 65 @ write32be 0x68323634 @ write32be 2 @ write32be 2 @ replicate 12 1 @ [7, 8])] =
         (True, sock', s') \<and>
     video_run example_library (\<lambda>n. Some (replicate n 0)) [True, True] (snd (video_pipeline_start True
       (video_pipeline_init \<lparr>dec_parser = True, dec_codec = True, dec_state = 0\<rparr> (sock'\<lparr>video_fd := Some s'\<rparr>)
          shared_frame_init))) = Some vp \<and>
     pending (vp_sock vp) = replicate 12 1 \<and> (\<exists>more. concat (fed vp) @ more = [7, 8])"
proof -
  let ?s = "[Arrive (0 # replicate 64 65 @ write32be 0x68323634 @ write32be 2 @ write32be 2 @ replicate 12 1 @ [7, 8])]"
  let ?sock = "video_socket_init None"
  have s: "stream ?s = 0 # replicate 64 65 @ write32be 0x68323634 @ write32be 2 @ write32be 2 @ replicate 12 1 @ [7, 8]"
    by simp
  have hdr: "length (replicate 64 (65 :: byte)) = 64" "length (replicate 12 (1 :: byte)) = 12"
    "\<not> bit (replicate 12 (1 :: byte) ! 0) 7" "pending ?sock = []" by (simp_all add: video_socket_init_def)
  obtain sock' s' where m: "read_video_metadata (\<lambda>_. True) ?sock ?s = (True, sock', s')"
    using video_metadata_read [OF s hdr(1,2), of "\<lambda>_. True" ?sock] hdr(4) by auto
  obtain vp where vp: "video_run example_library (\<lambda>n. Some (replicate n 0)) [True, True] (snd (video_pipeline_start True
      (video_pipeline_init \<lparr>dec_parser = True, dec_codec = True, dec_state = 0\<rparr> (sock'\<lparr>video_fd := Some s'\<rparr>)
         shared_frame_init))) = Some vp"
    using video_run_returns [OF example_library_progress] by blast
  show ?thesis
    using video_thread_skips_pending [OF s hdr(1,2) _ hdr(4,3) m vp] m vp by auto
qed

end
