(* ===== verification/Script_Messages.thy ===== *)
theory Script_Messages
  imports Queues Binary
begin

text \<open>
  The messages between the script engine's thread and the window's thread: their format
  (\<open>src/script/message_queue.h\<close>), the functions Scheme code calls (\<open>src/script/bindings.c\<close>), and the
  dispatch on the other side (\<open>src/script/event_dispatch.c\<close>). Integers go into a message in the
  machine's byte order, which is little-endian.
\<close>

section \<open>Messages\<close>

datatype script_msg_type =
    MSG_INJECT_KEYCODE | MSG_INJECT_TEXT | MSG_INJECT_TOUCH | MSG_INJECT_SCROLL | MSG_SET_CLIPBOARD
  | MSG_EXPAND_NOTIFICATION | MSG_COLLAPSE_PANELS | MSG_SET_DISPLAY_POWER | MSG_ROTATE_DEVICE | MSG_START_APP
  | MSG_QUERY_DEVICE_INFO | MSG_QUERY_FRAME_CAPTURE | MSG_QUERY_CLIPBOARD | MSG_QUERY_VIDEO_SIZE | MSG_QUERY_WINDOW_SIZE
  | MSG_EVENT_KEY | MSG_EVENT_MOUSE | MSG_EVENT_FRAME | MSG_EVENT_CONNECTED | MSG_EVENT_DISCONNECTED | MSG_EVENT_ERROR
  | MSG_RESPONSE_DEVICE_INFO | MSG_RESPONSE_FRAME_CAPTURE | MSG_RESPONSE_CLIPBOARD | MSG_RESPONSE_VIDEO_SIZE
  | MSG_RESPONSE_WINDOW_SIZE | MSG_SHUTDOWN

definition SCRIPT_MSG_MAX_DATA_SIZE :: nat where "SCRIPT_MSG_MAX_DATA_SIZE = 256"

record script_msg =
  msg_type :: script_msg_type
  data_size :: nat
  msg_data :: bytes

text \<open>\<open>memset\<close> to zero, and the payload written from the start of the data.\<close>

definition new_msg :: "script_msg_type \<Rightarrow> nat \<Rightarrow> bytes \<Rightarrow> script_msg" where
  "new_msg t n payload =
     \<lparr>msg_type = t, data_size = n, msg_data = blit payload (replicate SCRIPT_MSG_MAX_DATA_SIZE 0)\<rparr>"

lemma new_msg_fields [simp]: "msg_type (new_msg t n payload) = t" "data_size (new_msg t n payload) = n"
  by (simp_all add: new_msg_def)

section \<open>Commands from Scheme\<close>

text \<open>
  A text argument is \<open>None\<close> for a null pointer, else the bytes before the terminating zero. At most
  255 of them fit.
\<close>

datatype script_command =
    Inject_Keycode u32 u32
  | Inject_Text "bytes option"
  | Inject_Touch u32 u32 u32
  | Inject_Scroll u32 u32 u32 u32
  | Set_Clipboard "bytes option"
  | Expand_Notification
  | Collapse_Panels
  | Set_Display_Power u32
  | Rotate_Device
  | Start_App "bytes option"

definition clip_text :: "bytes \<Rightarrow> bytes" where
  "clip_text s = take (SCRIPT_MSG_MAX_DATA_SIZE - 1) s"

definition text_msg :: "script_msg_type \<Rightarrow> bytes option \<Rightarrow> script_msg option" where
  "text_msg t s = map_option (\<lambda>s. new_msg t (length (clip_text s) + 1) (clip_text s @ [0])) s"

fun command_msg :: "script_command \<Rightarrow> script_msg option" where
  "command_msg (Inject_Keycode keycode down) =
     Some (new_msg MSG_INJECT_KEYCODE 8 (write32le keycode @ write32le down))"
| "command_msg (Inject_Text s) = text_msg MSG_INJECT_TEXT s"
| "command_msg (Inject_Touch x y action) =
     Some (new_msg MSG_INJECT_TOUCH 12 (write32le x @ write32le y @ write32le action))"
| "command_msg (Inject_Scroll x y dx dy) =
     Some (new_msg MSG_INJECT_SCROLL 16 (write32le x @ write32le y @ write32le dx @ write32le dy))"
| "command_msg (Set_Clipboard s) = text_msg MSG_SET_CLIPBOARD s"
| "command_msg Expand_Notification = Some (new_msg MSG_EXPAND_NOTIFICATION 0 [])"
| "command_msg Collapse_Panels = Some (new_msg MSG_COLLAPSE_PANELS 0 [])"
| "command_msg (Set_Display_Power on) = Some (new_msg MSG_SET_DISPLAY_POWER 4 (write32le on))"
| "command_msg Rotate_Device = Some (new_msg MSG_ROTATE_DEVICE 0 [])"
| "command_msg (Start_App s) = text_msg MSG_START_APP s"

text \<open>\<open>send_msg\<close>: \<open>None\<close> is a queue that is not set.\<close>

definition send_msg :: "script_msg \<Rightarrow> script_msg msg_queue option \<Rightarrow> bool \<times> script_msg msg_queue option" where
  "send_msg m q =
     (case q of None \<Rightarrow> (False, None)
      | Some q \<Rightarrow> (case script_msg_queue_send m q of (ok, q') \<Rightarrow> (ok, Some q')))"

definition script_command :: "script_command \<Rightarrow> script_msg msg_queue option \<Rightarrow> script_msg msg_queue option" where
  "script_command c q = (case command_msg c of None \<Rightarrow> q | Some m \<Rightarrow> snd (send_msg m q))"

section \<open>Dispatch in the window's thread\<close>

datatype main_call =
    On_Inject_Keycode u32 u32
  | On_Inject_Text bytes
  | On_Inject_Touch u32 u32 u32
  | On_Inject_Scroll u32 u32 u32 u32
  | On_Set_Clipboard bytes
  | On_Expand_Notification
  | On_Collapse_Panels
  | On_Set_Display_Power u32
  | On_Rotate_Device
  | On_Start_App bytes
  | On_Query_Device_Info
  | On_Query_Video_Size
  | On_Query_Window_Size
  | On_Query_Clipboard
  | On_Query_Frame_Capture

text \<open>The C string a callback is given: the data, at most 255 bytes of it, to the first zero.\<close>

definition c_string :: "bytes \<Rightarrow> bytes" where
  "c_string = takeWhile (\<lambda>b. b \<noteq> 0)"

definition msg_text :: "script_msg \<Rightarrow> bytes" where
  "msg_text m =
     (let len = (if data_size m < SCRIPT_MSG_MAX_DATA_SIZE then data_size m else SCRIPT_MSG_MAX_DATA_SIZE - 1)
      in c_string (take len (msg_data m)))"

definition int_at :: "script_msg \<Rightarrow> nat \<Rightarrow> u32" where
  "int_at m i = read32le (drop i (msg_data m))"

text \<open>The callback a message makes the main thread call, if any; \<open>cbs\<close> says which are not null.\<close>

definition main_call_of :: "(script_msg_type \<Rightarrow> bool) \<Rightarrow> script_msg \<Rightarrow> main_call option" where
  "main_call_of cbs m =
     (if \<not> cbs (msg_type m) then None
      else case msg_type m of
        MSG_INJECT_KEYCODE \<Rightarrow>
          if data_size m \<ge> 8 then Some (On_Inject_Keycode (int_at m 0) (int_at m 4)) else None
      | MSG_INJECT_TEXT \<Rightarrow> Some (On_Inject_Text (msg_text m))
      | MSG_INJECT_TOUCH \<Rightarrow>
          if data_size m \<ge> 12 then Some (On_Inject_Touch (int_at m 0) (int_at m 4) (int_at m 8)) else None
      | MSG_INJECT_SCROLL \<Rightarrow>
          if data_size m \<ge> 16 then Some (On_Inject_Scroll (int_at m 0) (int_at m 4) (int_at m 8) (int_at m 12)) else None
      | MSG_SET_CLIPBOARD \<Rightarrow> Some (On_Set_Clipboard (msg_text m))
      | MSG_EXPAND_NOTIFICATION \<Rightarrow> Some On_Expand_Notification
      | MSG_COLLAPSE_PANELS \<Rightarrow> Some On_Collapse_Panels
      | MSG_SET_DISPLAY_POWER \<Rightarrow> if data_size m \<ge> 4 then Some (On_Set_Display_Power (int_at m 0)) else None
      | MSG_ROTATE_DEVICE \<Rightarrow> Some On_Rotate_Device
      | MSG_START_APP \<Rightarrow> Some (On_Start_App (msg_text m))
      | MSG_QUERY_DEVICE_INFO \<Rightarrow> Some On_Query_Device_Info
      | MSG_QUERY_VIDEO_SIZE \<Rightarrow> Some On_Query_Video_Size
      | MSG_QUERY_WINDOW_SIZE \<Rightarrow> Some On_Query_Window_Size
      | MSG_QUERY_CLIPBOARD \<Rightarrow> Some On_Query_Clipboard
      | MSG_QUERY_FRAME_CAPTURE \<Rightarrow> Some On_Query_Frame_Capture
      | _ \<Rightarrow> None)"

lemma try_recv_less: "(Some m, q1) = script_msg_queue_try_recv q \<Longrightarrow> semaphore q1 < semaphore q"
  by (auto simp: script_msg_queue_try_recv_def recv_acquire_def recv_locked_def split: if_splits)

text \<open>\<open>script_process_messages\<close>: until the queue is empty; \<open>act\<close> is what a callback does.\<close>

function script_process_messages ::
  "(script_msg_type \<Rightarrow> bool) \<Rightarrow> (main_call \<Rightarrow> 's \<Rightarrow> 's) \<Rightarrow> script_msg msg_queue \<Rightarrow> 's \<Rightarrow> nat \<times> script_msg msg_queue \<times> 's" where
  "script_process_messages cbs act q s =
     (case script_msg_queue_try_recv q of
        (None, q1) \<Rightarrow> (0, q1, s)
      | (Some m, q1) \<Rightarrow>
          (case script_process_messages cbs act q1
                  (case main_call_of cbs m of None \<Rightarrow> s | Some c \<Rightarrow> act c s) of
             (n, r) \<Rightarrow> (Suc n, r)))"
  by pat_completeness auto
termination
  by (relation "measure (\<lambda>(cbs, act, q, s). semaphore q)") (auto dest: try_recv_less)

declare script_process_messages.simps [simp del]

section \<open>Queues between calls\<close>

text \<open>No thread is inside a call: the semaphore counts the messages.\<close>

definition at_rest :: "'m msg_queue \<Rightarrow> bool" where
  "at_rest q \<longleftrightarrow> msg_inv q \<and> unreleased q = 0 \<and> acquired q = 0"

lemma send_at_rest:
  assumes "at_rest q" and "length (ring_list q) < 256"
  shows "\<exists>q'. script_msg_queue_send m q = (True, q') \<and> at_rest q' \<and> ring_list q' = ring_list q @ [m]"
proof -
  have c: "count q < SCRIPT_MSG_QUEUE_CAPACITY" using assms(2) by (simp add: SCRIPT_MSG_QUEUE_CAPACITY_def)
  obtain q1 where q1: "send_locked m q = (True, q1)" using c by (simp add: send_locked_def)
  have p: "ring_list q1 = ring_list q @ [m]" "msg_inv q1"
    using send_locked_put [OF _ q1] assms(1) by (simp_all add: at_rest_def)
  have u: "unreleased q1 = 1" "acquired q1 = 0"
    using q1 assms(1) c by (auto simp: send_locked_def ring_put_def at_rest_def)
  have "msg_inv (send_release q1)" "ring_list (send_release q1) = ring_list q1"
    using msg_inv_semaphore(2) [OF p(2)] u msg_inv_semaphore(1) by simp_all
  then show ?thesis using q1 p u by (simp add: script_msg_queue_send_def at_rest_def send_release_def)
qed

lemma try_recv_at_rest:
  assumes "at_rest q" and "ring_list q = m # ms"
  shows "\<exists>q'. script_msg_queue_try_recv q = (Some m, q') \<and> at_rest q' \<and> ring_list q' = ms"
proof -
  have "count q = Suc (length ms)" using assms(2) by (metis length_Cons length_ring_list)
  then have "semaphore q \<noteq> 0" using assms(1) by (simp add: at_rest_def msg_inv_def)
  then obtain q1 where q1: "recv_acquire q = Some q1" by (simp add: recv_acquire_def)
  have p: "ring_list q1 = ring_list q" "msg_inv q1"
    using msg_inv_semaphore(3,4) [OF _] q1 assms(1) by (auto simp: at_rest_def intro: msg_inv_semaphore)
  have a: "acquired q1 = 1" "unreleased q1 = 0" using q1 assms(1) by (auto simp: recv_acquire_def at_rest_def split: if_splits)
  obtain x q2 where q2: "recv_locked q1 = (x, q2)" by (cases "recv_locked q1")
  have t: "ring_list q1 = x # ring_list q2" "msg_inv q2" using recv_locked_take [OF p(2) _ q2] a by simp_all
  have "acquired q2 = 0" "unreleased q2 = 0" using q2 a by (auto simp: recv_locked_def)
  then show ?thesis using q1 q2 t p assms(2) by (simp add: script_msg_queue_try_recv_def at_rest_def)
qed

lemma try_recv_empty:
  assumes "at_rest q" and "ring_list q = []"
  shows "script_msg_queue_try_recv q = (None, q)"
  using assms by (simp add: at_rest_def msg_inv_def ring_list_empty script_msg_queue_try_recv_def recv_acquire_def)

text \<open>Processing applies the callbacks of the queued messages in order.\<close>

definition call_all :: "(script_msg_type \<Rightarrow> bool) \<Rightarrow> (main_call \<Rightarrow> 's \<Rightarrow> 's) \<Rightarrow> script_msg list \<Rightarrow> 's \<Rightarrow> 's" where
  "call_all cbs act ms s = fold (\<lambda>m s. case main_call_of cbs m of None \<Rightarrow> s | Some c \<Rightarrow> act c s) ms s"

lemma process_at_rest:
  assumes "at_rest q"
  shows "\<exists>q'. script_process_messages cbs act q s = (length (ring_list q), q', call_all cbs act (ring_list q) s) \<and>
     at_rest q' \<and> ring_list q' = []"
  using assms
proof (induction "ring_list q" arbitrary: q s)
  case Nil
  then show ?case
    by (subst script_process_messages.simps) (simp add: try_recv_empty call_all_def)
next
  case (Cons m ms)
  obtain q1 where q1: "script_msg_queue_try_recv q = (Some m, q1)" "at_rest q1" "ring_list q1 = ms"
    using try_recv_at_rest [OF Cons.prems, of m ms] Cons.hyps(2) by auto
  let ?s = "case main_call_of cbs m of None \<Rightarrow> s | Some c \<Rightarrow> act c s"
  obtain q2 where q2: "script_process_messages cbs act q1 ?s = (length ms, q2, call_all cbs act ms ?s)"
    "at_rest q2" "ring_list q2 = []"
    using Cons.hyps(1) [of q1 ?s] q1 by auto
  have "script_process_messages cbs act q s = (Suc (length ms), q2, call_all cbs act ms ?s)"
    using q1(1) q2(1) by (subst script_process_messages.simps) simp
  moreover have "call_all cbs act (ring_list q) s = call_all cbs act ms ?s"
    by (simp add: call_all_def flip: Cons.hyps(2))
  moreover have "length (ring_list q) = Suc (length ms)" by (simp flip: Cons.hyps(2))
  ultimately show ?case using q2(2,3) by simp
qed

section \<open>Commands arrive as they were given\<close>

text \<open>What a command means: its arguments, a text cut to 255 bytes; nothing for a null text.\<close>

fun command_call :: "script_command \<Rightarrow> main_call option" where
  "command_call (Inject_Keycode k d) = Some (On_Inject_Keycode k d)"
| "command_call (Inject_Text s) = map_option (\<lambda>s. On_Inject_Text (take 255 s)) s"
| "command_call (Inject_Touch x y a) = Some (On_Inject_Touch x y a)"
| "command_call (Inject_Scroll x y dx dy) = Some (On_Inject_Scroll x y dx dy)"
| "command_call (Set_Clipboard s) = map_option (\<lambda>s. On_Set_Clipboard (take 255 s)) s"
| "command_call Expand_Notification = Some On_Expand_Notification"
| "command_call Collapse_Panels = Some On_Collapse_Panels"
| "command_call (Set_Display_Power on) = Some (On_Set_Display_Power on)"
| "command_call Rotate_Device = Some On_Rotate_Device"
| "command_call (Start_App s) = map_option (\<lambda>s. On_Start_App (take 255 s)) s"

fun text_ok :: "script_command \<Rightarrow> bool" where
  "text_ok (Inject_Text (Some s)) = (0 \<notin> set s)"
| "text_ok (Set_Clipboard (Some s)) = (0 \<notin> set s)"
| "text_ok (Start_App (Some s)) = (0 \<notin> set s)"
| "text_ok _ = True"

lemma msg_text_new:
  assumes "0 \<notin> set s"
  shows "msg_text (new_msg t (Suc (length (clip_text s))) (clip_text s @ [0])) = take 255 s"
proof -
  obtain c where c: "take 255 s = c" by simp
  have nz: "\<forall>b \<in> set c. b \<noteq> 0" using assms c by (auto dest: in_set_takeD)
  have len: "length c \<le> 255" using c by auto
  have cut: "take n (blit (c @ [0]) (replicate 256 0)) = c @ take (n - length c) (0 # replicate (255 - length c) 0)"
    if "length c \<le> n" for n
    using that by (simp add: blit_def)
  have tw: "takeWhile (\<lambda>b. b \<noteq> 0) (c @ take k (0 # replicate j (0 :: byte))) = c" for k j
    using nz by (cases k) (simp_all add: takeWhile_append2)
  have "clip_text s = c" using c by (simp add: clip_text_def SCRIPT_MSG_MAX_DATA_SIZE_def)
  then show ?thesis
    using cut [of "length c + 1"] cut [of 255] tw [of 1 0] tw len nz
    by (simp add: msg_text_def new_msg_def SCRIPT_MSG_MAX_DATA_SIZE_def c_string_def c)
qed

lemma ints_of_new:
  "int_at (new_msg t n (write32le a @ rest)) 0 = a"
  "int_at (new_msg t n (write32le a)) 0 = a"
  "int_at (new_msg t n (write32le a @ write32le b @ rest)) 4 = b"
  "int_at (new_msg t n (write32le a @ write32le b)) 4 = b"
  "int_at (new_msg t n (write32le a @ write32le b @ write32le c @ rest)) 8 = c"
  "int_at (new_msg t n (write32le a @ write32le b @ write32le c)) 8 = c"
  "int_at (new_msg t n (write32le a @ write32le b @ write32le c @ write32le d)) 12 = d"
  by (simp_all add: int_at_def new_msg_def blit_def codec_simps)

lemma command_arrives:
  assumes "text_ok c"
  shows "Option.bind (command_msg c) (main_call_of (\<lambda>_. True)) = command_call c"
proof (cases c)
  case (Inject_Text s)
  then show ?thesis using assms by (cases s) (simp_all add: text_msg_def main_call_of_def msg_text_new)
next
  case (Set_Clipboard s)
  then show ?thesis using assms by (cases s) (simp_all add: text_msg_def main_call_of_def msg_text_new)
next
  case (Start_App s)
  then show ?thesis using assms by (cases s) (simp_all add: text_msg_def main_call_of_def msg_text_new)
qed (simp_all add: main_call_of_def ints_of_new)

lemma init_at_rest:
  assumes "script_msg_queue_init True zeroed = Some q" and "length zeroed = 256"
  shows "at_rest q \<and> ring_list q = []"
  using assms
  by (auto simp: script_msg_queue_init_def at_rest_def msg_inv_def ring_ok_def ring_list_def ring_cap_def
      SCRIPT_MSG_QUEUE_CAPACITY_def)

definition commands_msgs :: "script_command list \<Rightarrow> script_msg list" where
  "commands_msgs cs = List.map_filter command_msg cs"

lemma script_commands_queue:
  assumes "at_rest q" and "length (ring_list q) + length cs \<le> 256"
  shows "\<exists>q'. fold script_command cs (Some q) = Some q' \<and> at_rest q' \<and> ring_list q' = ring_list q @ commands_msgs cs"
  using assms
proof (induction cs arbitrary: q)
  case Nil
  then show ?case by (simp add: commands_msgs_def List.map_filter_def)
next
  case (Cons c cs)
  show ?case
  proof (cases "command_msg c")
    case None
    then show ?thesis
      using Cons.IH [OF Cons.prems(1)] Cons.prems(2) by (simp add: script_command_def commands_msgs_def List.map_filter_def)
  next
    case (Some m)
    obtain q1 where q1: "script_msg_queue_send m q = (True, q1)" "at_rest q1" "ring_list q1 = ring_list q @ [m]"
      using send_at_rest [OF Cons.prems(1), of m] Cons.prems(2) by auto
    then show ?thesis
      using Cons.IH [OF q1(2)] Cons.prems(2) Some
      by (simp add: script_command_def send_msg_def commands_msgs_def List.map_filter_def)
  qed
qed

lemma call_all_commands:
  assumes "\<forall>c \<in> set cs. text_ok c"
  shows "call_all (\<lambda>_. True) act (commands_msgs cs) s = fold act (List.map_filter command_call cs) s"
  using assms
proof (induction cs arbitrary: s)
  case Nil
  then show ?case by (simp add: call_all_def commands_msgs_def List.map_filter_def)
next
  case (Cons c cs)
  then have "Option.bind (command_msg c) (main_call_of (\<lambda>_. True)) = command_call c" by (simp add: command_arrives)
  then show ?case
    using Cons by (cases "command_msg c") (auto simp: call_all_def commands_msgs_def List.map_filter_def split: option.split)
qed

text \<open>Up to 256 commands that Scheme code gives reach the callbacks of the window's thread in order
  and with their arguments, texts cut to 255 bytes, when this thread next processes its
  messages; the queue is empty then.\<close>

theorem script_commands_arrive:
  assumes "script_msg_queue_init True zeroed = Some q" and "length zeroed = 256" and "length cs \<le> 256"
    and "\<forall>c \<in> set cs. text_ok c" and "fold script_command cs (Some q) = Some q1"
    and "script_process_messages (\<lambda>_. True) act q1 s = (n, q2, s')"
  shows "s' = fold act (List.map_filter command_call cs) s \<and> n \<le> length cs \<and> ring_list q2 = []"
proof -
  have q: "at_rest q" "ring_list q = []" using init_at_rest [OF assms(1,2)] by simp_all
  then have q1: "at_rest q1" "ring_list q1 = commands_msgs cs"
    using script_commands_queue [OF q(1), of cs] assms(3,5) by auto
  have "length (commands_msgs cs) \<le> length cs" by (simp add: commands_msgs_def List.map_filter_def)
  then show ?thesis
    using process_at_rest [OF q1(1), of "\<lambda>_. True" act s] assms(6) q1(2) call_all_commands [OF assms(4), of act s]
    by auto
qed

definition zero_msg :: script_msg where
  "zero_msg = new_msg MSG_INJECT_KEYCODE 0 []"

theorem script_commands_arrive_witness:
  "\<exists>q q1 q2. script_msg_queue_init True (replicate 256 zero_msg) = Some q \<and>
     fold script_command [Inject_Keycode 3 1, Inject_Text (Some [65, 66]), Start_App None] (Some q) = Some q1 \<and>
     script_process_messages (\<lambda>_. True) (\<lambda>c cs. cs @ [c]) q1 [] =
       (2, q2, [On_Inject_Keycode 3 1, On_Inject_Text [65, 66]])"
proof -
  let ?cs = "[Inject_Keycode 3 1, Inject_Text (Some [65, 66]), Start_App None]"
  obtain q where q: "script_msg_queue_init True (replicate 256 zero_msg) = Some q"
    by (simp add: script_msg_queue_init_def)
  have r: "at_rest q" "ring_list q = []" using init_at_rest [OF q] by simp_all
  obtain q1 where q1: "fold script_command ?cs (Some q) = Some q1" "at_rest q1" "ring_list q1 = commands_msgs ?cs"
    using script_commands_queue [OF r(1), of ?cs] r(2) by auto
  obtain n q2 s' where p: "script_process_messages (\<lambda>_. True) (\<lambda>c cs. cs @ [c]) q1 [] = (n, q2, s')"
    by (cases "script_process_messages (\<lambda>_. True) (\<lambda>c cs. cs @ [c]) q1 ([] :: main_call list)") auto
  have "n = 2"
    using process_at_rest [OF q1(2), of "\<lambda>_. True" "\<lambda>c cs. cs @ [c]" "[]"] p q1(3)
    by (simp add: commands_msgs_def List.map_filter_def text_msg_def)
  moreover have "s' = [On_Inject_Keycode 3 1, On_Inject_Text [65, 66]]"
    using script_commands_arrive [OF q _ _ _ q1(1) p] by (simp add: List.map_filter_def)
  ultimately show ?thesis using q q1(1) p by blast
qed

section \<open>Queries and their answers\<close>

text \<open>The functions that fill a response, in the window's thread.\<close>

definition script_fill_device_info :: "u32 \<Rightarrow> u32 \<Rightarrow> bytes option \<Rightarrow> bool \<Rightarrow> script_msg" where
  "script_fill_device_info w h name connected =
     new_msg MSG_RESPONSE_DEVICE_INFO 76
       (write32le w @ write32le h @
        (case name of None \<Rightarrow> replicate 64 0 | Some s \<Rightarrow> blit (take 63 s @ [0]) (replicate 64 0)) @
        write32le (if connected then 1 else 0))"

definition script_fill_video_size :: "u32 \<Rightarrow> u32 \<Rightarrow> script_msg" where
  "script_fill_video_size w h = new_msg MSG_RESPONSE_VIDEO_SIZE 8 (write32le w @ write32le h)"

definition script_fill_window_size :: "u32 \<Rightarrow> u32 \<Rightarrow> script_msg" where
  "script_fill_window_size w h = new_msg MSG_RESPONSE_WINDOW_SIZE 8 (write32le w @ write32le h)"

definition script_fill_clipboard :: "bytes option \<Rightarrow> script_msg" where
  "script_fill_clipboard s =
     (case text_msg MSG_RESPONSE_CLIPBOARD s of None \<Rightarrow> new_msg MSG_RESPONSE_CLIPBOARD 0 [] | Some m \<Rightarrow> m)"

text \<open>\<open>data\<close> is the block of the frame, \<open>size\<close> how much of it to copy: \<open>None\<close> when that is more than it
  holds.\<close>

definition script_fill_frame_capture :: "bytes option \<Rightarrow> u32 \<Rightarrow> u32 \<Rightarrow> nat \<Rightarrow> script_msg option" where
  "script_fill_frame_capture data w h n =
     (case data of
        Some bs \<Rightarrow>
          if 0 < n \<and> n \<le> SCRIPT_MSG_MAX_DATA_SIZE - 12
          then map_option
            (\<lambda>part. new_msg MSG_RESPONSE_FRAME_CAPTURE (12 + n)
               (write32le w @ write32le h @ write32le (word_of_nat n) @ part))
            (read_at bs 0 n)
          else Some (new_msg MSG_RESPONSE_FRAME_CAPTURE 12 (write32le w @ write32le h @ write32le 0))
      | None \<Rightarrow> Some (new_msg MSG_RESPONSE_FRAME_CAPTURE 12 (write32le w @ write32le h @ write32le 0)))"

text \<open>What the query functions make of a response; \<open>None\<close> is Scheme's false.\<close>

definition device_info_of :: "script_msg \<Rightarrow> (u32 \<times> u32 \<times> bytes \<times> bool) option" where
  "device_info_of m =
     (if msg_type m \<noteq> MSG_RESPONSE_DEVICE_INFO \<or> data_size m < 76 then None
      else Some (int_at m 0, int_at m 4, c_string (take 63 (drop 8 (msg_data m))), int_at m 72 \<noteq> 0))"

definition video_size_of :: "script_msg \<Rightarrow> (u32 \<times> u32) option" where
  "video_size_of m =
     (if msg_type m \<noteq> MSG_RESPONSE_VIDEO_SIZE \<or> data_size m < 8 then None else Some (int_at m 0, int_at m 4))"

definition window_size_of :: "script_msg \<Rightarrow> (u32 \<times> u32) option" where
  "window_size_of m =
     (if msg_type m \<noteq> MSG_RESPONSE_WINDOW_SIZE \<or> data_size m < 8 then None else Some (int_at m 0, int_at m 4))"

definition clipboard_of :: "script_msg \<Rightarrow> bytes option" where
  "clipboard_of m = (if msg_type m \<noteq> MSG_RESPONSE_CLIPBOARD then None else Some (c_string (msg_data m)))"

definition frame_capture_of :: "script_msg \<Rightarrow> bytes option" where
  "frame_capture_of m =
     (if msg_type m \<noteq> MSG_RESPONSE_FRAME_CAPTURE \<or> data_size m < 12 then None
      else let n = unat (int_at m 8)
           in if n = 0 \<or> data_size m < u32n (12 + n) then None else Some (take n (drop 12 (msg_data m))))"

text \<open>
  \<open>query_sync\<close>: the query is sent, the window's thread does \<open>until_deadline\<close>, and whatever is first
  in the response queue then is the answer.
\<close>

type_synonym script_queues = "script_msg msg_queue option \<times> script_msg msg_queue option"

definition query_sync ::
  "(script_queues \<Rightarrow> script_queues) \<Rightarrow> script_msg_type \<Rightarrow> script_queues \<Rightarrow> script_msg option \<times> script_queues" where
  "query_sync until_deadline qtype qs =
     (case qs of
        (Some to_main, Some response_q) \<Rightarrow>
          (case script_msg_queue_send (new_msg qtype 0 []) to_main of
             (False, q) \<Rightarrow> (None, (Some q, Some response_q))
           | (True, q) \<Rightarrow>
               (case until_deadline (Some q, Some response_q) of
                  (tm, None) \<Rightarrow> (None, (tm, None))
                | (tm, Some rq) \<Rightarrow>
                    (case script_msg_queue_try_recv rq of (m, rq1) \<Rightarrow> (m, (tm, Some rq1)))))
      | _ \<Rightarrow> (None, qs))"

definition c_query_device_info ::
  "(script_queues \<Rightarrow> script_queues) \<Rightarrow> script_queues \<Rightarrow> (u32 \<times> u32 \<times> bytes \<times> bool) option \<times> script_queues" where
  "c_query_device_info act qs =
     (case query_sync act MSG_QUERY_DEVICE_INFO qs of (m, qs1) \<Rightarrow> (Option.bind m device_info_of, qs1))"

definition c_query_video_size ::
  "(script_queues \<Rightarrow> script_queues) \<Rightarrow> script_queues \<Rightarrow> (u32 \<times> u32) option \<times> script_queues" where
  "c_query_video_size act qs =
     (case query_sync act MSG_QUERY_VIDEO_SIZE qs of (m, qs1) \<Rightarrow> (Option.bind m video_size_of, qs1))"

definition c_query_window_size ::
  "(script_queues \<Rightarrow> script_queues) \<Rightarrow> script_queues \<Rightarrow> (u32 \<times> u32) option \<times> script_queues" where
  "c_query_window_size act qs =
     (case query_sync act MSG_QUERY_WINDOW_SIZE qs of (m, qs1) \<Rightarrow> (Option.bind m window_size_of, qs1))"

definition c_query_clipboard ::
  "(script_queues \<Rightarrow> script_queues) \<Rightarrow> script_queues \<Rightarrow> bytes option \<times> script_queues" where
  "c_query_clipboard act qs =
     (case query_sync act MSG_QUERY_CLIPBOARD qs of (m, qs1) \<Rightarrow> (Option.bind m clipboard_of, qs1))"

definition c_query_frame_capture ::
  "(script_queues \<Rightarrow> script_queues) \<Rightarrow> script_queues \<Rightarrow> bytes option \<times> script_queues" where
  "c_query_frame_capture act qs =
     (case query_sync act MSG_QUERY_FRAME_CAPTURE qs of (m, qs1) \<Rightarrow> (Option.bind m frame_capture_of, qs1))"

lemma c_string_padded:
  assumes "0 \<notin> set s"
  shows "c_string (s @ 0 # rest) = s" and "c_string (take n s @ 0 # rest) = take n s"
  using assms by (auto simp: c_string_def takeWhile_append dest: in_set_takeD)

lemma device_info_round:
  assumes "0 \<notin> set name"
  shows "device_info_of (script_fill_device_info w h (Some name) connected) = Some (w, h, take 63 name, connected)"
proof -
  obtain c where c: "take 63 name = c" by simp
  have c0: "0 \<notin> set c" and len: "length c \<le> 63" using assms c by (auto dest: in_set_takeD)
  let ?n = "c @ 0 # replicate (63 - length c) 0"
  let ?conn = "write32le (if connected then 1 else 0)"
  have b: "blit (c @ [0]) (replicate 64 0) = ?n" using len by (simp add: blit_def)
  have m: "script_fill_device_info w h (Some name) connected =
      new_msg MSG_RESPONSE_DEVICE_INFO 76 (write32le w @ write32le h @ ?n @ ?conn)"
    unfolding script_fill_device_info_def option.case c b ..
  let ?d = "msg_data (script_fill_device_info w h (Some name) connected)"
  have d: "?d = write32le w @ write32le h @ ?n @ ?conn @ replicate 180 0"
    using len unfolding m by (simp add: new_msg_def blit_def SCRIPT_MSG_MAX_DATA_SIZE_def codec_simps)
  have ln: "length ?n = 64" using len by simp
  have d8: "drop 8 ?d = ?n @ (?conn @ replicate 180 0)" unfolding d by (simp add: codec_simps)
  then have "take 63 (drop 8 ?d) = take 63 ?n @ take (63 - length ?n) (?conn @ replicate 180 0)"
    by (simp only: take_append)
  then have "take 63 (drop 8 ?d) = take 63 ?n" unfolding ln by simp
  then have "take 63 (drop 8 ?d) = c @ take (63 - length c) (0 # replicate (63 - length c) 0)" using len by simp
  then have t: "c_string (take 63 (drop 8 ?d)) = c"
    using c0 c_string_padded(1) [OF c0]
    by (cases "63 - length c") (auto simp: c_string_def takeWhile_eq_all_conv)
  have "drop 72 ?d = drop 64 (drop 8 ?d)" by simp
  also have "\<dots> = drop 64 ?n @ drop (64 - length ?n) (?conn @ replicate 180 0)" unfolding d8 by (rule drop_append)
  also have "\<dots> = ?conn @ replicate 180 0" unfolding ln using len by simp
  finally have d72: "drop 72 ?d = ?conn @ replicate 180 0" .
  have i: "drop 4 ?d = write32le h @ ?n @ ?conn @ replicate 180 0" unfolding d by (simp add: codec_simps)
  have ints: "int_at (script_fill_device_info w h (Some name) connected) 0 = w"
    "int_at (script_fill_device_info w h (Some name) connected) 4 = h"
    "int_at (script_fill_device_info w h (Some name) connected) 72 = (if connected then 1 else 0)"
    unfolding int_at_def i d72 drop_0 unfolding d by (simp_all only: read32le_write_append)
  show ?thesis
    using t ints
    by (simp add: device_info_of_def c) (simp add: script_fill_device_info_def)
qed

lemma frame_capture_round:
  assumes "n \<le> length bs"
  shows "\<exists>m. script_fill_frame_capture (Some bs) w h n = Some m \<and>
     frame_capture_of m = (if 0 < n \<and> n \<le> 244 then Some (take n bs) else None)"
proof (cases "0 < n \<and> n \<le> 244")
  case True
  let ?m = "new_msg MSG_RESPONSE_FRAME_CAPTURE (12 + n) (write32le w @ write32le h @ write32le (word_of_nat n) @ take n bs)"
  have i: "int_at ?m 8 = word_of_nat n" by (rule ints_of_new)
  have u: "unat (word_of_nat n :: u32) = n" using True by (intro unat_of_nat32) simp
  have "take n (drop 12 (msg_data ?m)) = take n bs"
    using assms by (simp add: new_msg_def blit_def codec_simps)
  then have "frame_capture_of ?m = Some (take n bs)"
    using True i u by (simp add: frame_capture_of_def)
  then show ?thesis using True assms by (simp add: script_fill_frame_capture_def SCRIPT_MSG_MAX_DATA_SIZE_def read_at_def)
next
  case False
  let ?m = "new_msg MSG_RESPONSE_FRAME_CAPTURE 12 (write32le w @ write32le h @ write32le 0)"
  have "int_at ?m 8 = 0" by (rule ints_of_new)
  then have "frame_capture_of ?m = None" by (simp add: frame_capture_of_def)
  then show ?thesis using False by (auto simp: script_fill_frame_capture_def SCRIPT_MSG_MAX_DATA_SIZE_def)
qed

text \<open>The answers to the queries are read back as they were filled in: sizes exactly, the device's
  name cut to 63 bytes, the clipboard to 255. A captured frame comes back only when it has at
  most 244 bytes; for every larger one, and so for any picture of more than 162 pixels, the
  query gives false.\<close>

theorem script_answers_read_back:
  assumes "0 \<notin> set name" and "0 \<notin> set s" and "n \<le> length frame"
  shows "device_info_of (script_fill_device_info w h (Some name) connected) = Some (w, h, take 63 name, connected) \<and>
     video_size_of (script_fill_video_size w h) = Some (w, h) \<and>
     window_size_of (script_fill_window_size w h) = Some (w, h) \<and>
     clipboard_of (script_fill_clipboard (Some s)) = Some (take 255 s) \<and>
     (\<exists>m. script_fill_frame_capture (Some frame) w h n = Some m \<and>
        frame_capture_of m = (if 0 < n \<and> n \<le> 244 then Some (take n frame) else None))"
proof -
  have "video_size_of (script_fill_video_size w h) = Some (w, h)"
    "window_size_of (script_fill_window_size w h) = Some (w, h)"
    by (simp_all add: video_size_of_def script_fill_video_size_def window_size_of_def script_fill_window_size_def ints_of_new)
  moreover have "clipboard_of (script_fill_clipboard (Some s)) = Some (take 255 s)"
  proof -
    let ?m = "new_msg MSG_RESPONSE_CLIPBOARD (Suc (length (clip_text s))) (clip_text s @ [0])"
    have "msg_data ?m = take 255 s @ 0 # replicate (255 - length (take 255 s)) 0"
      by (simp add: new_msg_def blit_def clip_text_def SCRIPT_MSG_MAX_DATA_SIZE_def)
    then have "c_string (msg_data ?m) = take 255 s" using c_string_padded(2) [OF assms(2)] by simp
    then show ?thesis by (simp add: script_fill_clipboard_def text_msg_def clipboard_of_def)
  qed
  ultimately show ?thesis using device_info_round [OF assms(1)] frame_capture_round [OF assms(3)] by blast
qed

theorem script_answers_read_back_witness:
  "device_info_of (script_fill_device_info 1080 2400 (Some [65, 66]) True) = Some (1080, 2400, [65, 66], True) \<and>
   (\<exists>m. script_fill_frame_capture (Some (replicate 300 7)) 10 20 300 = Some m \<and> frame_capture_of m = None)"
  using script_answers_read_back [of "[65, 66]" "[]" 300 "replicate 300 7" 1080 2400 True]
    script_answers_read_back [of "[65, 66]" "[]" 300 "replicate 300 7" 10 20 True] by simp

section \<open>Answers in time and late\<close>

text \<open>The window's thread answers every query it finds; \<open>answer\<close> gives the response to a callback.\<close>

definition serve :: "(main_call \<Rightarrow> script_msg) \<Rightarrow> script_queues \<Rightarrow> script_queues" where
  "serve answer qs =
     (case qs of
        (Some tm, Some rq) \<Rightarrow>
          (case script_process_messages (\<lambda>_. True) (\<lambda>c rq. snd (script_msg_queue_send (answer c) rq)) tm rq of
             (n, tm1, rq1) \<Rightarrow> (Some tm1, Some rq1))
      | _ \<Rightarrow> qs)"

definition query_call :: "script_msg_type \<Rightarrow> main_call option" where
  "query_call t = main_call_of (\<lambda>_. True) (new_msg t 0 [])"

definition holding :: "script_queues \<Rightarrow> script_msg list \<Rightarrow> script_msg list \<Rightarrow> bool" where
  "holding qs ms rs \<longleftrightarrow>
     (\<exists>tm rq. qs = (Some tm, Some rq) \<and> at_rest tm \<and> ring_list tm = ms \<and> at_rest rq \<and> ring_list rq = rs)"

lemma answers_queue:
  assumes "at_rest rq" and "length (ring_list rq) + length ms \<le> 256"
  shows "at_rest (call_all (\<lambda>_. True) (\<lambda>c rq. snd (script_msg_queue_send (answer c) rq)) ms rq) \<and>
     ring_list (call_all (\<lambda>_. True) (\<lambda>c rq. snd (script_msg_queue_send (answer c) rq)) ms rq) =
       ring_list rq @ map answer (List.map_filter (main_call_of (\<lambda>_. True)) ms)"
  using assms
proof (induction ms arbitrary: rq)
  case Nil
  then show ?case by (simp add: call_all_def List.map_filter_def)
next
  case (Cons m ms)
  show ?case
  proof (cases "main_call_of (\<lambda>_. True) m")
    case None
    then show ?thesis using Cons by (simp add: call_all_def List.map_filter_def)
  next
    case (Some c)
    obtain q1 where "script_msg_queue_send (answer c) rq = (True, q1)" "at_rest q1" "ring_list q1 = ring_list rq @ [answer c]"
      using send_at_rest [OF Cons.prems(1), of "answer c"] Cons.prems(2) by auto
    then show ?thesis using Cons.IH [of q1] Cons.prems(2) Some by (simp add: call_all_def List.map_filter_def)
  qed
qed

lemma serve_holding:
  assumes "holding qs ms rs" and "length rs + length ms \<le> 256"
  shows "holding (serve answer qs) [] (rs @ map answer (List.map_filter (main_call_of (\<lambda>_. True)) ms))"
proof -
  obtain tm rq where q: "qs = (Some tm, Some rq)" "at_rest tm" "ring_list tm = ms" "at_rest rq" "ring_list rq = rs"
    using assms(1) by (auto simp: holding_def)
  obtain tm1 where p: "script_process_messages (\<lambda>_. True) (\<lambda>c rq. snd (script_msg_queue_send (answer c) rq)) tm rq =
      (length ms, tm1, call_all (\<lambda>_. True) (\<lambda>c rq. snd (script_msg_queue_send (answer c) rq)) ms rq)"
    "at_rest tm1" "ring_list tm1 = []"
    using process_at_rest [OF q(2), of "\<lambda>_. True" "\<lambda>c rq. snd (script_msg_queue_send (answer c) rq)" rq] q(3) by auto
  show ?thesis
    using p answers_queue [OF q(4), of ms answer] assms(2) q by (simp add: serve_def holding_def)
qed

lemma query_sync_holding:
  assumes "holding qs ms rs" and "length ms < 256"
    and "\<And>tm rq. at_rest tm \<Longrightarrow> ring_list tm = ms @ [new_msg t 0 []] \<Longrightarrow> at_rest rq \<Longrightarrow> ring_list rq = rs \<Longrightarrow>
           holding (act (Some tm, Some rq)) msx rsx"
  shows "case rsx of
      [] \<Rightarrow> fst (query_sync act t qs) = None \<and> holding (snd (query_sync act t qs)) msx []
    | r # rest \<Rightarrow> fst (query_sync act t qs) = Some r \<and> holding (snd (query_sync act t qs)) msx rest"
proof -
  obtain tm rq where q: "qs = (Some tm, Some rq)" "at_rest tm" "ring_list tm = ms" "at_rest rq" "ring_list rq = rs"
    using assms(1) by (auto simp: holding_def)
  obtain q1 where s: "script_msg_queue_send (new_msg t 0 []) tm = (True, q1)" "at_rest q1"
    "ring_list q1 = ms @ [new_msg t 0 []]"
    using send_at_rest [OF q(2), of "new_msg t 0 []"] q(3) assms(2) by auto
  obtain tm1 rq1 where a: "act (Some q1, Some rq) = (Some tm1, Some rq1)" "at_rest tm1" "ring_list tm1 = msx"
    "at_rest rq1" "ring_list rq1 = rsx"
    using assms(3) [OF s(2,3) q(4,5)] by (auto simp: holding_def)
  show ?thesis
  proof (cases rsx)
    case Nil
    then show ?thesis
      using try_recv_empty [OF a(4)] a s(1) by (simp add: query_sync_def q(1) holding_def)
  next
    case (Cons r rest)
    obtain rq2 where "script_msg_queue_try_recv rq1 = (Some r, rq2)" "at_rest rq2" "ring_list rq2 = rest"
      using try_recv_at_rest [OF a(4), of r rest] a(5) Cons by auto
    then show ?thesis using Cons a s(1) by (simp add: query_sync_def q(1) holding_def)
  qed
qed

text \<open>A query that the window's thread answers before the deadline returns that answer and leaves
  both queues empty. But an answer that comes after the deadline stays in the response queue:
  the next query returns it instead of its own answer, which stays in turn, so that from one
  timeout on every query gets the answer to the query before it.\<close>

theorem late_answer_shifts_queries:
  assumes "holding qs [] []" and "query_call t1 = Some c1" and "query_call t2 = Some c2" and "query_call t3 = Some c3"
  shows "fst (query_sync (serve answer) t1 qs) = Some (answer c1) \<and>
     holding (snd (query_sync (serve answer) t1 qs)) [] [] \<and>
     (\<exists>qs1 qs2 qs3. query_sync (\<lambda>qs. qs) t1 qs = (None, qs1) \<and>
        query_sync (serve answer) t2 qs1 = (Some (answer c1), qs2) \<and>
        query_sync (serve answer) t3 qs2 = (Some (answer c2), qs3) \<and> holding qs3 [] [answer c3])"
proof -
  have mf: "List.map_filter (main_call_of (\<lambda>_. True)) [new_msg t 0 []] = [c]" if "query_call t = Some c" for t c
    using that by (simp add: query_call_def List.map_filter_def)
  have mf2: "List.map_filter (main_call_of (\<lambda>_. True)) [new_msg t1 0 [], new_msg t2 0 []] = [c1, c2]"
    using assms(2,3) by (simp add: query_call_def List.map_filter_def)
  have hold: "holding (Some tm, Some rq) (ring_list tm) (ring_list rq)" if "at_rest tm" "at_rest rq" for tm rq
    using that by (auto simp: holding_def)
  have served: "holding (serve answer (Some tm, Some rq)) [] (rs @ map answer (List.map_filter (main_call_of (\<lambda>_. True)) ms))"
    if "at_rest tm" "ring_list tm = ms" "at_rest rq" "ring_list rq = rs" "length rs + length ms \<le> 256" for tm rq ms rs
    using serve_holding [OF hold [OF that(1,3)]] that by simp
  have good: "fst (query_sync (serve answer) t1 qs) = Some (answer c1) \<and>
      holding (snd (query_sync (serve answer) t1 qs)) [] []"
    using query_sync_holding [OF assms(1), where act = "serve answer" and t = t1 and msx = "[]" and rsx = "[answer c1]"]
      served [where ms = "[new_msg t1 0 []]" and rs = "[]"] mf [OF assms(2)] by simp
  obtain r1 qs1 where q1: "query_sync (\<lambda>qs. qs) t1 qs = (r1, qs1)" by (cases "query_sync (\<lambda>qs. qs) t1 qs")
  have s1: "r1 = None" "holding qs1 [new_msg t1 0 []] []"
    using query_sync_holding [OF assms(1), where act = "\<lambda>qs. qs" and t = t1 and msx = "[new_msg t1 0 []]" and rsx = "[]"]
      hold q1 by (auto simp: holding_def)
  obtain r2 qs2 where q2: "query_sync (serve answer) t2 qs1 = (r2, qs2)" by (cases "query_sync (serve answer) t2 qs1")
  have s2: "r2 = Some (answer c1)" "holding qs2 [] [answer c2]"
    using query_sync_holding [OF s1(2), where act = "serve answer" and t = t2 and msx = "[]" and rsx = "[answer c1, answer c2]"]
      served [where ms = "[new_msg t1 0 [], new_msg t2 0 []]" and rs = "[]"] mf2 q2 by simp_all
  obtain r3 qs3 where q3: "query_sync (serve answer) t3 qs2 = (r3, qs3)" by (cases "query_sync (serve answer) t3 qs2")
  have s3: "r3 = Some (answer c2)" "holding qs3 [] [answer c3]"
    using query_sync_holding [OF s2(2), where act = "serve answer" and t = t3 and msx = "[]" and rsx = "[answer c2, answer c3]"]
      served [where ms = "[new_msg t3 0 []]" and rs = "[answer c2]"] mf [OF assms(4)] q3 by simp_all
  show ?thesis using good q1 s1(1) q2 s2(1) q3 s3 by blast
qed

theorem late_answer_shifts_queries_witness:
  "\<exists>qs qs1 qs2. query_sync (\<lambda>qs. qs) MSG_QUERY_VIDEO_SIZE qs = (None, qs1) \<and>
     c_query_video_size (serve (\<lambda>c. if c = On_Query_Video_Size then script_fill_video_size 1 2
        else script_fill_clipboard None)) qs1 = (Some (1, 2), qs2)"
proof -
  let ?a = "\<lambda>c. if c = On_Query_Video_Size then script_fill_video_size 1 2 else script_fill_clipboard None"
  let ?t = MSG_QUERY_VIDEO_SIZE
  obtain q where q: "script_msg_queue_init True (replicate 256 zero_msg) = Some q"
    by (simp add: script_msg_queue_init_def)
  have h: "holding (Some q, Some q) [] []" using init_at_rest [OF q] by (simp add: holding_def)
  have t: "query_call ?t = Some On_Query_Video_Size" by (simp add: query_call_def main_call_of_def)
  obtain qs1 qs2 qs3 where r: "query_sync (\<lambda>qs. qs) ?t (Some q, Some q) = (None, qs1)"
    "query_sync (serve ?a) ?t qs1 = (Some (?a On_Query_Video_Size), qs2)"
    "query_sync (serve ?a) ?t qs2 = (Some (?a On_Query_Video_Size), qs3)" "holding qs3 [] [?a On_Query_Video_Size]"
    using late_answer_shifts_queries [OF h t t t, of ?a] by blast
  have v: "video_size_of (script_fill_video_size 1 2) = Some (1, 2)"
    by (simp add: video_size_of_def script_fill_video_size_def ints_of_new)
  have "c_query_video_size (serve ?a) qs1 = (Some (1, 2), qs2)"
    unfolding c_query_video_size_def r(2) by (simp add: v)
  moreover have "query_sync (\<lambda>qs. qs) ?t (Some q, Some q) = (None, qs1)" by (rule r(1))
  ultimately show ?thesis by blast
qed

end
