(* ===== verification/Script_Engine.thy ===== *)
theory Script_Engine
  imports Script_Messages C_Text
begin

text \<open>
  The script engine, \<open>src/script/engine.c\<close>: the three queues, the thread that owns the Scheme system,
  and the events and expressions the other threads send it (with the senders of
  \<open>src/script/event_dispatch.c\<close>). Chez Scheme is outside: what it is asked to do is the list of
  calls, and which handlers its library defines is a parameter.
\<close>

section \<open>Calls into Scheme\<close>

datatype scheme_call =
    Load_File string
  | Eval_String bytes
  | Key_Event u32 bool
  | Mouse_Event u32 u32 u32 u32
  | Frame_Event u32 u32
  | Connect_Event
  | Disconnect_Event

definition scheme_eval_string :: "bytes \<Rightarrow> scheme_call list" where
  "scheme_eval_string code = (if code = [] then [] else [Eval_String code])"

text \<open>The code of an eval request: the data of the message with a terminator after its size.\<close>

definition eval_code :: "script_msg \<Rightarrow> bytes" where
  "eval_code m = c_string (take (data_size m) (msg_data m))"

definition scheme_dispatch_msg :: "(script_msg_type \<Rightarrow> bool) \<Rightarrow> script_msg \<Rightarrow> scheme_call list" where
  "scheme_dispatch_msg defined m =
     (if msg_type m = MSG_INJECT_TEXT then scheme_eval_string (eval_code m)
      else if \<not> defined (msg_type m) then []
      else case msg_type m of
        MSG_EVENT_KEY \<Rightarrow> if data_size m \<ge> 8 then [Key_Event (int_at m 0) (int_at m 4 \<noteq> 0)] else []
      | MSG_EVENT_MOUSE \<Rightarrow>
          if data_size m \<ge> 16 then [Mouse_Event (int_at m 0) (int_at m 4) (int_at m 8) (int_at m 12)] else []
      | MSG_EVENT_FRAME \<Rightarrow> if data_size m \<ge> 8 then [Frame_Event (int_at m 0) (int_at m 4)] else []
      | MSG_EVENT_CONNECTED \<Rightarrow> [Connect_Event]
      | MSG_EVENT_DISCONNECTED \<Rightarrow> [Disconnect_Event]
      | _ \<Rightarrow> [])"

section \<open>The boot file\<close>

definition MAX_PATH :: nat where "MAX_PATH = 260"

definition exe_directory :: "string \<Rightarrow> string" where
  "exe_directory path =
     (case strrchr (CHR 0x5C) path of
        Some i \<Rightarrow> take i path
      | None \<Rightarrow> (case strrchr (CHR ''/'') path of Some i \<Rightarrow> take i path | None \<Rightarrow> path))"

definition boot_candidates :: "string list" where
  "boot_candidates =
     [[CHR 0x5C] @ ''scheme'',
      [CHR 0x5C] @ ''boot'' @ [CHR 0x5C] @ ''pb'' @ [CHR 0x5C] @ ''scheme'',
      [CHR 0x5C] @ ''..'' @ [CHR 0x5C] @ ''boot'' @ [CHR 0x5C] @ ''pb'' @ [CHR 0x5C] @ ''scheme'',
      [CHR 0x5C] @ ''..'' @ [CHR 0x5C] @ ''..'' @ [CHR 0x5C] @ ''subprojects'' @ [CHR 0x5C] @ ''chez-scheme'' @
        [CHR 0x5C] @ ''boot'' @ [CHR 0x5C] @ ''pb'' @ [CHR 0x5C] @ ''scheme'']"

fun first_boot :: "(string \<Rightarrow> bool) \<Rightarrow> string \<Rightarrow> string list \<Rightarrow> string option" where
  "first_boot exists dir [] = None"
| "first_boot exists dir (c # cs) =
     (let test_path = cut MAX_PATH (dir @ c)
      in if exists (cut MAX_PATH (test_path @ ''.boot'')) then Some test_path else first_boot exists dir cs)"

text \<open>\<open>exe\<close> is the path of the executable, \<open>None\<close> when it cannot be had or does not fit.\<close>

definition find_boot_path :: "(string \<Rightarrow> bool) \<Rightarrow> string option \<Rightarrow> string option" where
  "find_boot_path exists exe =
     (case exe of None \<Rightarrow> None | Some path \<Rightarrow> first_boot exists (exe_directory path) boot_candidates)"

section \<open>The engine\<close>

text \<open>
  \<open>engine_thread\<close> is the thread's handle, \<open>in_loop\<close> whether the thread is in its message loop,
  \<open>scheme_calls\<close> what it has asked Scheme to do.
\<close>

record script_engine =
  to_main :: "script_msg msg_queue"
  to_scheme :: "script_msg msg_queue"
  response_q :: "script_msg msg_queue"
  engine_thread :: bool
  engine_running :: bool
  initialized :: bool
  engine_script :: "string option"
  engine_eval :: "bytes option"
  in_loop :: bool
  scheme_calls :: "scheme_call list"

text \<open>\<open>sems\<close> says which of the three semaphores can be made; queues made before a failure are destroyed.\<close>

definition script_engine_init ::
  "bool \<times> bool \<times> bool \<Rightarrow> script_msg list \<Rightarrow> string option \<Rightarrow> bytes option \<Rightarrow> script_engine option" where
  "script_engine_init sems zeroed path code =
     (case script_msg_queue_init (fst sems) zeroed of
        None \<Rightarrow> None
      | Some q1 \<Rightarrow>
          (case script_msg_queue_init (fst (snd sems)) zeroed of
             None \<Rightarrow> None
           | Some q2 \<Rightarrow>
               (case script_msg_queue_init (snd (snd sems)) zeroed of
                  None \<Rightarrow> None
                | Some q3 \<Rightarrow>
                    Some \<lparr>to_main = q1, to_scheme = q2, response_q = q3, engine_thread = False, engine_running = False,
                          initialized = True, engine_script = path, engine_eval = code, in_loop = False,
                          scheme_calls = []\<rparr>)))"

text \<open>The start of the thread up to its loop.\<close>

definition script_thread_begin :: "(string \<Rightarrow> bool) \<Rightarrow> string option \<Rightarrow> script_engine \<Rightarrow> script_engine" where
  "script_thread_begin exists exe e =
     (case find_boot_path exists exe of
        None \<Rightarrow> e
      | Some _ \<Rightarrow>
          e\<lparr>in_loop := True,
            scheme_calls := scheme_calls e @ [Load_File ''lib/init.ss''] @
              (case engine_script e of None \<Rightarrow> [] | Some p \<Rightarrow> [Load_File p]) @
              (case engine_eval e of None \<Rightarrow> [] | Some code \<Rightarrow> scheme_eval_string code)\<rparr>)"

definition script_engine_start :: "bool \<Rightarrow> script_engine \<Rightarrow> bool \<times> script_engine" where
  "script_engine_start thread_ok e =
     (if \<not> initialized e then (False, e)
      else if engine_running e then (False, e)
      else if \<not> thread_ok then (False, e\<lparr>engine_thread := False, engine_running := False\<rparr>)
      else (True, e\<lparr>engine_thread := True, engine_running := True\<rparr>))"

text \<open>One round of the loop: a message, or a timeout.\<close>

definition script_thread_turn :: "(script_msg_type \<Rightarrow> bool) \<Rightarrow> script_engine \<Rightarrow> script_engine" where
  "script_thread_turn defined e =
     (if \<not> in_loop e then e
      else if \<not> engine_running e then e\<lparr>in_loop := False\<rparr>
      else case script_msg_queue_try_recv (to_scheme e) of
        (None, q) \<Rightarrow> e\<lparr>to_scheme := q\<rparr>
      | (Some m, q) \<Rightarrow>
          if msg_type m = MSG_SHUTDOWN then e\<lparr>to_scheme := q, in_loop := False\<rparr>
          else e\<lparr>to_scheme := q, scheme_calls := scheme_calls e @ scheme_dispatch_msg defined m\<rparr>)"

definition script_engine_send :: "script_msg \<Rightarrow> script_engine \<Rightarrow> bool \<times> script_engine" where
  "script_engine_send m e = (case script_msg_queue_send m (to_scheme e) of (ok, q) \<Rightarrow> (ok, e\<lparr>to_scheme := q\<rparr>))"

definition script_engine_recv :: "script_engine \<Rightarrow> script_msg option \<times> script_engine" where
  "script_engine_recv e = (case script_msg_queue_try_recv (to_main e) of (m, q) \<Rightarrow> (m, e\<lparr>to_main := q\<rparr>))"

text \<open>The wait ends with the thread, of its own accord or terminated.\<close>

definition script_engine_stop :: "script_engine \<Rightarrow> script_engine" where
  "script_engine_stop e =
     (if \<not> engine_running e then e
      else (snd (script_engine_send (new_msg MSG_SHUTDOWN 0 []) (e\<lparr>engine_running := False\<rparr>)))
             \<lparr>engine_thread := False, in_loop := False\<rparr>)"

text \<open>A destroyed engine is all zero.\<close>

definition zeroed_queue :: "script_msg msg_queue" where
  "zeroed_queue = \<lparr>items = replicate SCRIPT_MSG_QUEUE_CAPACITY zero_msg, head = 0, tail = 0, count = 0, semaphore = 0,
     unreleased = 0, acquired = 0, draining = False\<rparr>"

definition script_engine_destroy :: "script_engine \<Rightarrow> script_engine" where
  "script_engine_destroy e =
     (if \<not> initialized e then e
      else (script_engine_stop e)
             \<lparr>to_main := zeroed_queue, to_scheme := zeroed_queue, response_q := zeroed_queue, engine_thread := False,
              engine_running := False, initialized := False, engine_script := None, engine_eval := None\<rparr>)"

definition script_engine_eval :: "bytes option \<Rightarrow> script_engine \<Rightarrow> bool \<times> script_engine" where
  "script_engine_eval code e =
     (case code of
        None \<Rightarrow> (False, e)
      | Some s \<Rightarrow>
          if \<not> engine_running e then (False, e)
          else if length s \<ge> SCRIPT_MSG_MAX_DATA_SIZE then (False, e)
          else script_engine_send (new_msg MSG_INJECT_TEXT (length s) s) e)"

definition script_engine_is_running :: "script_engine \<Rightarrow> bool" where
  "script_engine_is_running e = engine_running e"

section \<open>Events from the other threads\<close>

definition script_dispatch_key_event :: "u32 \<Rightarrow> bool \<Rightarrow> script_engine \<Rightarrow> script_engine" where
  "script_dispatch_key_event vk down e =
     snd (script_engine_send (new_msg MSG_EVENT_KEY 8 (write32le vk @ write32le (if down then 1 else 0))) e)"

definition script_dispatch_mouse_event :: "u32 \<Rightarrow> u32 \<Rightarrow> u32 \<Rightarrow> u32 \<Rightarrow> script_engine \<Rightarrow> script_engine" where
  "script_dispatch_mouse_event x y buttons action e =
     snd (script_engine_send
       (new_msg MSG_EVENT_MOUSE 16 (write32le x @ write32le y @ write32le buttons @ write32le action)) e)"

definition script_dispatch_frame_event :: "u32 \<Rightarrow> u32 \<Rightarrow> script_engine \<Rightarrow> script_engine" where
  "script_dispatch_frame_event w h e =
     snd (script_engine_send (new_msg MSG_EVENT_FRAME 8 (write32le w @ write32le h)) e)"

definition script_dispatch_connect :: "script_engine \<Rightarrow> script_engine" where
  "script_dispatch_connect e = snd (script_engine_send (new_msg MSG_EVENT_CONNECTED 0 []) e)"

definition script_dispatch_disconnect :: "script_engine \<Rightarrow> script_engine" where
  "script_dispatch_disconnect e = snd (script_engine_send (new_msg MSG_EVENT_DISCONNECTED 0 []) e)"

section \<open>What reaches Scheme\<close>

datatype script_event =
    Key u32 bool
  | Mouse u32 u32 u32 u32
  | Frame u32 u32
  | Connected
  | Disconnected
  | Evaluate bytes

fun send_script_event :: "script_event \<Rightarrow> script_engine \<Rightarrow> script_engine" where
  "send_script_event (Key vk down) e = script_dispatch_key_event vk down e"
| "send_script_event (Mouse x y buttons action) e = script_dispatch_mouse_event x y buttons action e"
| "send_script_event (Frame w h) e = script_dispatch_frame_event w h e"
| "send_script_event Connected e = script_dispatch_connect e"
| "send_script_event Disconnected e = script_dispatch_disconnect e"
| "send_script_event (Evaluate code) e = snd (script_engine_eval (Some code) e)"

text \<open>An expression of 256 bytes or more is refused.\<close>

fun event_calls :: "script_event \<Rightarrow> scheme_call list" where
  "event_calls (Key vk down) = [Key_Event vk down]"
| "event_calls (Mouse x y buttons action) = [Mouse_Event x y buttons action]"
| "event_calls (Frame w h) = [Frame_Event w h]"
| "event_calls Connected = [Connect_Event]"
| "event_calls Disconnected = [Disconnect_Event]"
| "event_calls (Evaluate code) = (if code = [] \<or> length code \<ge> 256 then [] else [Eval_String code])"

fun event_ok :: "script_event \<Rightarrow> bool" where
  "event_ok (Evaluate code) = (0 \<notin> set code)"
| "event_ok _ = True"

fun event_msg :: "script_event \<Rightarrow> script_msg option" where
  "event_msg (Key vk down) = Some (new_msg MSG_EVENT_KEY 8 (write32le vk @ write32le (if down then 1 else 0)))"
| "event_msg (Mouse x y buttons action) =
     Some (new_msg MSG_EVENT_MOUSE 16 (write32le x @ write32le y @ write32le buttons @ write32le action))"
| "event_msg (Frame w h) = Some (new_msg MSG_EVENT_FRAME 8 (write32le w @ write32le h))"
| "event_msg Connected = Some (new_msg MSG_EVENT_CONNECTED 0 [])"
| "event_msg Disconnected = Some (new_msg MSG_EVENT_DISCONNECTED 0 [])"
| "event_msg (Evaluate code) = (if length code \<ge> 256 then None else Some (new_msg MSG_INJECT_TEXT (length code) code))"

text \<open>Each message is understood as the event it was made of.\<close>

lemma event_understood:
  assumes "event_ok ev" and "event_msg ev = Some m"
  shows "scheme_dispatch_msg (\<lambda>_. True) m = event_calls ev \<and> msg_type m \<noteq> MSG_SHUTDOWN"
proof (cases ev)
  case (Evaluate code)
  then have len: "length code < 256" and m: "m = new_msg MSG_INJECT_TEXT (length code) code"
    using assms(2) by (auto split: if_splits)
  have "take (length code) (msg_data m) = code"
    using len by (simp add: m new_msg_def blit_def SCRIPT_MSG_MAX_DATA_SIZE_def)
  moreover have "c_string code = code" using assms(1) Evaluate by (auto simp: c_string_def takeWhile_eq_all_conv)
  ultimately have "eval_code m = code" by (simp add: eval_code_def m)
  then show ?thesis using len by (simp add: Evaluate m scheme_dispatch_msg_def scheme_eval_string_def)
qed (use assms in \<open>auto simp: scheme_dispatch_msg_def ints_of_new\<close>)

lemma refused_event: "event_msg ev = None \<Longrightarrow> event_calls ev = []"
  by (cases ev) (auto split: if_splits)

lemma send_script_event_msg:
  assumes "engine_running e"
  shows "send_script_event ev e = (case event_msg ev of None \<Rightarrow> e | Some m \<Rightarrow> snd (script_engine_send m e))"
  using assms
  by (cases ev) (simp_all add: script_dispatch_key_event_def script_dispatch_mouse_event_def script_dispatch_frame_event_def
      script_dispatch_connect_def script_dispatch_disconnect_def script_engine_eval_def SCRIPT_MSG_MAX_DATA_SIZE_def)

definition working :: "script_engine \<Rightarrow> script_msg list \<Rightarrow> bool" where
  "working e ms \<longleftrightarrow> in_loop e \<and> engine_running e \<and> at_rest (to_scheme e) \<and> ring_list (to_scheme e) = ms"

lemma send_events_working:
  assumes "working e ms" and "length ms + length evs \<le> 256"
  shows "working (fold send_script_event evs e) (ms @ List.map_filter event_msg evs) \<and>
     scheme_calls (fold send_script_event evs e) = scheme_calls e"
  using assms
proof (induction evs arbitrary: e ms)
  case Nil
  then show ?case by (simp add: List.map_filter_def)
next
  case (Cons ev evs)
  have run: "engine_running e" using Cons.prems(1) by (simp add: working_def)
  show ?case
  proof (cases "event_msg ev")
    case None
    then show ?thesis
      using Cons.IH [OF Cons.prems(1)] Cons.prems(2) by (simp add: send_script_event_msg [OF run] List.map_filter_def)
  next
    case (Some m)
    obtain q where q: "script_msg_queue_send m (to_scheme e) = (True, q)" "at_rest q" "ring_list q = ms @ [m]"
      using send_at_rest [of "to_scheme e" m] Cons.prems by (auto simp: working_def)
    have s: "send_script_event ev e = e\<lparr>to_scheme := q\<rparr>"
      using Some q(1) by (simp add: send_script_event_msg [OF run] script_engine_send_def)
    have "working (e\<lparr>to_scheme := q\<rparr>) (ms @ [m])" using Cons.prems(1) q by (simp add: working_def)
    then show ?thesis using Cons.IH [of "e\<lparr>to_scheme := q\<rparr>" "ms @ [m]"] Cons.prems(2) Some
      by (simp add: s List.map_filter_def)
  qed
qed

lemma turns_working:
  assumes "working e ms" and "\<forall>m \<in> set ms. msg_type m \<noteq> MSG_SHUTDOWN" and "length ms \<le> n"
  shows "scheme_calls ((script_thread_turn defined ^^ n) e) = scheme_calls e @ concat (map (scheme_dispatch_msg defined) ms) \<and>
     working ((script_thread_turn defined ^^ n) e) []"
  using assms
proof (induction n arbitrary: e ms)
  case 0
  then show ?case by simp
next
  case (Suc n)
  have run: "in_loop e" "engine_running e" "at_rest (to_scheme e)" "ring_list (to_scheme e) = ms"
    using Suc.prems(1) by (simp_all add: working_def)
  show ?case
  proof (cases ms)
    case Nil
    then have "script_thread_turn defined e = e" using run try_recv_empty [OF run(3)] by (simp add: script_thread_turn_def)
    then show ?thesis using Suc.IH [OF Suc.prems(1)] Suc.prems(2) Nil by (simp add: funpow_swap1)
  next
    case (Cons m rest)
    obtain q where q: "script_msg_queue_try_recv (to_scheme e) = (Some m, q)" "at_rest q" "ring_list q = rest"
      using try_recv_at_rest [OF run(3), of m rest] run(4) Cons by auto
    let ?e = "e\<lparr>to_scheme := q, scheme_calls := scheme_calls e @ scheme_dispatch_msg defined m\<rparr>"
    have t: "script_thread_turn defined e = ?e" using run q(1) Suc.prems(2) Cons by (simp add: script_thread_turn_def)
    have "working ?e rest" using run q by (simp add: working_def)
    then show ?thesis using Suc.IH [of ?e rest] Suc.prems(2,3) Cons t by (simp add: funpow_swap1)
  qed
qed



text \<open>Without a boot file the thread ends at once, and the engine counts as running.\<close>

lemma missing_boot_file:
  assumes "initialized e" and "\<not> engine_running e" and "\<not> in_loop e" and "find_boot_path exists exe = None"
    and "script_engine_start True e = (ok, e1)"
  shows "script_engine_is_running (script_thread_begin exists exe e1) \<and>
     script_thread_turn defined (script_thread_begin exists exe e1) = script_thread_begin exists exe e1"
  using assms by (auto simp: script_engine_start_def script_thread_begin_def script_engine_is_running_def script_thread_turn_def)

end
