(* ===== verification/Controller.thy ===== *)
theory Controller
  imports Input
begin

text \<open>
  The controller of \<open>src/control/controller.c\<close>: window events become control messages on the
  control socket.
\<close>

section \<open>State and sending\<close>

text \<open>\<open>sock_open\<close> and \<open>sock_out\<close> are the control socket behind \<open>ctrl->sock\<close>.\<close>

record controller =
  device_width :: u32
  device_height :: u32
  window_width :: u32
  window_height :: u32
  enabled :: bool
  sock_open :: bool
  sock_out :: outbound

definition controller_init :: "bool \<Rightarrow> outbound \<Rightarrow> controller" where
  "controller_init opened out =
     \<lparr>device_width = 0, device_height = 0, window_width = 0, window_height = 0, enabled = False,
      sock_open = opened, sock_out = out\<rparr>"

definition controller_set_device_size :: "u32 \<Rightarrow> u32 \<Rightarrow> controller \<Rightarrow> controller" where
  "controller_set_device_size w h c = c\<lparr>device_width := w, device_height := h\<rparr>"

definition controller_set_window_size :: "u32 \<Rightarrow> u32 \<Rightarrow> controller \<Rightarrow> controller" where
  "controller_set_window_size w h c = c\<lparr>window_width := w, window_height := h\<rparr>"

definition controller_set_enabled :: "bool \<Rightarrow> controller \<Rightarrow> controller" where
  "controller_set_enabled b c = c\<lparr>enabled := b\<rparr>"

text \<open>
  \<open>control_msg_serialize\<close> into a 64-byte buffer on the stack, then
  \<open>control_socket_send_msg\<close>, whose result no caller looks at. Only written bytes of the
  buffer are sent, so its initial contents play no part.
\<close>

definition send_control :: "control_msg_type \<Rightarrow> u32 list \<Rightarrow> controller \<Rightarrow> controller" where
  "send_control ty args c =
     (case control_msg_serialize ty args (replicate 64 0) of (len, buf) \<Rightarrow>
        if len > 0 then c\<lparr>sock_out := snd (control_socket_send_msg (sock_open c) (take len buf) (sock_out c))\<rparr>
        else c)"

definition send_keycode :: "modifiers \<Rightarrow> u32 \<Rightarrow> bool \<Rightarrow> controller \<Rightarrow> controller" where
  "send_keycode m kc down c =
     send_control INJECT_KEYCODE [if down then 0 else 1, kc, 0, get_android_metastate m] c"

definition send_display_power :: "bool \<Rightarrow> controller \<Rightarrow> controller" where
  "send_display_power on c = send_control SET_DISPLAY_POWER [if on then 1 else 0] c"

section \<open>Key events\<close>

definition press_release :: "modifiers \<Rightarrow> u32 \<Rightarrow> controller \<Rightarrow> controller" where
  "press_release m kc c = send_keycode m kc False (send_keycode m kc True c)"

definition regular_key :: "modifiers \<Rightarrow> u32 \<Rightarrow> bool \<Rightarrow> controller \<Rightarrow> controller" where
  "regular_key m vk down c =
     (if alt m then c
      else
        let kc = vk_to_android_keycode vk
        in if kc = 0 then c else send_keycode m kc down c)"

definition controller_on_key_event :: "modifiers \<Rightarrow> u32 \<Rightarrow> bool \<Rightarrow> controller \<Rightarrow> controller" where
  "controller_on_key_event m vk down c =
     (if \<not> enabled c then c
      else if alt m \<and> down then
        (if vk = chr CHR ''P'' then press_release m 26 c
         else if vk = chr CHR ''O'' then send_display_power (\<not> shift m) c
         else if vk = VK_UP then press_release m 24 c
         else if vk = VK_DOWN then press_release m 25 c
         else if vk = chr CHR ''M'' then press_release m 82 c
         else if vk = chr CHR ''A'' then press_release m 187 c
         else if vk = VK_BACK then
           send_control BACK_OR_SCREEN_ON [1] (send_control BACK_OR_SCREEN_ON [0] c)
         else regular_key m vk down c)
      else regular_key m vk down c)"

section \<open>Mouse events\<close>

definition WHEEL_DELTA :: int where "WHEEL_DELTA = 120"

definition to_device :: "'f float_ops \<Rightarrow> int \<Rightarrow> int \<Rightarrow> controller \<Rightarrow> int \<times> int" where
  "to_device F x y c =
     input_transform_coords F x y (sint (window_width c)) (sint (window_height c))
       (unat (device_width c)) (unat (device_height c))"

definition controller_on_mouse_event ::
  "'f float_ops \<Rightarrow> int \<Rightarrow> int \<Rightarrow> u32 \<Rightarrow> u32 \<Rightarrow> controller \<Rightarrow> controller" where
  "controller_on_mouse_event F x y buttons action c =
     (if \<not> enabled c \<or> device_width c = 0 \<or> device_height c = 0 then c
      else if action = 2 \<and> buttons = 0 then c
      else
        let (dx, dy) = to_device F x y c;
            android_action = (if action = 1 then 0 else if action = 0 then 1 else 2);
            action_button = (if buttons AND 1 \<noteq> 0 then 1 else if buttons AND 2 \<noteq> 0 then 2 else 1);
            pressure = (if action = 0 then 0 else 0xFFFF);
            buttons_state = (if action = 0 then 0 else action_button)
        in send_control INJECT_TOUCH_EVENT
             [android_action, 0xFFFFFFFF, 0xFFFFFFFF, word_of_int dx, word_of_int dy,
              device_width c, device_height c, pressure, action_button, buttons_state] c)"

definition controller_on_wheel_event :: "'f float_ops \<Rightarrow> int \<Rightarrow> int \<Rightarrow> int \<Rightarrow> controller \<Rightarrow> controller" where
  "controller_on_wheel_event F x y delta c =
     (if \<not> enabled c \<or> device_width c = 0 \<or> device_height c = 0 then c
      else
        let (dx, dy) = to_device F x y c
        in send_control INJECT_SCROLL_EVENT
             [word_of_int dx, word_of_int dy, device_width c, device_height c, 0,
              word_of_int (delta sdiv WHEEL_DELTA), 0] c)"

section \<open>What the device reads\<close>

text \<open>All messages of a byte sequence, for a reader of the control format.\<close>

function parse_all :: "bytes \<Rightarrow> control_meaning list option" where
  "parse_all bs =
     (if bs = [] then Some []
      else case control_msg_parse bs of
        None \<Rightarrow> None
      | Some (m, rest) \<Rightarrow> map_option (\<lambda>ms. m # ms) (parse_all rest))"
  by pat_completeness auto
termination
  by (relation "measure length")
    (auto simp: control_msg_parse_def split: list.splits if_splits)

declare parse_all.simps [simp del]

lemma parse_all_Nil [simp]: "parse_all [] = Some []"
  by (simp add: parse_all.simps)

text \<open>\<open>sends_meanings c c' ms\<close>: on the way from \<open>c\<close> to \<open>c'\<close> exactly the messages \<open>ms\<close> were sent.\<close>

definition sends_meanings :: "controller \<Rightarrow> controller \<Rightarrow> control_meaning list \<Rightarrow> bool" where
  "sends_meanings c c' ms \<longleftrightarrow>
     (\<exists>bs. c' = c\<lparr>sock_out := (sock_out c)\<lparr>wire := wire (sock_out c) @ bs\<rparr>\<rparr> \<and>
        (\<forall>rest. parse_all (bs @ rest) = map_option (\<lambda>more. ms @ more) (parse_all rest)))"

definition idle_socket :: "controller \<Rightarrow> bool" where
  "idle_socket c \<longleftrightarrow> sock_open c \<and> sends (sock_out c) = []"

lemma sends_nothing: "sends_meanings c c []"
proof -
  have "c = c\<lparr>sock_out := (sock_out c)\<lparr>wire := wire (sock_out c) @ []\<rparr>\<rparr>" by simp
  moreover have "parse_all ([] @ rest) = map_option (\<lambda>more. [] @ more) (parse_all rest)" for rest
    by (cases "parse_all rest") simp_all
  ultimately show ?thesis unfolding sends_meanings_def by blast
qed

lemma sends_trans:
  assumes "sends_meanings c c1 ms" and "sends_meanings c1 c2 ns"
  shows "sends_meanings c c2 (ms @ ns)"
proof -
  from assms obtain bs ds where w:
    "c1 = c\<lparr>sock_out := (sock_out c)\<lparr>wire := wire (sock_out c) @ bs\<rparr>\<rparr>"
    "c2 = c1\<lparr>sock_out := (sock_out c1)\<lparr>wire := wire (sock_out c1) @ ds\<rparr>\<rparr>"
    and p: "\<And>rest. parse_all (bs @ rest) = map_option (\<lambda>more. ms @ more) (parse_all rest)"
      "\<And>rest. parse_all (ds @ rest) = map_option (\<lambda>more. ns @ more) (parse_all rest)"
    unfolding sends_meanings_def by blast
  have "\<forall>rest. parse_all ((bs @ ds) @ rest) = map_option (\<lambda>more. (ms @ ns) @ more) (parse_all rest)"
  proof
    fix rest
    show "parse_all ((bs @ ds) @ rest) = map_option (\<lambda>more. (ms @ ns) @ more) (parse_all rest)"
      using p(1) [of "ds @ rest"] p(2) [of rest] by (cases "parse_all rest") simp_all
  qed
  moreover have "c2 = c\<lparr>sock_out := (sock_out c)\<lparr>wire := wire (sock_out c) @ (bs @ ds)\<rparr>\<rparr>"
    using w by simp
  ultimately show ?thesis unfolding sends_meanings_def by blast
qed

lemma sends_idle: "sends_meanings c c' ms \<Longrightarrow> idle_socket c \<Longrightarrow> idle_socket c'"
  by (auto simp: sends_meanings_def idle_socket_def)

lemma parse_all_step:
  "control_msg_parse (msg @ rest) = Some (m, rest) \<Longrightarrow> msg \<noteq> [] \<Longrightarrow>
     parse_all (msg @ rest) = map_option (\<lambda>more. [m] @ more) (parse_all rest)"
  by (subst parse_all.simps) (cases "parse_all rest"; simp)

lemma send_control_sends:
  assumes "idle_socket c" and "fst (control_msg_serialize ty args (replicate 64 0)) > 0"
  shows "sends_meanings c (send_control ty args c) [control_meaning_of ty args]"
proof -
  obtain n buf where s: "control_msg_serialize ty args (replicate 64 0) = (n, buf)"
    by (cases "control_msg_serialize ty args (replicate 64 0)")
  with assms(2) have "0 < n" by simp
  from s this obtain msg where msg: "buf = blit msg (replicate 64 0)" "n = length msg"
    "\<And>rest. control_msg_parse (msg @ rest) = Some (control_meaning_of ty args, rest)"
    by (rule control_msg_serialize_cases) blast
  have "send_control ty args c = c\<lparr>sock_out := (sock_out c)\<lparr>wire := wire (sock_out c) @ msg\<rparr>\<rparr>"
    using assms(1) \<open>0 < n\<close> msg(1,2)
    by (simp add: send_control_def s control_socket_send_msg_def idle_socket_def io_simps)
  moreover have "parse_all (msg @ rest) = map_option (\<lambda>more. [control_meaning_of ty args] @ more) (parse_all rest)" for rest
    using msg(3) [of rest] \<open>0 < n\<close> msg(2) by (intro parse_all_step) auto
  ultimately show ?thesis unfolding sends_meanings_def by blast
qed

lemma serialized_positive [simp]:
  "0 < fst (control_msg_serialize INJECT_KEYCODE args (replicate 64 0))"
  "0 < fst (control_msg_serialize INJECT_TOUCH_EVENT args (replicate 64 0))"
  "0 < fst (control_msg_serialize INJECT_SCROLL_EVENT args (replicate 64 0))"
  "0 < fst (control_msg_serialize SET_DISPLAY_POWER args (replicate 64 0))"
  "0 < fst (control_msg_serialize BACK_OR_SCREEN_ON args (replicate 64 0))"
  by (simp_all add: control_msg_serialize_def Let_def)

section \<open>Key events, as the device sees them\<close>

definition key_meaning :: "modifiers \<Rightarrow> u32 \<Rightarrow> bool \<Rightarrow> control_meaning" where
  "key_meaning m kc down = Key_Event (if down then 0 else 1) kc 0 (get_android_metastate m)"

definition shortcut_code :: "u32 \<rightharpoonup> u32" where
  "shortcut_code = [chr CHR ''P'' \<mapsto> 26, VK_UP \<mapsto> 24, VK_DOWN \<mapsto> 25, chr CHR ''M'' \<mapsto> 82, chr CHR ''A'' \<mapsto> 187]"

text \<open>
  The contract of a key event: with Alt, on a press only, a shortcut is a press and a
  release of its key code, or the display switch, or the two back requests; without Alt, a
  known key is one event.
\<close>

definition key_event_spec :: "modifiers \<Rightarrow> u32 \<Rightarrow> bool \<Rightarrow> control_meaning list" where
  "key_event_spec m vk down =
     (if alt m then
        if \<not> down then []
        else case shortcut_code vk of
               Some kc \<Rightarrow> [key_meaning m kc True, key_meaning m kc False]
             | None \<Rightarrow> if vk = chr CHR ''O'' then [Display_Power (\<not> shift m)]
                       else if vk = VK_BACK then [Plain_Request 4, Plain_Request 4] else []
      else if vk_to_android_keycode vk = 0 then [] else [key_meaning m (vk_to_android_keycode vk) down])"

lemma send_keycode_sends:
  assumes "idle_socket c"
  shows "sends_meanings c (send_keycode m kc down c) [key_meaning m kc down]"
proof -
  have h: "sends_meanings c (send_control INJECT_KEYCODE args c) [control_meaning_of INJECT_KEYCODE args]" for args
    by (rule send_control_sends [OF assms serialized_positive(1)])
  show ?thesis
    using h [of "[0, kc, 0, get_android_metastate m]"] h [of "[1, kc, 0, get_android_metastate m]"]
    by (cases down) (simp_all add: send_keycode_def key_meaning_def)
qed

lemma press_release_sends:
  assumes "idle_socket c"
  shows "sends_meanings c (press_release m kc c) [key_meaning m kc True, key_meaning m kc False]"
proof -
  note first = send_keycode_sends [OF assms, of m kc True]
  from sends_trans [OF first send_keycode_sends [OF sends_idle [OF first assms]]]
  show ?thesis by (simp add: press_release_def)
qed

lemma back_sends:
  assumes "idle_socket c"
  shows "sends_meanings c (send_control BACK_OR_SCREEN_ON [1] (send_control BACK_OR_SCREEN_ON [0] c))
     [Plain_Request 4, Plain_Request 4]"
proof -
  have one: "sends_meanings c (send_control BACK_OR_SCREEN_ON a c) [Plain_Request 4]" if "idle_socket c" for a c
    using send_control_sends [OF that, of BACK_OR_SCREEN_ON a] by simp
  from sends_trans [OF one [OF assms] one [OF sends_idle [OF one [OF assms] assms]]] show ?thesis by simp
qed

lemma regular_key_sends:
  "idle_socket c \<Longrightarrow> sends_meanings c (regular_key m vk down c)
     (if alt m \<or> vk_to_android_keycode vk = 0 then [] else [key_meaning m (vk_to_android_keycode vk) down])"
  by (simp add: regular_key_def Let_def sends_nothing send_keycode_sends)

lemma key_event_sends:
  assumes "enabled c" and "idle_socket c"
  shows "sends_meanings c (controller_on_key_event m vk down c) (key_event_spec m vk down)"
proof (cases "alt m \<and> down")
  case False
  then show ?thesis
    using assms regular_key_sends [OF assms(2), of m vk down]
    by (cases down; cases "alt m"; cases "vk_to_android_keycode vk = 0")
      (simp_all add: controller_on_key_event_def key_event_spec_def)
next
  case True
  have power: "sends_meanings c (send_display_power on c) [Display_Power on]" for on
    using send_control_sends [OF assms(2), of SET_DISPLAY_POWER "[if on then 1 else 0]"]
    by (cases on) (simp_all add: send_display_power_def)
  show ?thesis
    using True assms press_release_sends [OF assms(2)] back_sends [OF assms(2)] power
      regular_key_sends [OF assms(2), of m vk down]
    by (simp add: controller_on_key_event_def key_event_spec_def shortcut_code_def vk_map_values)
qed

text \<open>On an enabled controller with an idle control socket a key event sends exactly the messages
  of its contract, as the device reads them: shortcuts with Alt on the press, each with its
  release, other known keys one to one, nothing for anything else; no other state changes.\<close>

theorem controller_key_event_meaning:
  assumes "enabled c" and "idle_socket c"
  shows "\<exists>bs. controller_on_key_event m vk down c = c\<lparr>sock_out := (sock_out c)\<lparr>wire := wire (sock_out c) @ bs\<rparr>\<rparr> \<and>
     parse_all bs = Some (key_event_spec m vk down)"
proof -
  from key_event_sends [OF assms, of m vk down, unfolded sends_meanings_def] obtain bs where
    bs: "controller_on_key_event m vk down c = c\<lparr>sock_out := (sock_out c)\<lparr>wire := wire (sock_out c) @ bs\<rparr>\<rparr>"
      "\<forall>rest. parse_all (bs @ rest) = map_option (\<lambda>more. key_event_spec m vk down @ more) (parse_all rest)"
    by blast
  then show ?thesis using bs(2) [rule_format, of "[]"] by auto
qed

definition example_controller :: controller where
  "example_controller =
     controller_set_enabled True (controller_set_window_size 540 1200
       (controller_set_device_size 1080 2400 (controller_init True \<lparr>sends = [], wire = []\<rparr>)))"

definition no_modifiers :: modifiers where
  "no_modifiers = \<lparr>shift = False, ctrl = False, alt = False, lwin = False\<rparr>"

lemma example_controller_fields:
  "enabled example_controller" "idle_socket example_controller" "window_width example_controller = 540"
  "window_height example_controller = 1200" "device_width example_controller = 1080"
  "device_height example_controller = 2400"
  by (simp_all add: example_controller_def controller_set_enabled_def controller_set_window_size_def
      controller_set_device_size_def controller_init_def idle_socket_def)

theorem controller_key_event_meaning_witness:
  "\<exists>bs. controller_on_key_event (no_modifiers\<lparr>alt := True\<rparr>) (chr CHR ''P'') True example_controller =
       example_controller\<lparr>sock_out := (sock_out example_controller)\<lparr>wire := wire (sock_out example_controller) @ bs\<rparr>\<rparr> \<and>
     parse_all bs = Some [Key_Event 0 26 0 2, Key_Event 1 26 0 2]"
  using controller_key_event_meaning [OF example_controller_fields(1,2), of "no_modifiers\<lparr>alt := True\<rparr>" "chr CHR ''P''" True]
  by (simp add: key_event_spec_def shortcut_code_def key_meaning_def no_modifiers_def get_android_metastate_def
      vk_map_values)

text \<open>A key that is pressed without Alt and released while Alt is down stays pressed on the
  device: only the press is sent.\<close>

theorem key_release_lost_under_alt:
  assumes "enabled c" and "idle_socket c" and "\<not> alt m" and "alt m'" and "vk_to_android_keycode vk \<noteq> 0"
  shows "\<exists>bs. controller_on_key_event m' vk False (controller_on_key_event m vk True c) =
       c\<lparr>sock_out := (sock_out c)\<lparr>wire := wire (sock_out c) @ bs\<rparr>\<rparr> \<and>
     parse_all bs = Some [key_meaning m (vk_to_android_keycode vk) True]"
proof -
  note press = key_event_sends [OF assms(1,2), of m vk True]
  let ?c = "controller_on_key_event m vk True c"
  have "enabled ?c" "idle_socket ?c"
    using press assms(1) sends_idle [OF press assms(2)] by (auto simp: sends_meanings_def)
  from sends_trans [OF press key_event_sends [OF this, of m' vk False]] obtain bs where
    "controller_on_key_event m' vk False ?c = c\<lparr>sock_out := (sock_out c)\<lparr>wire := wire (sock_out c) @ bs\<rparr>\<rparr>"
    and p: "\<forall>rest. parse_all (bs @ rest) = map_option (\<lambda>more. (key_event_spec m vk True @
        key_event_spec m' vk False) @ more) (parse_all rest)"
    unfolding sends_meanings_def by blast
  then show ?thesis
    using p [rule_format, of "[]"] assms(3-5) by (auto simp: key_event_spec_def)
qed

theorem key_release_lost_under_alt_witness:
  "\<exists>bs. controller_on_key_event (no_modifiers\<lparr>alt := True\<rparr>) 0x41 False
         (controller_on_key_event no_modifiers 0x41 True example_controller) =
       example_controller\<lparr>sock_out := (sock_out example_controller)\<lparr>wire := wire (sock_out example_controller) @ bs\<rparr>\<rparr> \<and>
     parse_all bs = Some [key_meaning no_modifiers (vk_to_android_keycode 0x41) True]"
  by (rule key_release_lost_under_alt [OF example_controller_fields(1,2)])
    (simp_all add: no_modifiers_def vk_to_android_keycode_def vk_map_values)

section \<open>Touches\<close>

text \<open>The contract of a mouse event: one touch of the mouse pointer.\<close>

definition mouse_meaning :: "'f float_ops \<Rightarrow> controller \<Rightarrow> int \<Rightarrow> int \<Rightarrow> u32 \<Rightarrow> u32 \<Rightarrow> control_meaning" where
  "mouse_meaning F c x y buttons action =
     (let (dx, dy) = to_device F x y c;
          button = (if buttons AND 1 \<noteq> 0 then 1 else if buttons AND 2 \<noteq> 0 then 2 else 1)
      in Touch_Event (if action = 1 then 0 else if action = 0 then 1 else 2) (- 1) (word_of_int dx) (word_of_int dy)
           (ucast (device_width c)) (ucast (device_height c)) (if action = 0 then 0 else 0xFFFF) button
           (if action = 0 then 0 else button))"

lemma mouse_event_sends:
  assumes "enabled c" and "idle_socket c" and "device_width c \<noteq> 0" and "device_height c \<noteq> 0"
    and "\<not> (action = 2 \<and> buttons = 0)"
  shows "sends_meanings c (controller_on_mouse_event F x y buttons action c) [mouse_meaning F c x y buttons action]"
proof -
  obtain dx dy where t: "to_device F x y c = (dx, dy)" by (cases "to_device F x y c")
  let ?button = "(if buttons AND 1 \<noteq> 0 then 1 else if buttons AND 2 \<noteq> 0 then 2 else 1) :: u32"
  let ?args = "[if action = 1 then 0 else if action = 0 then 1 else 2, 0xFFFFFFFF, 0xFFFFFFFF,
      word_of_int dx, word_of_int dy, device_width c, device_height c,
      if action = 0 then 0 else 0xFFFF, ?button, if action = 0 then 0 else ?button] :: u32 list"
  have c': "controller_on_mouse_event F x y buttons action c = send_control INJECT_TOUCH_EVENT ?args c"
    using assms(1,3,4,5) t by (simp only: controller_on_mouse_event_def Let_def prod.case if_False simp_thms)
  have ptr: "push_bit 32 (ucast (0xFFFFFFFF :: u32)) OR ucast (0xFFFFFFFF :: u32) = (- 1 :: u64)" by simp
  have meaning: "control_meaning_of INJECT_TOUCH_EVENT
      [act, 0xFFFFFFFF, 0xFFFFFFFF, px, py, w, h, pr, btn, st] =
      Touch_Event (ucast act) (- 1) px py (ucast w) (ucast h) (ucast pr) btn st" for act px py w h pr btn st
    by (simp add: ptr)
  have casts: "ucast (if action = 1 then 0 else if action = 0 then 1 else 2 :: u32) =
        (if action = 1 then 0 else if action = 0 then 1 else 2 :: byte)"
      "ucast (if action = 0 then 0 else 0xFFFF :: u32) = (if action = 0 then 0 else 0xFFFF :: u16)"
    by simp_all
  have "sends_meanings c (controller_on_mouse_event F x y buttons action c)
      [control_meaning_of INJECT_TOUCH_EVENT ?args]"
    unfolding c' by (rule send_control_sends [OF assms(2)]) simp
  then show ?thesis unfolding meaning casts by (simp only: mouse_meaning_def t Let_def prod.case)
qed

lemma wheel_event_sends:
  assumes "enabled c" and "idle_socket c" and "device_width c \<noteq> 0" and "device_height c \<noteq> 0"
    and "to_device F x y c = (dx, dy)"
  shows "sends_meanings c (controller_on_wheel_event F x y delta c)
     [control_meaning_of INJECT_SCROLL_EVENT [word_of_int dx, word_of_int dy, device_width c, device_height c, 0,
        word_of_int (delta sdiv WHEEL_DELTA), 0]]"
  using assms send_control_sends [OF assms(2) serialized_positive(3)] by (simp only: controller_on_wheel_event_def Let_def prod.case if_False simp_thms)

text \<open>A mouse event that is not a move without buttons becomes one touch message of the mouse
  pointer, with the device size, full pressure while a button is down and none on the release,
  and a position from 0 to the device size.\<close>

theorem controller_mouse_event_touch:
  assumes "enabled c" and "idle_socket c" and "device_width c \<noteq> 0" and "device_height c \<noteq> 0"
    and "\<not> (action = 2 \<and> buttons = 0)" and "float_ok F"
    and "render_rect F (sint (window_width c)) (sint (window_height c)) (unat (device_width c))
           (unat (device_height c)) = (rx, ry, rw, rh)"
    and "0 < rw" and "0 < rh" and "unat (device_width c) \<le> 2 ^ 24" and "unat (device_height c) \<le> 2 ^ 24"
  shows "\<exists>bs tx ty button. controller_on_mouse_event F x y buttons action c =
       c\<lparr>sock_out := (sock_out c)\<lparr>wire := wire (sock_out c) @ bs\<rparr>\<rparr> \<and>
     parse_all bs = Some [Touch_Event (if action = 1 then 0 else if action = 0 then 1 else 2) (- 1) tx ty
        (ucast (device_width c)) (ucast (device_height c)) (if action = 0 then 0 else 0xFFFF) button
        (if action = 0 then 0 else button)] \<and>
     tx \<le> device_width c \<and> ty \<le> device_height c"
proof -
  obtain dx dy where t: "to_device F x y c = (dx, dy)" by (cases "to_device F x y c")
  have b: "0 \<le> dx \<and> dx \<le> int (unat (device_width c)) \<and> 0 \<le> dy \<and> dy \<le> int (unat (device_height c))"
    using transform_bounds [OF assms(6-11) t [unfolded to_device_def]] .
  have "dx < 2 ^ 32" "dy < 2 ^ 32"
    using b uint_lt32 [of "device_width c"] uint_lt32 [of "device_height c"] by simp_all
  then have small: "uint (word_of_int dx :: u32) = dx" "uint (word_of_int dy :: u32) = dy"
    using b by (simp_all add: uint_word_of_int)
  have le: "word_of_int dx \<le> device_width c" "word_of_int dy \<le> device_height c"
    using b small by (simp_all add: word_le_def)
  from mouse_event_sends [OF assms(1-5), of F x y, unfolded sends_meanings_def] obtain bs where
    bs: "controller_on_mouse_event F x y buttons action c = c\<lparr>sock_out := (sock_out c)\<lparr>wire := wire (sock_out c) @ bs\<rparr>\<rparr>"
      "\<forall>rest. parse_all (bs @ rest) = map_option (\<lambda>more. [mouse_meaning F c x y buttons action] @ more) (parse_all rest)"
    by blast
  have "parse_all bs = Some [mouse_meaning F c x y buttons action]"
    using bs(2) [rule_format, of "[]"] by simp
  from this [unfolded mouse_meaning_def t Let_def prod.case] bs(1) le show ?thesis by blast
qed

theorem controller_mouse_event_touch_witness:
  "\<exists>bs tx ty button. controller_on_mouse_event rat_ops 270 600 1 1 example_controller =
       example_controller\<lparr>sock_out := (sock_out example_controller)\<lparr>wire := wire (sock_out example_controller) @ bs\<rparr>\<rparr> \<and>
     parse_all bs = Some [Touch_Event (if (1 :: u32) = 1 then 0 else if (1 :: u32) = 0 then 1 else 2) (- 1) tx ty
        (ucast (device_width example_controller)) (ucast (device_height example_controller))
        (if (1 :: u32) = 0 then 0 else 0xFFFF) button (if (1 :: u32) = 0 then 0 else button)] \<and>
     tx \<le> device_width example_controller \<and> ty \<le> device_height example_controller"
proof (rule controller_mouse_event_touch [OF example_controller_fields(1,2)])
  show "render_rect rat_ops (sint (window_width example_controller)) (sint (window_height example_controller))
      (unat (device_width example_controller)) (unat (device_height example_controller)) = (0, 0, 540, 1200)"
    by (simp add: example_controller_fields render_rect_def rat_ops_def)
qed (simp_all add: example_controller_fields rat_ops_ok)

end
