(* ===== verification/Options.thy ===== *)
theory Options
  imports C_Text
begin

text \<open>
  Options, configuration file and command line: \<open>src/app/options.c\<close>, \<open>src/app/config.c\<close> and
  \<open>src/app/cli.c\<close>. Log messages have no effect on the result and are left out.
\<close>

section \<open>Options\<close>

record scrcpy_options =
  opt_serial :: "string option"
  opt_server_path :: "string option"
  record_filename :: "string option"
  window_title :: "string option"
  port :: u16
  opt_max_size :: u32
  opt_video_bit_rate :: u32
  opt_audio_bit_rate :: u32
  video_codec :: "string option"
  audio_codec :: "string option"
  opt_control :: bool
  opt_video :: bool
  opt_audio :: bool
  fullscreen :: bool
  always_on_top :: bool
  turn_screen_off :: bool
  stay_awake :: bool
  show_touches :: bool
  opt_record :: bool
  audio_source :: "string option"
  opt_window_width :: u32
  opt_window_height :: u32
  log_level :: int
  script_path :: "string option"
  script_eval :: "string option"
  repl :: bool

definition scrcpy_options_default :: scrcpy_options where
  "scrcpy_options_default =
     \<lparr>opt_serial = None, opt_server_path = Some ''scrcpy-server.jar'', record_filename = None,
      window_title = Some ''AutoScrcpy'', port = 5555, opt_max_size = 0, opt_video_bit_rate = 8000000,
      opt_audio_bit_rate = 128000, video_codec = Some ''h264'', audio_codec = Some ''opus'',
      opt_control = True, opt_video = True, opt_audio = True, fullscreen = False, always_on_top = False,
      turn_screen_off = False, stay_awake = False, show_touches = False, opt_record = False,
      audio_source = Some ''output'', opt_window_width = 0, opt_window_height = 0, log_level = 2,
      script_path = None, script_eval = None, repl = False\<rparr>"

section \<open>Reading a line\<close>

definition newline :: char where "newline = CHR 0x0A"

text \<open>\<open>fgets\<close> into a buffer of \<open>n + 1\<close> bytes: up to \<open>n\<close> characters, through the first newline.\<close>

fun fgets :: "nat \<Rightarrow> string \<Rightarrow> string" where
  "fgets 0 s = []"
| "fgets (Suc n) [] = []"
| "fgets (Suc n) (c # s) = (if c = newline then [c] else c # fgets n s)"

definition MAX_LINE :: nat where "MAX_LINE = 512"
definition MAX_SECTION :: nat where "MAX_SECTION = 64"

function file_lines :: "string \<Rightarrow> string list" where
  "file_lines s =
     (if s = [] then []
      else let l = fgets (MAX_LINE - 1) s in l # file_lines (drop (length l) s))"
  by pat_completeness auto
termination
proof (relation "measure length")
  fix s l assume s: "s \<noteq> []" and l: "l = fgets (MAX_LINE - 1) s"
  obtain c t where "s = c # t" using s by (cases s) auto
  then have "0 < length l" using l by (simp add: MAX_LINE_def numeral_eq_Suc)
  then show "(drop (length l) s, s) \<in> measure length" using s by simp
qed simp

declare file_lines.simps [simp del]

text \<open>The first character is never cut off at the end.\<close>

definition trim :: "string \<Rightarrow> string" where
  "trim s =
     (case dropWhile isspace s of
        [] \<Rightarrow> []
      | c # u \<Rightarrow> c # rev (dropWhile isspace (rev u)))"

definition parse_bool :: "string \<Rightarrow> bool" where
  "parse_bool v \<longleftrightarrow> v = ''true'' \<or> v = ''1'' \<or> v = ''yes''"

definition parse_log_level :: "string \<Rightarrow> int" where
  "parse_log_level s =
     (if s = ''debug'' then 1 else if s = ''info'' then 2 else if s = ''warn'' then 3
      else if s = ''error'' then 4 else 2)"

section \<open>Applying a setting\<close>

definition apply_setting :: "string \<Rightarrow> string \<Rightarrow> string \<Rightarrow> scrcpy_options \<Rightarrow> scrcpy_options" where
  "apply_setting section key v o1 =
     (if section = ''connection'' then
        (if key = ''serial'' then o1\<lparr>opt_serial := Some v\<rparr>
         else if key = ''port'' then o1\<lparr>port := word_of_int (atoi v)\<rparr>
         else if key = ''server_path'' then o1\<lparr>opt_server_path := Some v\<rparr> else o1)
      else if section = ''video'' then
        (if key = ''enabled'' then o1\<lparr>opt_video := parse_bool v\<rparr>
         else if key = ''codec'' then o1\<lparr>video_codec := Some v\<rparr>
         else if key = ''max_size'' then o1\<lparr>opt_max_size := word_of_int (atoi v)\<rparr>
         else if key = ''bit_rate'' then o1\<lparr>opt_video_bit_rate := word_of_int (atoi v)\<rparr> else o1)
      else if section = ''audio'' then
        (if key = ''enabled'' then o1\<lparr>opt_audio := parse_bool v\<rparr>
         else if key = ''codec'' then o1\<lparr>audio_codec := Some v\<rparr>
         else if key = ''bit_rate'' then o1\<lparr>opt_audio_bit_rate := word_of_int (atoi v)\<rparr>
         else if key = ''source'' then o1\<lparr>audio_source := Some v\<rparr> else o1)
      else if section = ''control'' then
        (if key = ''enabled'' then o1\<lparr>opt_control := parse_bool v\<rparr> else o1)
      else if section = ''window'' then
        (if key = ''title'' then o1\<lparr>window_title := Some v\<rparr>
         else if key = ''fullscreen'' then o1\<lparr>fullscreen := parse_bool v\<rparr>
         else if key = ''always_on_top'' then o1\<lparr>always_on_top := parse_bool v\<rparr>
         else if key = ''width'' then o1\<lparr>opt_window_width := word_of_int (atoi v)\<rparr>
         else if key = ''height'' then o1\<lparr>opt_window_height := word_of_int (atoi v)\<rparr> else o1)
      else if section = ''device'' then
        (if key = ''turn_screen_off'' then o1\<lparr>turn_screen_off := parse_bool v\<rparr>
         else if key = ''stay_awake'' then o1\<lparr>stay_awake := parse_bool v\<rparr>
         else if key = ''show_touches'' then o1\<lparr>show_touches := parse_bool v\<rparr> else o1)
      else if section = ''record'' then
        (if key = ''enabled'' then o1\<lparr>opt_record := parse_bool v\<rparr>
         else if key = ''filename'' then o1\<lparr>record_filename := Some v\<rparr> else o1)
      else if section = ''script'' then
        (if key = ''script_dir'' then o1
         else if key = ''autoload'' then o1\<lparr>script_path := Some v\<rparr>
         else if key = ''repl'' then o1\<lparr>repl := parse_bool v\<rparr> else o1)
      else if section = ''log'' then
        (if key = ''level'' then o1\<lparr>log_level := parse_log_level v\<rparr> else o1)
      else o1)"

definition known_sections :: "string list" where
  "known_sections =
     [''connection'', ''video'', ''audio'', ''control'', ''window'', ''device'', ''record'', ''script'', ''log'']"

section \<open>config\_parse\<close>

text \<open>One round of the loop, on the current section and the options.\<close>

definition config_line :: "string \<times> scrcpy_options \<Rightarrow> string \<Rightarrow> string \<times> scrcpy_options" where
  "config_line st line =
     (case st of (section, o1) \<Rightarrow>
        case trim line of
          [] \<Rightarrow> (section, o1)
        | c # u \<Rightarrow>
            if c = CHR ''#'' then (section, o1)
            else if c = CHR ''['' then
              (case strchr (CHR '']'') (c # u) of
                 None \<Rightarrow> (section, o1)
               | Some e \<Rightarrow> (cut MAX_SECTION (take (e - 1) u), o1))
            else case strchr (CHR ''='') (c # u) of
              None \<Rightarrow> (section, o1)
            | Some e \<Rightarrow>
                let key = trim (take e (c # u)); v = trim (drop (Suc e) (c # u))
                in if section = [] then (section, o1)
                   else if section \<notin> set known_sections then (section, o1)
                   else (section, apply_setting section key v o1))"

definition config_parse :: "string option \<Rightarrow> scrcpy_options \<Rightarrow> scrcpy_options option" where
  "config_parse contents o1 =
     (case contents of
        None \<Rightarrow> None
      | Some text1 \<Rightarrow> Some (snd (foldl config_line ([], o1) (file_lines text1))))"

section \<open>cli\_parse\<close>

definition config_flag :: "string \<Rightarrow> bool" where
  "config_flag a \<longleftrightarrow> a = ''-c'' \<or> a = ''--config''"

text \<open>The first pass: the last path after a config flag, \<open>None\<close> when the path is missing.\<close>

fun find_config :: "string option \<Rightarrow> string list \<Rightarrow> string option option" where
  "find_config path [] = Some path"
| "find_config path (a # rest) =
     (if config_flag a then (case rest of [] \<Rightarrow> None | v # rest' \<Rightarrow> find_config (Some v) rest')
      else find_config path rest)"

text \<open>Options that take a value, and those that do not.\<close>

definition value_option :: "string \<Rightarrow> (string \<Rightarrow> scrcpy_options \<Rightarrow> scrcpy_options) option" where
  "value_option a =
     (if a = ''-s'' \<or> a = ''--serial'' then Some (\<lambda>v o1. o1\<lparr>opt_serial := Some v\<rparr>)
      else if a = ''-p'' \<or> a = ''--port'' then Some (\<lambda>v o1. o1\<lparr>port := word_of_int (atoi v)\<rparr>)
      else if a = ''-m'' \<or> a = ''--max-size'' then Some (\<lambda>v o1. o1\<lparr>opt_max_size := word_of_int (atoi v)\<rparr>)
      else if a = ''-b'' \<or> a = ''--video-bit-rate'' then
        Some (\<lambda>v o1. o1\<lparr>opt_video_bit_rate := word_of_int (atoi v)\<rparr>)
      else if a = ''--video-codec'' then Some (\<lambda>v o1. o1\<lparr>video_codec := Some v\<rparr>)
      else if a = ''--audio-codec'' then Some (\<lambda>v o1. o1\<lparr>audio_codec := Some v\<rparr>)
      else if a = ''--server-path'' then Some (\<lambda>v o1. o1\<lparr>opt_server_path := Some v\<rparr>)
      else if a = ''-r'' \<or> a = ''--record'' then
        Some (\<lambda>v o1. o1\<lparr>opt_record := True, record_filename := Some v\<rparr>)
      else if a = ''--script'' then Some (\<lambda>v o1. o1\<lparr>script_path := Some v\<rparr>)
      else if a = ''-e'' \<or> a = ''--eval'' then Some (\<lambda>v o1. o1\<lparr>script_eval := Some v\<rparr>)
      else None)"

definition flag_option :: "string \<Rightarrow> (scrcpy_options \<Rightarrow> scrcpy_options) option" where
  "flag_option a =
     (if a = ''--no-control'' then Some (\<lambda>o1. o1\<lparr>opt_control := False\<rparr>)
      else if a = ''--no-video'' then Some (\<lambda>o1. o1\<lparr>opt_video := False\<rparr>)
      else if a = ''--no-audio'' then Some (\<lambda>o1. o1\<lparr>opt_audio := False\<rparr>)
      else if a = ''-f'' \<or> a = ''--fullscreen'' then Some (\<lambda>o1. o1\<lparr>fullscreen := True\<rparr>)
      else if a = ''--always-on-top'' then Some (\<lambda>o1. o1\<lparr>always_on_top := True\<rparr>)
      else if a = ''--turn-screen-off'' then Some (\<lambda>o1. o1\<lparr>turn_screen_off := True\<rparr>)
      else if a = ''--stay-awake'' then Some (\<lambda>o1. o1\<lparr>stay_awake := True\<rparr>)
      else if a = ''--show-touches'' then Some (\<lambda>o1. o1\<lparr>show_touches := True\<rparr>)
      else if a = ''--repl'' then Some (\<lambda>o1. o1\<lparr>repl := True\<rparr>)
      else None)"

text \<open>The second pass. The help option and unknown options end the program.\<close>

fun cli_args :: "string list \<Rightarrow> scrcpy_options \<Rightarrow> scrcpy_options option" where
  "cli_args [] o1 = Some o1"
| "cli_args (a # rest) o1 =
     (if config_flag a then (case rest of [] \<Rightarrow> Some o1 | _ # rest' \<Rightarrow> cli_args rest' o1)
      else case value_option a of
        Some f \<Rightarrow> (case rest of [] \<Rightarrow> None | v # rest' \<Rightarrow> cli_args rest' (f v o1))
      | None \<Rightarrow> (case flag_option a of Some f \<Rightarrow> cli_args rest (f o1) | None \<Rightarrow> None))"

text \<open>\<open>files\<close> gives the contents of the files that can be opened; \<open>args\<close> are \<open>argv[1]\<close> and on.\<close>

definition cli_parse :: "(string \<Rightarrow> string option) \<Rightarrow> string list \<Rightarrow> scrcpy_options option" where
  "cli_parse files args =
     (case find_config None args of
        None \<Rightarrow> None
      | Some path \<Rightarrow>
          (case (case path of None \<Rightarrow> Some scrcpy_options_default
                 | Some p \<Rightarrow> config_parse (files p) scrcpy_options_default) of
             None \<Rightarrow> None
           | Some o1 \<Rightarrow> cli_args args o1))"

section \<open>What a configuration file means\<close>

text \<open>
  The format: a line is blank or a comment, names a section, or sets a key, with white space
  anywhere around the parts.
\<close>

datatype ini_item = Section string | Setting string string | Nothing

definition blank :: "string \<Rightarrow> bool" where
  "blank s \<longleftrightarrow> (\<forall>c \<in> set s. isspace c)"

definition tidy :: "string \<Rightarrow> bool" where
  "tidy s \<longleftrightarrow> s = [] \<or> \<not> isspace (hd s) \<and> \<not> isspace (last s)"

inductive line_means :: "string \<Rightarrow> ini_item \<Rightarrow> bool" where
  void: "blank l \<Longrightarrow> line_means l Nothing"
| comment: "blank p \<Longrightarrow> line_means (p @ CHR ''#'' # s) Nothing"
| heading: "blank p \<Longrightarrow> CHR '']'' \<notin> set s \<Longrightarrow> length s < 64 \<Longrightarrow>
    line_means (p @ CHR ''['' # s @ CHR '']'' # q) (Section s)"
| setting: "blank p1 \<Longrightarrow> tidy k \<Longrightarrow> k \<noteq> [] \<Longrightarrow> hd k \<noteq> CHR ''#'' \<Longrightarrow> hd k \<noteq> CHR ''['' \<Longrightarrow> CHR ''='' \<notin> set k \<Longrightarrow>
    blank p2 \<Longrightarrow> blank p3 \<Longrightarrow> tidy v \<Longrightarrow> blank p4 \<Longrightarrow>
    line_means (p1 @ k @ p2 @ CHR ''='' # p3 @ v @ p4) (Setting k v)"

fun apply_item :: "string \<times> scrcpy_options \<Rightarrow> ini_item \<Rightarrow> string \<times> scrcpy_options" where
  "apply_item (sec, o1) (Section s) = (s, o1)"
| "apply_item (sec, o1) (Setting k v) =
     (sec, if sec \<in> set known_sections then apply_setting sec k v o1 else o1)"
| "apply_item (sec, o1) Nothing = (sec, o1)"

lemma blank_append [simp]: "blank (s @ t) \<longleftrightarrow> blank s \<and> blank t"
  by (auto simp: blank_def)

lemma blank_newline [simp]: "blank [newline]"
  by (simp add: blank_def newline_def isspace_def)

lemma dropWhile_blank: "blank p \<Longrightarrow> dropWhile isspace (p @ s) = dropWhile isspace s"
  by (induction p) (auto simp: blank_def)

lemma trim_blank [simp]: "blank s \<Longrightarrow> trim s = []"
proof -
  assume "blank s"
  then have "dropWhile isspace s = []" using dropWhile_blank [of s "[]"] by simp
  then show ?thesis by (simp only: trim_def list.case)
qed

lemma trim_core:
  assumes "blank p" and "blank q" and "core \<noteq> []" and "\<not> isspace (hd core)" and "\<not> isspace (last core)"
  shows "trim (p @ core @ q) = core"
proof -
  obtain c u where cu: "core = c # u" using assms(3) by (cases core) simp_all
  have "dropWhile isspace (p @ core @ q) = c # u @ q" using assms(1,4) cu by (simp add: dropWhile_blank)
  moreover have "dropWhile isspace (rev (u @ q)) = rev u"
  proof -
    have "blank (rev q)" using assms(2) by (simp add: blank_def)
    then have "dropWhile isspace (rev (u @ q)) = dropWhile isspace (rev u)" by (simp add: dropWhile_blank)
    also have "\<dots> = rev u"
      using assms(5) cu by (cases u rule: rev_cases) simp_all
    finally show ?thesis .
  qed
  ultimately show ?thesis using cu by (simp add: trim_def)
qed

lemma trim_tidy: "blank p \<Longrightarrow> blank q \<Longrightarrow> tidy s \<Longrightarrow> trim (p @ s @ q) = s"
  using trim_core [of p q s] by (cases "s = []") (auto simp: tidy_def)

lemma blank_no_equals: "blank p \<Longrightarrow> CHR ''='' \<notin> set p"
  by (auto simp: blank_def isspace_def)

lemma not_isspace [simp]: "\<not> isspace (CHR ''#'')" "\<not> isspace (CHR ''['')" "\<not> isspace (CHR '']'')" "\<not> isspace (CHR ''='')"
  by (simp_all add: isspace_def)

lemma trim_head:
  assumes "blank p" and "\<not> isspace c"
  obtains u' where "trim (p @ c # u) = c # u'"
  using assms that by (simp add: trim_def dropWhile_blank)

lemma config_line_setting:
  assumes "blank p1" "tidy k" "k \<noteq> []" "hd k \<noteq> CHR ''#''" "hd k \<noteq> CHR ''[''" "CHR ''='' \<notin> set k"
    "blank p2" "blank p3" "tidy v" "blank p4"
  shows "config_line (sec, o1) ((p1 @ k @ p2 @ CHR ''='' # p3 @ v @ p4) @ [newline]) =
     apply_item (sec, o1) (Setting k v)"
proof -
  define r where "r = (if v = [] then [] else p3 @ v)"
  have t: "trim ((p1 @ k @ p2 @ CHR ''='' # p3 @ v @ p4) @ [newline]) = k @ p2 @ CHR ''='' # r"
  proof (cases "v = []")
    case True
    have "trim (p1 @ (k @ p2 @ [CHR ''='']) @ (p3 @ p4 @ [newline])) = k @ p2 @ [CHR ''='']"
      by (rule trim_core) (use assms in \<open>simp_all add: tidy_def\<close>)
    then show ?thesis by (simp add: True r_def)
  next
    case False
    have "trim (p1 @ (k @ p2 @ CHR ''='' # p3 @ v) @ (p4 @ [newline])) = k @ p2 @ CHR ''='' # p3 @ v"
      by (rule trim_core) (use assms False in \<open>simp_all add: tidy_def\<close>)
    then show ?thesis by (simp add: False r_def)
  qed
  obtain c u where cu: "k = c # u" using assms(3) by (cases k) simp_all
  have "CHR ''='' \<notin> set (k @ p2)" using assms(6,7) blank_no_equals by simp
  then have e: "strchr (CHR ''='') ((k @ p2) @ CHR ''='' # r) = Some (length (k @ p2))" by (rule strchr_append)
  have tk: "take (length (k @ p2)) ((k @ p2) @ CHR ''='' # r) = k @ p2"
    "drop (Suc (length (k @ p2))) ((k @ p2) @ CHR ''='' # r) = r" by simp_all
  have k: "trim (k @ p2) = k" using trim_tidy [of "[]" p2 k] assms(2,7) by (simp add: blank_def)
  have v: "trim r = v"
    using trim_tidy [of p3 "[]" v] assms(8,9) by (cases "v = []") (simp_all add: r_def blank_def)
  have "\<exists>w. (k @ p2) @ CHR ''='' # r = c # w" by (simp add: cu)
  then obtain w where w: "(k @ p2) @ CHR ''='' # r = c # w" by blast
  have c: "c \<noteq> CHR ''#''" "c \<noteq> CHR ''[''" using assms(4,5) cu by simp_all
  have none: "\<not> [] \<in> set known_sections" by (simp add: known_sections_def)
  have t': "trim ((p1 @ k @ p2 @ CHR ''='' # p3 @ v @ p4) @ [newline]) = c # w" using t w by simp
  show ?thesis
    using e tk k v c none unfolding config_line_def prod.case t' w by auto
qed

lemma trim_section: "\<exists>q'. rev (dropWhile isspace (rev (s @ CHR '']'' # q @ [newline]))) = s @ CHR '']'' # q'"
proof -
  have "dropWhile isspace (rev q @ CHR '']'' # rev s) = dropWhile isspace (rev q) @ CHR '']'' # rev s"
    by (induction "rev q" arbitrary: q) (simp_all add: dropWhile_append)
  then show ?thesis by (simp add: newline_def isspace_def)
qed

lemma config_line_means:
  assumes "line_means l item"
  shows "config_line st (l @ [newline]) = apply_item st item"
proof -
  obtain sec o1 where st: "st = (sec, o1)" by (cases st)
  from assms show ?thesis
  proof cases
    case void
    then show ?thesis by (simp add: st config_line_def)
  next
    case (comment p s)
    obtain u where "trim (p @ CHR ''#'' # s @ [newline]) = CHR ''#'' # u"
      by (rule trim_head [OF comment(3) not_isspace(1)])
    then show ?thesis by (simp add: st config_line_def comment)
  next
    case (heading p s q)
    have "dropWhile isspace (p @ CHR ''['' # s @ CHR '']'' # q @ [newline]) = CHR ''['' # s @ CHR '']'' # q @ [newline]"
      using heading(3) by (simp add: dropWhile_blank)
    then obtain q' where t: "trim (p @ CHR ''['' # s @ CHR '']'' # q @ [newline]) = CHR ''['' # s @ CHR '']'' # q'"
      using trim_section [of s q] by (auto simp: trim_def)
    have "strchr (CHR '']'') ((CHR ''['' # s) @ CHR '']'' # q') = Some (length (CHR ''['' # s))"
      by (rule strchr_append) (use heading(4) in simp)
    then show ?thesis using heading(2,5) by (simp add: st config_line_def heading(1) t MAX_SECTION_def)
  next
    case (setting p1 k p2 p3 v p4)
    then show ?thesis using config_line_setting [of p1 k p2 p3 v p4 sec o1] by (simp add: st)
  qed
qed

lemma fgets_line: "newline \<notin> set l \<Longrightarrow> length l < n \<Longrightarrow> fgets n (l @ newline # s) = l @ [newline]"
proof (induction l arbitrary: n)
  case Nil
  then show ?case by (cases n) simp_all
next
  case (Cons c l)
  then show ?case by (cases n) auto
qed

definition short_lines :: "string list \<Rightarrow> bool" where
  "short_lines ls \<longleftrightarrow> (\<forall>l \<in> set ls. newline \<notin> set l \<and> length l < 511)"

definition unlines :: "string list \<Rightarrow> string" where
  "unlines ls = concat (map (\<lambda>l. l @ [newline]) ls)"

lemma file_lines_unlines: "short_lines ls \<Longrightarrow> file_lines (unlines ls) = map (\<lambda>l. l @ [newline]) ls"
proof (induction ls)
  case Nil
  then show ?case by (simp add: unlines_def file_lines.simps)
next
  case (Cons l ls)
  have u: "unlines (l # ls) = l @ newline # unlines ls" by (simp add: unlines_def)
  have "fgets 511 (unlines (l # ls)) = l @ [newline]"
    unfolding u using Cons.prems by (intro fgets_line) (simp_all add: short_lines_def)
  then show ?case
    using Cons unfolding u by (subst file_lines.simps) (simp add: MAX_LINE_def short_lines_def)
qed

lemma config_lines_mean:
  "list_all2 line_means ls items \<Longrightarrow>
     foldl config_line st (map (\<lambda>l. l @ [newline]) ls) = foldl apply_item st items"
  by (induction arbitrary: st rule: list_all2_induct) (simp_all add: config_line_means)

lemma config_parse_lines:
  assumes "list_all2 line_means ls items" and "short_lines ls"
  shows "config_parse (Some (unlines ls)) o1 = Some (snd (foldl apply_item ([], o1) items))"
  using assms by (simp add: config_parse_def file_lines_unlines config_lines_mean)

text \<open>A configuration file whose lines are each a comment, a section heading or a setting, with
  any white space around their parts, is read as exactly these: the settings are applied in
  order, each under the last heading before it, and settings outside a known section are
  ignored.\<close>

theorem config_parse_meaning:
  assumes "list_all2 line_means ls items" and "\<forall>l \<in> set ls. newline \<notin> set l \<and> length l < 511"
  shows "config_parse (Some (unlines ls)) o1 = Some (snd (foldl apply_item ([], o1) items))"
  using assms by (intro config_parse_lines) (simp_all add: short_lines_def)

theorem config_parse_meaning_witness:
  "config_parse (Some (unlines [''# test'', ''[video]'', '' codec = h265'', ''enabled=no ''])) scrcpy_options_default =
     Some (scrcpy_options_default\<lparr>video_codec := Some ''h265'', opt_video := False\<rparr>)"
proof -
  have 1: "line_means ''# test'' Nothing" using line_means.comment [of "[]" "'' test''"] by (simp add: blank_def)
  have 2: "line_means ''[video]'' (Section ''video'')"
    using line_means.heading [of "[]" "''video''" "[]"] by (simp add: blank_def)
  have 3: "line_means '' codec = h265'' (Setting ''codec'' ''h265'')"
    using line_means.setting [of "'' ''" "''codec''" "'' ''" "'' ''" "''h265''" "[]"]
    by (simp add: blank_def tidy_def isspace_def)
  have 4: "line_means ''enabled=no '' (Setting ''enabled'' ''no'')"
    using line_means.setting [of "[]" "''enabled''" "[]" "[]" "''no''" "'' ''"]
    by (simp add: blank_def tidy_def isspace_def)
  from config_parse_meaning [of "[''# test'', ''[video]'', '' codec = h265'', ''enabled=no '']"
      "[Nothing, Section ''video'', Setting ''codec'' ''h265'', Setting ''enabled'' ''no'']" scrcpy_options_default] 1 2 3 4
  show ?thesis
    by (simp add: newline_def known_sections_def apply_setting_def parse_bool_def)
qed

section \<open>Writing and reading a configuration\<close>

fun item_line :: "ini_item \<Rightarrow> string" where
  "item_line (Section s) = ''['' @ s @ '']''"
| "item_line (Setting k v) = k @ '' = '' @ v"
| "item_line Nothing = []"

definition log_level_name :: "int \<Rightarrow> string" where
  "log_level_name n = (if n = 1 then ''debug'' else if n = 2 then ''info'' else if n = 3 then ''warn'' else ''error'')"

definition truth :: "bool \<Rightarrow> string" where
  "truth b = (if b then ''true'' else ''false'')"

definition number :: "u32 \<Rightarrow> string" where
  "number w = decimal (unat w)"

definition options_items :: "scrcpy_options \<Rightarrow> ini_item list" where
  "options_items p =
     [Section ''connection'', Setting ''serial'' (the (opt_serial p)), Setting ''port'' (decimal (unat (port p))),
      Setting ''server_path'' (the (opt_server_path p)),
      Section ''video'', Setting ''enabled'' (truth (opt_video p)), Setting ''codec'' (the (video_codec p)),
      Setting ''max_size'' (number (opt_max_size p)), Setting ''bit_rate'' (number (opt_video_bit_rate p)),
      Section ''audio'', Setting ''enabled'' (truth (opt_audio p)), Setting ''codec'' (the (audio_codec p)),
      Setting ''bit_rate'' (number (opt_audio_bit_rate p)), Setting ''source'' (the (audio_source p)),
      Section ''control'', Setting ''enabled'' (truth (opt_control p)),
      Section ''window'', Setting ''title'' (the (window_title p)), Setting ''fullscreen'' (truth (fullscreen p)),
      Setting ''always_on_top'' (truth (always_on_top p)), Setting ''width'' (number (opt_window_width p)),
      Setting ''height'' (number (opt_window_height p)),
      Section ''device'', Setting ''turn_screen_off'' (truth (turn_screen_off p)),
      Setting ''stay_awake'' (truth (stay_awake p)), Setting ''show_touches'' (truth (show_touches p)),
      Section ''record'', Setting ''enabled'' (truth (opt_record p)), Setting ''filename'' (the (record_filename p)),
      Section ''script'', Setting ''autoload'' (the (script_path p)), Setting ''repl'' (truth (repl p)),
      Section ''log'', Setting ''level'' (log_level_name (log_level p))]"

text \<open>Values that fit a line of the format.\<close>

definition plain_text :: "string \<Rightarrow> bool" where
  "plain_text s \<longleftrightarrow> tidy s \<and> newline \<notin> set s \<and> length s \<le> 480"

definition writable :: "scrcpy_options \<Rightarrow> bool" where
  "writable p \<longleftrightarrow>
     (\<forall>s \<in> {opt_serial p, opt_server_path p, video_codec p, audio_codec p, audio_source p, window_title p,
            record_filename p, script_path p}. s \<noteq> None \<and> plain_text (the s)) \<and>
     (\<forall>w \<in> {opt_max_size p, opt_video_bit_rate p, opt_audio_bit_rate p, opt_window_width p, opt_window_height p}.
        unat w < 2 ^ 31) \<and> log_level p \<in> {1, 2, 3, 4}"

lemma plain_truth [simp]: "plain_text (truth b)"
  by (simp add: plain_text_def truth_def tidy_def isspace_def newline_def)

lemma plain_log_level [simp]: "plain_text (log_level_name n)"
  by (simp add: plain_text_def log_level_name_def tidy_def isspace_def newline_def)

lemma plain_decimal:
  assumes "n < 2 ^ 32"
  shows "plain_text (decimal n)"
proof -
  have "length (decimal n) \<le> 10" using assms by (intro length_decimal) simp_all
  moreover have "\<forall>c \<in> set (decimal n). \<not> isspace c" using decimal_digits is_digit_not(1) by blast
  moreover have "isspace newline" by (simp add: newline_def isspace_def)
  ultimately show ?thesis by (auto simp: plain_text_def tidy_def)
qed

lemma plain_number [simp]: "plain_text (number w)" "plain_text (decimal (unat (x :: u16)))"
  using plain_decimal [of "unat w"] unat_lt32 [of w] plain_decimal [of "unat x"] unsigned_less [of x, where 'a = nat]
  by (simp_all add: number_def)

lemma read_truth [simp]: "parse_bool (truth b) = b"
  by (simp add: parse_bool_def truth_def)

lemma read_number:
  assumes "unat w < 2 ^ 31"
  shows "word_of_int (atoi (number w)) = w"
proof -
  have "atoi (number w) = int (unat w)" using atoi_decimal [OF assms] by (simp add: number_def)
  then show ?thesis by simp
qed

lemma read_port: "word_of_int (atoi (decimal (unat (w :: u16)))) = w"
proof -
  have "unat w < 2 ^ 31" using unsigned_less [of w, where 'a = nat] by simp
  then have "atoi (decimal (unat w)) = int (unat w)" by (rule atoi_decimal)
  then show ?thesis by simp
qed

text \<open>A key of the program's: letters and underscores.\<close>

definition plain_key :: "string \<Rightarrow> bool" where
  "plain_key k \<longleftrightarrow> tidy k \<and> k \<noteq> [] \<and> hd k \<noteq> CHR ''#'' \<and> hd k \<noteq> CHR ''['' \<and> CHR ''='' \<notin> set k \<and>
     newline \<notin> set k \<and> length k \<le> 20"

lemma setting_line:
  assumes "plain_key k" and "plain_text v"
  shows "line_means (item_line (Setting k v)) (Setting k v) \<and>
     newline \<notin> set (item_line (Setting k v)) \<and> length (item_line (Setting k v)) < 511"
proof -
  have "line_means ([] @ k @ '' '' @ CHR ''='' # '' '' @ v @ []) (Setting k v)"
    by (rule line_means.setting) (use assms in \<open>simp_all add: plain_key_def plain_text_def blank_def isspace_def\<close>)
  then show ?thesis using assms by (simp add: plain_key_def plain_text_def newline_def)
qed

lemma section_line:
  assumes "s \<in> set known_sections"
  shows "line_means (item_line (Section s)) (Section s) \<and>
     newline \<notin> set (item_line (Section s)) \<and> length (item_line (Section s)) < 511"
proof -
  have s: "CHR '']'' \<notin> set s \<and> length s < 64 \<and> newline \<notin> set s"
    using assms by (auto simp: known_sections_def newline_def)
  have "line_means ([] @ CHR ''['' # s @ CHR '']'' # []) (Section s)"
    by (rule line_means.heading) (use s in \<open>simp_all add: blank_def\<close>)
  then show ?thesis using s by (simp add: newline_def)
qed

lemma ball_mono: "\<forall>x \<in> A. P x \<Longrightarrow> (\<And>x. P x \<Longrightarrow> Q x) \<Longrightarrow> \<forall>x \<in> A. Q x"
  by blast

lemma options_items_ok:
  assumes "writable p"
  shows "\<forall>it \<in> set (options_items p). line_means (item_line it) it \<and> newline \<notin> set (item_line it) \<and>
     length (item_line it) < 511"
proof -
  have keys: "\<forall>k \<in> set [''serial'', ''port'', ''server_path'', ''enabled'', ''codec'', ''max_size'', ''bit_rate'',
      ''source'', ''title'', ''fullscreen'', ''always_on_top'', ''width'', ''height'', ''turn_screen_off'',
      ''stay_awake'', ''show_touches'', ''filename'', ''autoload'', ''repl'', ''level'']. plain_key k"
    by (simp add: plain_key_def tidy_def isspace_def newline_def)
  have vals: "plain_text (the (opt_serial p))" "plain_text (the (opt_server_path p))" "plain_text (the (video_codec p))"
    "plain_text (the (audio_codec p))" "plain_text (the (audio_source p))" "plain_text (the (window_title p))"
    "plain_text (the (record_filename p))" "plain_text (the (script_path p))"
    using assms by (simp_all add: writable_def)
  have "\<forall>it \<in> set (options_items p). (\<exists>s \<in> set known_sections. it = Section s) \<or>
      (\<exists>k v. it = Setting k v \<and> plain_key k \<and> plain_text v)"
    unfolding options_items_def using keys vals by (simp add: known_sections_def)
  then show ?thesis
  proof (rule ball_mono)
    fix it assume "(\<exists>s \<in> set known_sections. it = Section s) \<or> (\<exists>k v. it = Setting k v \<and> plain_key k \<and> plain_text v)"
    then show "line_means (item_line it) it \<and> newline \<notin> set (item_line it) \<and> length (item_line it) < 511"
      by (elim disjE bexE exE conjE) (simp_all only: section_line setting_line simp_thms)
  qed
qed

lemma known_section [simp]:
  "''connection'' \<in> set known_sections"
  "''video'' \<in> set known_sections"
  "''audio'' \<in> set known_sections"
  "''control'' \<in> set known_sections"
  "''window'' \<in> set known_sections"
  "''device'' \<in> set known_sections"
  "''record'' \<in> set known_sections"
  "''script'' \<in> set known_sections"
  "''log'' \<in> set known_sections"
  by (simp_all add: known_sections_def)

lemma apply_known:
  "apply_setting ''connection'' ''serial'' v o1 = o1\<lparr>opt_serial := Some v\<rparr>"
  "apply_setting ''connection'' ''port'' v o1 = o1\<lparr>port := word_of_int (atoi v)\<rparr>"
  "apply_setting ''connection'' ''server_path'' v o1 = o1\<lparr>opt_server_path := Some v\<rparr>"
  "apply_setting ''video'' ''enabled'' v o1 = o1\<lparr>opt_video := parse_bool v\<rparr>"
  "apply_setting ''video'' ''codec'' v o1 = o1\<lparr>video_codec := Some v\<rparr>"
  "apply_setting ''video'' ''max_size'' v o1 = o1\<lparr>opt_max_size := word_of_int (atoi v)\<rparr>"
  "apply_setting ''video'' ''bit_rate'' v o1 = o1\<lparr>opt_video_bit_rate := word_of_int (atoi v)\<rparr>"
  "apply_setting ''audio'' ''enabled'' v o1 = o1\<lparr>opt_audio := parse_bool v\<rparr>"
  "apply_setting ''audio'' ''codec'' v o1 = o1\<lparr>audio_codec := Some v\<rparr>"
  "apply_setting ''audio'' ''bit_rate'' v o1 = o1\<lparr>opt_audio_bit_rate := word_of_int (atoi v)\<rparr>"
  "apply_setting ''audio'' ''source'' v o1 = o1\<lparr>audio_source := Some v\<rparr>"
  "apply_setting ''control'' ''enabled'' v o1 = o1\<lparr>opt_control := parse_bool v\<rparr>"
  "apply_setting ''window'' ''title'' v o1 = o1\<lparr>window_title := Some v\<rparr>"
  "apply_setting ''window'' ''fullscreen'' v o1 = o1\<lparr>fullscreen := parse_bool v\<rparr>"
  "apply_setting ''window'' ''always_on_top'' v o1 = o1\<lparr>always_on_top := parse_bool v\<rparr>"
  "apply_setting ''window'' ''width'' v o1 = o1\<lparr>opt_window_width := word_of_int (atoi v)\<rparr>"
  "apply_setting ''window'' ''height'' v o1 = o1\<lparr>opt_window_height := word_of_int (atoi v)\<rparr>"
  "apply_setting ''device'' ''turn_screen_off'' v o1 = o1\<lparr>turn_screen_off := parse_bool v\<rparr>"
  "apply_setting ''device'' ''stay_awake'' v o1 = o1\<lparr>stay_awake := parse_bool v\<rparr>"
  "apply_setting ''device'' ''show_touches'' v o1 = o1\<lparr>show_touches := parse_bool v\<rparr>"
  "apply_setting ''record'' ''enabled'' v o1 = o1\<lparr>opt_record := parse_bool v\<rparr>"
  "apply_setting ''record'' ''filename'' v o1 = o1\<lparr>record_filename := Some v\<rparr>"
  "apply_setting ''script'' ''autoload'' v o1 = o1\<lparr>script_path := Some v\<rparr>"
  "apply_setting ''script'' ''repl'' v o1 = o1\<lparr>repl := parse_bool v\<rparr>"
  "apply_setting ''log'' ''level'' v o1 = o1\<lparr>log_level := parse_log_level v\<rparr>"
  by (simp_all add: apply_setting_def)

lemma options_items_apply:
  assumes "writable p"
  shows "snd (foldl apply_item ([], base) (options_items p)) = p\<lparr>script_eval := script_eval base\<rparr>"
proof -
  have some: "Some (the (opt_serial p)) = opt_serial p" "Some (the (opt_server_path p)) = opt_server_path p"
    "Some (the (video_codec p)) = video_codec p" "Some (the (audio_codec p)) = audio_codec p"
    "Some (the (audio_source p)) = audio_source p" "Some (the (window_title p)) = window_title p"
    "Some (the (record_filename p)) = record_filename p" "Some (the (script_path p)) = script_path p"
    using assms by (simp_all add: writable_def)
  have level: "parse_log_level (log_level_name (log_level p)) = log_level p"
    using assms by (auto simp: writable_def log_level_name_def parse_log_level_def)
  have nums: "word_of_int (atoi (number (opt_max_size p))) = opt_max_size p"
    "word_of_int (atoi (number (opt_video_bit_rate p))) = opt_video_bit_rate p"
    "word_of_int (atoi (number (opt_audio_bit_rate p))) = opt_audio_bit_rate p"
    "word_of_int (atoi (number (opt_window_width p))) = opt_window_width p"
    "word_of_int (atoi (number (opt_window_height p))) = opt_window_height p"
    using assms by (simp_all add: writable_def read_number)
  note known = known_section [THEN eqTrueI]
  have "snd (foldl apply_item ([], base) (options_items p)) =
     base\<lparr>opt_serial := opt_serial p, port := port p, opt_server_path := opt_server_path p,
       opt_video := opt_video p, video_codec := video_codec p, opt_max_size := opt_max_size p,
       opt_video_bit_rate := opt_video_bit_rate p, opt_audio := opt_audio p, audio_codec := audio_codec p,
       opt_audio_bit_rate := opt_audio_bit_rate p, audio_source := audio_source p, opt_control := opt_control p,
       window_title := window_title p, fullscreen := fullscreen p, always_on_top := always_on_top p,
       opt_window_width := opt_window_width p, opt_window_height := opt_window_height p,
       turn_screen_off := turn_screen_off p, stay_awake := stay_awake p, show_touches := show_touches p,
       opt_record := opt_record p, record_filename := record_filename p, script_path := script_path p,
       repl := repl p, log_level := log_level p\<rparr>"
    unfolding options_items_def foldl_Cons foldl_Nil apply_item.simps known if_True apply_known some level snd_conv
      read_truth read_port nums ..
  also have "\<dots> = p\<lparr>script_eval := script_eval base\<rparr>"
    by (rule scrcpy_options.equality) simp_all
  finally show ?thesis .
qed

text \<open>C21. Every option a configuration file can set is read back as it was written: a file with all
  settings of some options, whose texts fit a line and whose numbers are below \<open>2 ^ 31\<close>, turns
  any options into these (the expression to evaluate, which has no setting, apart).\<close>

theorem config_roundtrip:
  assumes "writable p"
  shows "config_parse (Some (unlines (map item_line (options_items p)))) base =
     Some (p\<lparr>script_eval := script_eval base\<rparr>)"
proof -
  have "list_all2 line_means (map item_line (options_items p)) (options_items p)"
    using options_items_ok [OF assms] by (simp add: list_all2_map1 list.rel_refl_strong)
  moreover have "short_lines (map item_line (options_items p))"
    using options_items_ok [OF assms] by (simp add: short_lines_def)
  ultimately show ?thesis using options_items_apply [OF assms] by (simp add: config_parse_lines)
qed

theorem config_roundtrip_witness:
  "config_parse (Some (unlines (map item_line (options_items
      (scrcpy_options_default\<lparr>opt_serial := Some ''emulator'', record_filename := Some ''a b.mp4'',
         script_path := Some ''init.scm'', opt_max_size := 1920\<rparr>))))) scrcpy_options_default =
     Some (scrcpy_options_default\<lparr>opt_serial := Some ''emulator'', record_filename := Some ''a b.mp4'',
         script_path := Some ''init.scm'', opt_max_size := 1920\<rparr>)"
proof -
  have "writable (scrcpy_options_default\<lparr>opt_serial := Some ''emulator'', record_filename := Some ''a b.mp4'',
         script_path := Some ''init.scm'', opt_max_size := 1920\<rparr>)"
    by (simp add: writable_def scrcpy_options_default_def plain_text_def tidy_def isspace_def newline_def)
  from config_roundtrip [OF this, of scrcpy_options_default] show ?thesis
    by (simp add: scrcpy_options_default_def)
qed

section \<open>The command line over the configuration file\<close>

text \<open>Arguments in which every option has its value, without a config flag.\<close>

fun complete_args :: "string list \<Rightarrow> bool" where
  "complete_args [] = True"
| "complete_args (a # rest) =
     (\<not> config_flag a \<and>
      (case value_option a of
         Some f \<Rightarrow> (case rest of [] \<Rightarrow> False | v # rest' \<Rightarrow> \<not> config_flag v \<and> complete_args rest')
       | None \<Rightarrow> flag_option a \<noteq> None \<and> complete_args rest))"

lemma find_config_skip: "complete_args xs \<Longrightarrow> find_config path (xs @ ys) = find_config path ys"
  by (induction xs arbitrary: path rule: complete_args.induct)
    (auto split: option.splits list.splits)

lemma cli_args_append: "complete_args xs \<Longrightarrow> cli_args (xs @ ys) p = Option.bind (cli_args xs p) (cli_args ys)"
  by (induction xs arbitrary: p rule: complete_args.induct) (auto split: option.splits list.splits)

lemma cli_args_complete: "complete_args xs \<Longrightarrow> cli_args xs p \<noteq> None"
  by (induction xs arbitrary: p rule: complete_args.induct) (auto split: option.splits list.splits)

text \<open>C22. The command line overrides the configuration file wherever the config option stands among
  the arguments: the result is the second pass over the other arguments, started from the
  defaults as the file changes them; a file that cannot be opened ends the program.\<close>

theorem cli_overrides_config:
  assumes "complete_args before" and "complete_args after" and "config_flag c"
  shows "cli_parse files (before @ [c, path] @ after) =
     (case config_parse (files path) scrcpy_options_default of
        None \<Rightarrow> None
      | Some base \<Rightarrow> cli_args (before @ after) base) \<and>
     (\<forall>base. cli_args (before @ after) base \<noteq> None)"
proof -
  have "find_config None (before @ [c, path] @ after) = Some (Some path)"
    using find_config_skip [OF assms(1), of None "[c, path] @ after"]
      find_config_skip [OF assms(2), of "Some path" "[]"] assms(3) by simp
  moreover have "cli_args (before @ [c, path] @ after) base = cli_args (before @ after) base" for base
    using cli_args_append [OF assms(1), of "[c, path] @ after" base] cli_args_append [OF assms(1), of after base] assms(3)
    by (cases "cli_args before base") simp_all
  moreover have "cli_args (before @ after) base \<noteq> None" for base
    using cli_args_append [OF assms(1), of after base] cli_args_complete [OF assms(1), of base]
      cli_args_complete [OF assms(2)] by auto
  ultimately show ?thesis by (simp add: cli_parse_def split: option.split)
qed

theorem cli_overrides_config_witness:
  "cli_parse (\<lambda>f. if f = ''x.ini'' then Some [] else None) [''-f'', ''-c'', ''x.ini'', ''-s'', ''phone''] =
     Some (scrcpy_options_default\<lparr>fullscreen := True, opt_serial := Some ''phone''\<rparr>)"
proof -
  have c: "complete_args [''-f'']" "complete_args [''-s'', ''phone'']" "config_flag ''-c''"
    by (simp_all add: config_flag_def value_option_def flag_option_def)
  have empty: "config_parse (Some []) scrcpy_options_default = Some scrcpy_options_default"
    by (simp add: config_parse_def file_lines.simps)
  from cli_overrides_config [OF c, of "\<lambda>f. if f = ''x.ini'' then Some [] else None" "''x.ini''"] show ?thesis
    by (simp add: empty config_flag_def value_option_def flag_option_def)
qed

end
