(* ===== verification/Repl.thy ===== *)
theory Repl
  imports Prelude
begin

text \<open>
  The window for Scheme expressions, \<open>src/script/repl_window.c\<close>: its resources, its history of
  inputs, the keys that go through it and the two window procedures. The controls of Windows are
  modelled by their text and their place.
\<close>

section \<open>The window\<close>

definition REPL_MAX_HISTORY :: nat where "REPL_MAX_HISTORY = 100"
definition REPL_MAX_INPUT :: nat where "REPL_MAX_INPUT = 4096"
definition REPL_MARGIN :: int where "REPL_MARGIN = 5"
definition REPL_INPUT_HEIGHT :: int where "REPL_INPUT_HEIGHT = 24"

datatype repl_resource = Repl_Window | Repl_Font | Repl_Output | Repl_Input

text \<open>
  \<open>history\<close> holds the first \<open>history_count\<close> pointers of the array, \<open>None\<close> for a null pointer. \<open>input_text\<close> and
  \<open>output_text\<close> are the texts of the two controls, \<open>output_place\<close> and \<open>input_place\<close> their left and upper edge, width
  and height, \<open>subclassed\<close> whether the input control has the procedure of this file, \<open>evaluated\<close> what the callback was
  given, \<open>live\<close> the windows and the font that exist, \<open>quit_sent\<close> whether \<open>PostQuitMessage\<close> was called.
\<close>

type_synonym place = "int \<times> int \<times> int \<times> int"

record repl_window =
  live :: "repl_resource set"
  visible :: bool
  repl_initialized :: bool
  history :: "string option list"
  history_pos :: int
  eval_cb :: bool
  input_text :: string
  output_text :: string
  output_place :: place
  input_place :: place
  subclassed :: bool
  evaluated :: "string list"
  quit_sent :: bool

definition repl_zero :: repl_window where
  "repl_zero = \<lparr>live = {}, visible = False, repl_initialized = False, history = [], history_pos = 0,
     eval_cb = False, input_text = [], output_text = [], output_place = (0, 0, 0, 0), input_place = (0, 0, 0, 0),
     subclassed = False, evaluated = [], quit_sent = False\<rparr>"

definition repl_window_show :: "repl_window \<Rightarrow> repl_window" where
  "repl_window_show win = (if \<not> repl_initialized win then win else win\<lparr>visible := True\<rparr>)"

definition repl_window_hide :: "repl_window \<Rightarrow> repl_window" where
  "repl_window_hide win = (if \<not> repl_initialized win then win else win\<lparr>visible := False\<rparr>)"

definition repl_window_toggle :: "repl_window \<Rightarrow> repl_window" where
  "repl_window_toggle win = (if visible win then repl_window_hide win else repl_window_show win)"

definition repl_window_is_visible :: "repl_window \<Rightarrow> bool" where
  "repl_window_is_visible win = visible win"

definition repl_window_append_output :: "string option \<Rightarrow> repl_window \<Rightarrow> repl_window" where
  "repl_window_append_output s win =
     (case s of None \<Rightarrow> win
      | Some s \<Rightarrow> if \<not> repl_initialized win then win else win\<lparr>output_text := output_text win @ s\<rparr>)"

definition repl_window_append_error :: "string option \<Rightarrow> repl_window \<Rightarrow> repl_window" where
  "repl_window_append_error s win =
     (if \<not> repl_initialized win \<or> s = None then win
      else repl_window_append_output (Some [CHR 0x0A])
             (repl_window_append_output s (repl_window_append_output (Some ''*** Error: '') win)))"

text \<open>\<open>is_dialog\<close> is whether \<open>IsDialogMessage\<close> takes the message.\<close>

definition repl_window_process_message :: "bool \<Rightarrow> repl_window \<Rightarrow> bool" where
  "repl_window_process_message is_dialog win \<longleftrightarrow> repl_initialized win \<and> visible win \<and> is_dialog"

section \<open>Input and history\<close>

definition repl_execute_input :: "bool \<Rightarrow> repl_window \<Rightarrow> repl_window" where
  "repl_execute_input dup_ok win =
     (let buf = cut REPL_MAX_INPUT (input_text win)
      in if buf = [] then win
         else if length (history win) < REPL_MAX_HISTORY \<and> \<not> dup_ok then win
         else if \<not> dup_ok then win\<lparr>history := tl (history win) @ [None]\<rparr>
         else
           let hist = (if length (history win) < REPL_MAX_HISTORY then history win else tl (history win)) @ [Some buf];
               win1 = win\<lparr>history := hist, history_pos := int (length hist)\<rparr>;
               win2 = repl_window_append_output (Some [CHR 0x0A])
                        (repl_window_append_output (Some buf) (repl_window_append_output (Some ''> '') win1));
               win3 = win2\<lparr>input_text := []\<rparr>
           in if eval_cb win then win3\<lparr>evaluated := evaluated win @ [buf]\<rparr> else win3)"

section \<open>The window procedures\<close>

text \<open>
  The messages of the main window the program looks at; \<open>Size\<close> carries \<open>lParam\<close>, the client area in its two low words.
  \<open>known\<close> is whether the pointer to the structure has been stored with the window. The result is whether the procedure
  answers the message itself, and the window afterwards.
\<close>

datatype repl_msg = Size u64 | Repl_Eval | Close | Destroy | Other_Message

definition repl_wnd_proc :: "bool \<Rightarrow> bool \<Rightarrow> repl_msg \<Rightarrow> repl_window \<Rightarrow> bool \<times> repl_window" where
  "repl_wnd_proc dup_ok known msg win =
     (case msg of
        Size lparam \<Rightarrow>
          (True,
           if known \<and> repl_initialized win then
             let w = uint (lparam AND 0xFFFF); h = uint (drop_bit 16 lparam AND 0xFFFF);
                 output_height = h - REPL_INPUT_HEIGHT - REPL_MARGIN * 3
             in win\<lparr>output_place := (REPL_MARGIN, REPL_MARGIN, w - REPL_MARGIN * 2, output_height),
                    input_place := (REPL_MARGIN, output_height + REPL_MARGIN * 2, w - REPL_MARGIN * 2, REPL_INPUT_HEIGHT)\<rparr>
           else win)
      | Repl_Eval \<Rightarrow> (True, if known then repl_execute_input dup_ok win else win)
      | Close \<Rightarrow> if known then (True, repl_window_hide win) else (False, win)
      | Destroy \<Rightarrow> (True, win\<lparr>quit_sent := True\<rparr>)
      | Other_Message \<Rightarrow> (False, win))"

text \<open>
  The keys the input control takes for itself; return is sent on to the main window. A null entry of the history
  empties the control.
\<close>

datatype repl_key = Return | Up | Down

definition show_history :: "int \<Rightarrow> repl_window \<Rightarrow> repl_window" where
  "show_history p win =
     win\<lparr>history_pos := p, input_text := (case history win ! nat p of None \<Rightarrow> [] | Some s \<Rightarrow> s)\<rparr>"

definition repl_input_key :: "bool \<Rightarrow> repl_key \<Rightarrow> repl_window \<Rightarrow> repl_window" where
  "repl_input_key dup_ok key win =
     (case key of
        Return \<Rightarrow> snd (repl_wnd_proc dup_ok True Repl_Eval win)
      | Up \<Rightarrow>
          if history win = [] then win
          else
            let p = history_pos win - 1
            in show_history (if p < 0 then int (length (history win)) - 1 else p) win
      | Down \<Rightarrow>
          if history win = [] then win
          else
            let p = history_pos win + 1
            in show_history (if p \<ge> int (length (history win)) then 0 else p) win)"

text \<open>\<open>Key_Down None\<close> is any other key; the destruction of the control is also left to the default procedure.\<close>

datatype repl_input_msg = Key_Down "repl_key option" | Input_Destroyed | Other_Input

definition repl_input_subclass_proc :: "bool \<Rightarrow> repl_input_msg \<Rightarrow> repl_window \<Rightarrow> bool \<times> repl_window" where
  "repl_input_subclass_proc dup_ok msg win =
     (case msg of
        Key_Down (Some key) \<Rightarrow> (True, repl_input_key dup_ok key win)
      | Key_Down None \<Rightarrow> (False, win)
      | Input_Destroyed \<Rightarrow> (False, win\<lparr>subclassed := False\<rparr>)
      | Other_Input \<Rightarrow> (False, win))"

section \<open>Construction and destruction\<close>

text \<open>
  Windows calls the window procedures when it destroys a window: the main window is told \<open>WM_DESTROY\<close>, the input control
  \<open>WM_NCDESTROY\<close> if it still has the procedure of this file.
\<close>

definition repl_remove :: "repl_resource \<Rightarrow> repl_window \<Rightarrow> repl_window" where
  "repl_remove r win =
     (let win1 = win\<lparr>live := live win - {r}\<rparr>
      in case r of
           Repl_Window \<Rightarrow> snd (repl_wnd_proc True True Destroy win1)
         | Repl_Input \<Rightarrow> if subclassed win then snd (repl_input_subclass_proc True Input_Destroyed win1) else win1
         | _ \<Rightarrow> win1)"

text \<open>\<open>class_ok\<close>, \<open>made\<close> and \<open>subclass_ok\<close> say which steps succeed; each failure destroys what was made.\<close>

definition repl_window_init ::
  "bool \<Rightarrow> (repl_resource \<Rightarrow> bool) \<Rightarrow> bool \<Rightarrow> bool \<Rightarrow> bool \<times> repl_window" where
  "repl_window_init class_ok made subclass_ok cb =
     (let win = repl_zero\<lparr>eval_cb := cb\<rparr>
      in if \<not> class_ok then (False, win)
         else if \<not> made Repl_Window then (False, win)
         else if \<not> made Repl_Font then (False, fold repl_remove [Repl_Window] (win\<lparr>live := {Repl_Window}\<rparr>))
         else
           let win1 = win\<lparr>live := {Repl_Window, Repl_Font}\<rparr>
           in if \<not> made Repl_Output then (False, fold repl_remove [Repl_Font, Repl_Window] win1)
              else
                let win2 = win1\<lparr>live := {Repl_Window, Repl_Font, Repl_Output},
                                output_place := (REPL_MARGIN, REPL_MARGIN, 580, 330)\<rparr>
                in if \<not> made Repl_Input then (False, fold repl_remove [Repl_Output, Repl_Font, Repl_Window] win2)
                   else
                     let win3 = win2\<lparr>live := {Repl_Window, Repl_Font, Repl_Output, Repl_Input},
                                     input_place := (REPL_MARGIN, 340, 580, REPL_INPUT_HEIGHT)\<rparr>
                     in if \<not> subclass_ok
                        then (False, fold repl_remove [Repl_Input, Repl_Output, Repl_Font, Repl_Window] win3)
                        else (True, win3\<lparr>subclassed := True, repl_initialized := True\<rparr>))"

definition repl_window_destroy :: "repl_window \<Rightarrow> repl_window" where
  "repl_window_destroy win =
     (if \<not> repl_initialized win then win
      else (fold repl_remove [Repl_Input, Repl_Output, Repl_Font, Repl_Window]
              (win\<lparr>history := []\<rparr>))\<lparr>repl_initialized := False\<rparr>)"

section \<open>What the history holds\<close>

text \<open>The user types a line and confirms it.\<close>

definition enter :: "string \<Rightarrow> repl_window \<Rightarrow> repl_window" where
  "enter s win = repl_input_key True Return (win\<lparr>input_text := s\<rparr>)"

definition last_n :: "nat \<Rightarrow> 'a list \<Rightarrow> 'a list" where
  "last_n n xs = drop (length xs - n) xs"

definition line_ok :: "string \<Rightarrow> bool" where
  "line_ok s \<longleftrightarrow> s \<noteq> [] \<and> length s < 4096"

lemma last_n_snoc: "last_n n (xs @ [x]) = (if length xs < n then xs @ [x] else last_n (n - 1) xs @ [x])" if "0 < n"
  using that by (auto simp: last_n_def Suc_diff_le)

lemma last_n_ne [simp]: "0 < n \<Longrightarrow> last_n n xs = [] \<longleftrightarrow> xs = []"
  by (cases xs) (auto simp: last_n_def)

lemma last_n_tl: "n \<le> length xs \<Longrightarrow> tl (last_n n xs) = last_n (n - 1) xs"
proof (cases n)
  case (Suc m)
  assume "n \<le> length xs"
  then have "Suc (length xs - n) = length xs - m" using Suc by simp
  moreover have "tl (drop i xs) = drop (Suc i) xs" for i by (simp add: drop_Suc tl_drop)
  ultimately show ?thesis using Suc by (simp add: last_n_def)
qed (simp add: last_n_def)

definition echo :: "string \<Rightarrow> string" where
  "echo s = ''> '' @ s @ [CHR 0x0A]"

lemma enter_effect:
  assumes "line_ok s" and "repl_initialized win" and "length (history win) \<le> 100"
  shows "history (enter s win) = (if length (history win) < 100 then history win else tl (history win)) @ [Some s]"
    and "history_pos (enter s win) = int (length (history (enter s win)))" and "repl_initialized (enter s win)"
    and "output_text (enter s win) = output_text win @ echo s"
    and "evaluated (enter s win) = evaluated win @ (if eval_cb win then [s] else [])" and "eval_cb (enter s win) = eval_cb win"
  using assms
  by (simp_all add: enter_def repl_input_key_def repl_wnd_proc_def repl_execute_input_def line_ok_def REPL_MAX_INPUT_def REPL_MAX_HISTORY_def
      repl_window_append_output_def echo_def Let_def)

text \<open>The window the whole session starts with: initialised, nothing entered yet.\<close>

definition repl_fresh :: "repl_window \<Rightarrow> bool" where
  "repl_fresh win \<longleftrightarrow> repl_initialized win \<and> history win = [] \<and> history_pos win = 0"

definition session_of :: "string list \<Rightarrow> repl_window \<Rightarrow> repl_window" where
  "session_of xs win = fold enter xs win"

lemma session_effect:
  assumes "repl_fresh win" and "list_all line_ok xs"
  shows "history (session_of xs win) = map Some (last_n 100 xs) \<and>
     history_pos (session_of xs win) = int (min 100 (length xs)) \<and> repl_initialized (session_of xs win) \<and>
     output_text (session_of xs win) = output_text win @ concat (map echo xs) \<and>
     evaluated (session_of xs win) = evaluated win @ (if eval_cb win then xs else []) \<and>
     eval_cb (session_of xs win) = eval_cb win"
  using assms(2)
proof (induction xs rule: rev_induct)
  case Nil
  then show ?case using assms(1) by (simp add: session_of_def repl_fresh_def last_n_def)
next
  case (snoc s xs)
  then have IH: "history (session_of xs win) = map Some (last_n 100 xs)" "repl_initialized (session_of xs win)"
      "output_text (session_of xs win) = output_text win @ concat (map echo xs)"
      "evaluated (session_of xs win) = evaluated win @ (if eval_cb win then xs else [])"
      "eval_cb (session_of xs win) = eval_cb win" "line_ok s"
    by auto
  have len: "length (history (session_of xs win)) = min 100 (length xs)"
    by (simp add: IH(1) last_n_def)
  then have "length (history (session_of xs win)) \<le> 100" by simp
  note e = enter_effect[OF IH(6) IH(2) this]
  have "history (enter s (session_of xs win)) = map Some (last_n 100 (xs @ [s]))"
    using e(1) len by (auto simp: IH(1) last_n_snoc last_n_tl map_tl [symmetric]) (simp add: last_n_def)
  moreover from this have "history_pos (enter s (session_of xs win)) = int (min 100 (length (xs @ [s])))"
    using e(2) by (simp add: last_n_def)
  ultimately show ?case
    using e(3-6) IH(3-5) by (simp add: session_of_def)
qed

definition press_up :: "repl_window \<Rightarrow> repl_window" where
  "press_up = repl_input_key True Up"

lemma press_up_effect:
  assumes h: "history win = map Some ys" and pos: "history_pos win = int p" and ne: "ys \<noteq> []"
    and p: "p \<le> length ys" and q: "q = (if p = 0 then length ys - 1 else p - 1)"
  shows "history (press_up win) = map Some ys" and "history_pos (press_up win) = int q"
    and "input_text (press_up win) = ys ! q"
proof -
  have q_less: "q < length ys" using ne p q by (cases ys) auto
  have "(if history_pos win - 1 < 0 then int (length (history win)) - 1 else history_pos win - 1) = int q"
    using ne q by (cases ys; cases p) (simp_all add: h pos)
  then have "press_up win = show_history (int q) win"
    using ne h by (simp add: press_up_def repl_input_key_def Let_def split: if_splits)
  then show "history (press_up win) = map Some ys" and "history_pos (press_up win) = int q"
    and "input_text (press_up win) = ys ! q"
    using q_less by (simp_all add: show_history_def h)
qed

lemma press_up_many:
  assumes h: "history win = map Some ys" and pos: "history_pos win = int (length ys)" and ne: "ys \<noteq> []"
  shows "history ((press_up ^^ Suc k) win) = map Some ys \<and>
     history_pos ((press_up ^^ Suc k) win) = int (length ys - 1 - k mod length ys) \<and>
     input_text ((press_up ^^ Suc k) win) = ys ! (length ys - 1 - k mod length ys)"
proof (induction k)
  case 0
  have "length ys - 1 - 0 mod length ys = (if length ys = 0 then length ys - 1 else length ys - 1)" by simp
  from press_up_effect [OF h pos ne order_refl this] show ?case by simp
next
  case (Suc k)
  define v where "v = (press_up ^^ Suc k) win"
  have v: "history v = map Some ys" "history_pos v = int (length ys - 1 - k mod length ys)"
    using Suc by (simp_all add: v_def)
  have n: "0 < length ys" and m: "k mod length ys < length ys" using ne by simp_all
  have "length ys - 1 - Suc k mod length ys =
      (if length ys - 1 - k mod length ys = 0 then length ys - 1 else length ys - 1 - k mod length ys - 1)"
    using m by (auto simp: mod_Suc)
  from press_up_effect [OF v ne _ this] n show ?case by (simp add: v_def)
qed

text \<open>C32. A REPL session from a fresh window: after any number of non-empty lines below the input limit have been
  entered, the history holds exactly the last hundred of them, oldest first, the output echoes all of them in order, each
  was handed to the evaluator once and in order if there is one (and to nobody otherwise), and pressing the Up key
  \<open>k + 1\<close> times puts the line entered \<open>k\<close> before the last back into the input control, starting over from the newest once
  the oldest kept line has been shown.\<close>

theorem repl_session:
  assumes "repl_fresh win" and "list_all line_ok xs"
  shows "history (session_of xs win) = map Some (last_n 100 xs) \<and>
     output_text (session_of xs win) = output_text win @ concat (map echo xs) \<and>
     evaluated (session_of xs win) = evaluated win @ (if eval_cb win then xs else []) \<and>
     (xs \<noteq> [] \<longrightarrow> (let n = min 100 (length xs)
        in input_text ((press_up ^^ Suc k) (session_of xs win)) = last_n 100 xs ! (n - 1 - k mod n)))"
proof -
  note s = session_effect[OF assms]
  have l: "length (last_n 100 xs) = min 100 (length xs)" by (simp add: last_n_def)
  have "input_text ((press_up ^^ Suc k) (session_of xs win)) =
      last_n 100 xs ! (length (last_n 100 xs) - 1 - k mod length (last_n 100 xs))" if "xs \<noteq> []"
    by (rule press_up_many[THEN conjunct2, THEN conjunct2]) (use s l that in auto)
  then show ?thesis using s by (simp add: l Let_def)
qed

theorem repl_session_witness:
  "history (session_of [''(home)'', ''(back)''] (snd (repl_window_init True (\<lambda>_. True) True True))) =
     [Some ''(home)'', Some ''(back)''] \<and>
   input_text ((press_up ^^ Suc 4) (session_of [''(home)'', ''(back)''] (snd (repl_window_init True (\<lambda>_. True) True True)))) =
     ''(back)''"
proof -
  have f: "repl_fresh (snd (repl_window_init True (\<lambda>_. True) True True))"
    by (simp add: repl_fresh_def repl_window_init_def repl_zero_def)
  have "4 mod Suc (Suc 0) = 0" by (simp add: numeral_2_eq_2 [symmetric])
  then show ?thesis
    using repl_session[OF f, of "[''(home)'', ''(back)'']" 4]
    by (simp add: line_ok_def last_n_def Let_def del: funpow.simps)
qed

text \<open>Whatever \<open>repl_window_init\<close> returns, no window or font is left behind: all four resources exist after a success,
  none after a failure, and \<open>repl_window_destroy\<close> removes them all.\<close>

lemmas repl_removal = repl_remove_def repl_wnd_proc_def repl_input_subclass_proc_def Let_def

lemma repl_resources:
  "live (snd (repl_window_init c m s cb)) =
     (if fst (repl_window_init c m s cb) then {Repl_Window, Repl_Font, Repl_Output, Repl_Input} else {})"
  "live (repl_window_destroy (snd (repl_window_init c m s cb))) = {}"
  by (auto simp: repl_window_init_def repl_zero_def repl_window_destroy_def repl_removal)

lemma repl_window_toggle_twice:
  "repl_initialized win \<Longrightarrow> repl_window_toggle (repl_window_toggle win) = win"
  by (simp add: repl_window_toggle_def repl_window_hide_def repl_window_show_def)

text \<open>A construction that fails once the main window exists has posted a quit message to the thread: its window
  procedure does so whenever that window is destroyed.\<close>

lemma repl_init_posts_quit:
  "quit_sent (snd (repl_window_init c m s cb)) \<longleftrightarrow>
     c \<and> m Repl_Window \<and> \<not> fst (repl_window_init c m s cb)"
  "fst (repl_window_init c m s cb) \<longleftrightarrow> c \<and> (\<forall>r. m r) \<and> s"
proof -
  have all: "(\<forall>r. m r) \<longleftrightarrow> m Repl_Window \<and> m Repl_Font \<and> m Repl_Output \<and> m Repl_Input"
    by (metis repl_resource.exhaust)
  show "quit_sent (snd (repl_window_init c m s cb)) \<longleftrightarrow> c \<and> m Repl_Window \<and> \<not> fst (repl_window_init c m s cb)"
    by (simp add: repl_window_init_def repl_zero_def repl_removal)
  show "fst (repl_window_init c m s cb) \<longleftrightarrow> c \<and> (\<forall>r. m r) \<and> s"
    by (simp add: repl_window_init_def all Let_def)
qed

text \<open>No message changes which windows exist.\<close>

lemma repl_execute_keeps [simp]:
  "live (repl_execute_input d win) = live win" "repl_initialized (repl_execute_input d win) = repl_initialized win"
  by (simp_all add: repl_execute_input_def repl_window_append_output_def Let_def)

lemma repl_procs_keep:
  "live (snd (repl_wnd_proc d k msg win)) = live win"
  "repl_initialized (snd (repl_wnd_proc d k msg win)) = repl_initialized win"
  "live (snd (repl_input_subclass_proc d imsg win)) = live win"
  "repl_initialized (snd (repl_input_subclass_proc d imsg win)) = repl_initialized win"
  by (simp_all add: repl_input_subclass_proc_def repl_input_key_def show_history_def repl_wnd_proc_def repl_window_hide_def Let_def
      split: repl_msg.split repl_input_msg.split option.split repl_key.split)

text \<open>A window has all its resources if it is initialised and none otherwise; then its destruction leaves none.\<close>

definition repl_whole :: "repl_window \<Rightarrow> bool" where
  "repl_whole win \<longleftrightarrow> repl_initialized win \<or> live win = {}"

lemma repl_init_whole: "repl_whole (snd (repl_window_init c m s cb))"
  by (auto simp: repl_whole_def repl_window_init_def repl_zero_def repl_removal)

lemma repl_show_whole [simp]: "repl_whole (repl_window_show win) = repl_whole win"
  by (simp add: repl_window_show_def repl_whole_def)

lemma repl_show_quit [simp]: "quit_sent (repl_window_show win) = quit_sent win"
  by (simp add: repl_window_show_def)

lemma repl_whole_destroyed: "repl_whole win \<Longrightarrow> live (repl_window_destroy win) = {}"
proof -
  have "r \<in> {Repl_Input, Repl_Output, Repl_Font, Repl_Window}" for r by (cases r) simp_all
  then have "live win - {Repl_Input} - {Repl_Output} - {Repl_Font} - {Repl_Window} = {}" by blast
  then show "repl_whole win \<Longrightarrow> live (repl_window_destroy win) = {}"
    by (auto simp: repl_whole_def repl_window_destroy_def repl_removal)
qed

text \<open>A size message fills the client area: both controls have the margin on every side and between them.\<close>

lemma repl_layout_fills:
  fixes w h :: u16
  assumes "repl_initialized win" and "snd (repl_wnd_proc d True (Size (ucast w OR push_bit 16 (ucast h))) win) = win'"
    and "output_place win' = (ox, oy, ow, oh)" and "input_place win' = (ix, iy, iw, ih)"
  shows "ox = 5 \<and> ix = 5 \<and> ox + ow + 5 = uint w \<and> ix + iw + 5 = uint w \<and> oy = 5 \<and>
     oy + oh + 5 = iy \<and> iy + ih + 5 = uint h \<and> ih = 24 \<and> (0 \<le> oh \<longleftrightarrow> 39 \<le> uint h)"
proof -
  have mask: "(0xFFFF :: u64) = mask 16" by (simp add: mask_eq_exp_minus_1)
  have low: "(ucast w OR push_bit 16 (ucast h)) AND mask 16 = (ucast w :: u64)"
    and high: "drop_bit 16 (ucast w OR push_bit 16 (ucast h)) AND mask 16 = (ucast h :: u64)"
    by (rule bit_word_eqI; auto simp: bit_simps dest: bit_imp_le_length)+
  have ints: "uint (ucast w :: u64) = uint w" "uint (ucast h :: u64) = uint h" by (simp_all add: uint_up_ucast is_up)
  define lp where "lp = (ucast w OR push_bit 16 (ucast h) :: u64)"
  show ?thesis
    using assms low [folded lp_def] high [folded lp_def] unfolding lp_def [symmetric]
    by (auto simp: repl_wnd_proc_def mask ints REPL_MARGIN_def REPL_INPUT_HEIGHT_def Let_def)
qed

end
