(* ===== verification/Window.thy ===== *)
theory Window
  imports Prelude
begin

text \<open>
  The main window, \<open>src/app/window.c\<close>: which callback of the application a message of Windows leads
  to, and the state kept beside the window. What Windows shows is recorded by the style and the
  placement it was last told.
\<close>

unbundle bit_operations_syntax

section \<open>Messages\<close>

text \<open>The messages the window procedure knows, with the parameters it reads: \<open>wParam\<close>, \<open>lParam\<close>.\<close>

datatype win_msg =
    Wm_Destroy
  | Wm_Keydown u64
  | Wm_Syskeydown u64
  | Wm_Keyup u64
  | Wm_Syskeyup u64
  | Wm_Lbuttondown u64
  | Wm_Lbuttonup u64
  | Wm_Rbuttondown u64
  | Wm_Rbuttonup u64
  | Wm_Mousemove u64 u64
  | Wm_Mousewheel u64 u64
  | Wm_Size u64
  | Wm_Other

datatype window_call =
    Key_Cb u32 bool
  | Mouse_Cb int int u32 u32
  | Wheel_Cb int int int
  | Resize_Cb int int
  | Post_Quit
  | Def_Window_Proc

definition low_word :: "u64 \<Rightarrow> u16" where "low_word l = ucast l"
definition high_word :: "u64 \<Rightarrow> u16" where "high_word l = ucast (drop_bit 16 l)"

definition x_of :: "u64 \<Rightarrow> int" where "x_of l = sint (low_word l)"
definition y_of :: "u64 \<Rightarrow> int" where "y_of l = sint (high_word l)"

definition MK_LBUTTON :: u64 where "MK_LBUTTON = 1"
definition MK_RBUTTON :: u64 where "MK_RBUTTON = 2"

section \<open>The window\<close>

text \<open>\<open>callbacks_set\<close> holds once \<open>window_set_callbacks\<close> has stored the application's four callbacks.\<close>

datatype style = Overlapped | Popup

record window =
  win_width :: int
  win_height :: int
  win_fullscreen :: bool
  win_on_top :: bool
  callbacks_set :: bool
  win_made :: bool
  win_style :: style
  placed :: "(int \<times> int) list"

definition window_init :: "bool \<Rightarrow> bool \<Rightarrow> int \<Rightarrow> int \<Rightarrow> window \<Rightarrow> bool \<times> window" where
  "window_init class_ok create_ok w h win =
     (let win1 = win\<lparr>win_width := w, win_height := h, win_fullscreen := False, win_on_top := False,
                     callbacks_set := False, placed := []\<rparr>
      in if \<not> class_ok then (False, win1)
         else if \<not> create_ok then (False, win1\<lparr>win_made := False\<rparr>)
         else (True, win1\<lparr>win_made := True, win_style := Overlapped\<rparr>))"

definition window_set_callbacks :: "window \<Rightarrow> window" where
  "window_set_callbacks win = win\<lparr>callbacks_set := True\<rparr>"

definition window_set_fullscreen :: "int \<times> int \<Rightarrow> bool \<Rightarrow> window \<Rightarrow> window" where
  "window_set_fullscreen screen full win =
     (if full = win_fullscreen win then win
      else
        let win1 = win\<lparr>win_fullscreen := full\<rparr>
        in if full then win1\<lparr>win_style := Popup, placed := placed win @ [screen]\<rparr>
           else win1\<lparr>win_style := Overlapped, placed := placed win @ [(win_width win, win_height win)]\<rparr>)"

definition window_set_always_on_top :: "bool \<Rightarrow> window \<Rightarrow> window" where
  "window_set_always_on_top on win = win\<lparr>win_on_top := on\<rparr>"

section \<open>The window procedure\<close>

definition with_callback :: "window \<Rightarrow> window_call \<Rightarrow> window \<times> window_call list" where
  "with_callback win c = (win, if callbacks_set win then [c] else [])"

fun wnd_proc :: "win_msg \<Rightarrow> window \<Rightarrow> window \<times> window_call list" where
  "wnd_proc Wm_Destroy win = (win, [Post_Quit])"
| "wnd_proc (Wm_Keydown wparam) win = with_callback win (Key_Cb (ucast wparam) True)"
| "wnd_proc (Wm_Syskeydown wparam) win = with_callback win (Key_Cb (ucast wparam) True)"
| "wnd_proc (Wm_Keyup wparam) win = with_callback win (Key_Cb (ucast wparam) False)"
| "wnd_proc (Wm_Syskeyup wparam) win = with_callback win (Key_Cb (ucast wparam) False)"
| "wnd_proc (Wm_Lbuttondown l) win = with_callback win (Mouse_Cb (x_of l) (y_of l) 1 1)"
| "wnd_proc (Wm_Lbuttonup l) win = with_callback win (Mouse_Cb (x_of l) (y_of l) 1 0)"
| "wnd_proc (Wm_Rbuttondown l) win = with_callback win (Mouse_Cb (x_of l) (y_of l) 2 1)"
| "wnd_proc (Wm_Rbuttonup l) win = with_callback win (Mouse_Cb (x_of l) (y_of l) 2 0)"
| "wnd_proc (Wm_Mousemove wparam l) win =
     with_callback win (Mouse_Cb (x_of l) (y_of l)
       ((if wparam AND MK_LBUTTON \<noteq> 0 then 1 else 0) OR (if wparam AND MK_RBUTTON \<noteq> 0 then 2 else 0)) 2)"
| "wnd_proc (Wm_Mousewheel wparam l) win = with_callback win (Wheel_Cb (x_of l) (y_of l) (sint (high_word wparam)))"
| "wnd_proc (Wm_Size l) win =
     (if callbacks_set win
      then (win\<lparr>win_width := uint (low_word l), win_height := uint (high_word l)\<rparr>,
            [Resize_Cb (uint (low_word l)) (uint (high_word l))])
      else (win, []))"
| "wnd_proc Wm_Other win = (win, [Def_Window_Proc])"

text \<open>A point is packed into \<open>lParam\<close> as two signed 16-bit numbers and read back.\<close>

definition pack_point :: "int \<Rightarrow> int \<Rightarrow> u64" where
  "pack_point x y = ucast (word_of_int x :: u16) OR push_bit 16 (ucast (word_of_int y :: u16))"

lemma pack_point_words:
  "low_word (pack_point x y) = word_of_int x" "high_word (pack_point x y) = word_of_int y"
  by (rule bit_word_eqI;
      simp add: low_word_def high_word_def pack_point_def bit_simps, blast?)+

lemma pack_point_read:
  assumes "- (2 ^ 15) \<le> x" "x < 2 ^ 15" "- (2 ^ 15) \<le> y" "y < 2 ^ 15"
  shows "x_of (pack_point x y) = x" "y_of (pack_point x y) = y"
  using assms by (simp_all add: x_of_def y_of_def pack_point_words sint_sbintrunc' signed_take_bit_int_eq_self)

text \<open>No message changes anything but the recorded client size, and each leads to one call at most.\<close>

lemma wnd_proc_effect:
  "\<exists>w h. fst (wnd_proc m win) = win\<lparr>win_width := w, win_height := h\<rparr> \<and> length (snd (wnd_proc m win)) \<le> 1"
proof -
  have same: "\<exists>w h. win = win\<lparr>win_width := w, win_height := h\<rparr>"
    by (rule exI [of _ "win_width win"], rule exI [of _ "win_height win"]) simp
  show ?thesis by (cases m) (use same in \<open>auto simp: with_callback_def\<close>)
qed

end
