(* ===== verification/Application.thy ===== *)
theory Application
  imports Server Renderer Video_Pipeline Audio_Pipeline Script_Engine Controller Options Repl Window
begin

text \<open>
  The application, \<open>src/app/application.c\<close>: its construction and destruction, the start and the stop
  of server, pipelines and script engine, and the main loop that draws frames, passes window
  events on and answers the script engine. It composes the models of these parts; what the
  structures share through pointers in the code is held once here: the video and the audio
  socket and the shared frame in the pipelines, the control socket in the controller.
\<close>

section \<open>The size of the window\<close>

text \<open>The arithmetic of \<open>double\<close>: conversion, the operations, the square root, the constant 0.5 and the
  truncation to \<open>int\<close>.\<close>

record 'g double_ops =
  d_int :: "int \<Rightarrow> 'g"
  d_mul :: "'g \<Rightarrow> 'g \<Rightarrow> 'g"
  d_div :: "'g \<Rightarrow> 'g \<Rightarrow> 'g"
  d_add :: "'g \<Rightarrow> 'g \<Rightarrow> 'g"
  d_sqrt :: "'g \<Rightarrow> 'g"
  d_half :: 'g
  d_trunc :: "'g \<Rightarrow> int"

definition d_round :: "'g double_ops \<Rightarrow> 'g \<Rightarrow> int" where
  "d_round D v = d_trunc D (d_add D v (d_half D))"

text \<open>\<open>cur\<close> is the client area, the result the one that is asked for, if any.\<close>

definition application_resize_window_for_video ::
  "'g double_ops \<Rightarrow> int \<times> int \<Rightarrow> int \<times> int \<Rightarrow> u32 \<Rightarrow> u32 \<Rightarrow> (int \<times> int) option" where
  "application_resize_window_for_video D cur screen video_w video_h =
     (if video_w = 0 \<or> video_h = 0 then None
      else case cur of (cur_w, cur_h) \<Rightarrow>
        if cur_w \<le> 0 \<or> cur_h \<le> 0 then None
        else
          let area = d_mul D (d_int D cur_w) (d_int D cur_h);
              aspect = d_div D (d_int D (uint video_w)) (d_int D (uint video_h));
              w0 = d_round D (d_sqrt D (d_mul D area aspect));
              h0 = d_round D (d_sqrt D (d_div D area aspect));
              (w1, h1) = (if w0 > fst screen then (fst screen, d_round D (d_div D (d_int D (fst screen)) aspect))
                          else (w0, h0))
          in Some (if h1 > snd screen then (d_round D (d_mul D (d_int D (snd screen)) aspect), snd screen)
                   else (w1, h1)))"

section \<open>The application\<close>

text \<open>
  \<open>video_decoder_ptr\<close>, \<open>audio_decoder_ptr\<close> and \<open>player_ptr\<close> say which of the three pointers are not
  null; \<open>rendered\<close> and \<open>resizes\<close> record the frames given to the renderer and the client areas asked for,
  \<open>app_fault\<close> a read outside a block, \<open>looping\<close> and \<open>quit_posted\<close> where the message loop is.
\<close>

record ('d, 'a, 'f) application =
  app_options :: scrcpy_options
  app_window :: window
  app_ctx :: d3d_context
  app_renderer :: "'f video_renderer"
  video_decoder_ptr :: bool
  audio_decoder_ptr :: bool
  player_ptr :: bool
  app_video :: "'d video_pipeline"
  app_audio :: "'a audio_pipeline"
  app_controller :: controller
  app_width :: u32
  app_height :: u32
  app_running :: bool
  app_script_enabled :: bool
  app_engine :: script_engine
  app_repl :: repl_window
  rendered :: "video_frame list"
  resizes :: "(int \<times> int) list"
  app_fault :: bool
  quit_posted :: bool
  looping :: bool

section \<open>Destruction\<close>

text \<open>What \<open>application_destroy\<close> destroys, each part with the state it is in then.\<close>

datatype ('d, 'a) teardown =
    Destroy_Engine script_engine
  | Destroy_Repl repl_window
  | Destroy_Video_Pipeline "'d video_pipeline"
  | Destroy_Audio_Pipeline "'a audio_pipeline"
  | Free_Video_Decoder
  | Free_Audio_Decoder
  | Free_Player
  | Destroy_Graphics
  | Free_Frame video_frame
  | Close_Video_Socket
  | Close_Audio_Socket
  | Close_Control_Socket
  | Adb_Destroy

definition destroys :: "('d, 'a, 'f) application \<Rightarrow> ('d, 'a) teardown list" where
  "destroys app =
     (if app_script_enabled app then [Destroy_Engine (app_engine app), Destroy_Repl (app_repl app)] else []) @
     [Destroy_Video_Pipeline (app_video app), Destroy_Audio_Pipeline (app_audio app)] @
     (if video_decoder_ptr app then [Free_Video_Decoder] else []) @
     (if audio_decoder_ptr app then [Free_Audio_Decoder] else []) @
     (if player_ptr app then [Free_Player] else []) @ [Destroy_Graphics] @
     map Free_Frame (shown (current (vp_frame (app_video app)))) @
     (if video_fd (vp_sock (app_video app)) \<noteq> None then [Close_Video_Socket] else []) @
     (if audio_fd (ap_sock (app_audio app)) \<noteq> None then [Close_Audio_Socket] else []) @
     (if sock_open (app_controller app) then [Close_Control_Socket] else []) @ [Adb_Destroy]"

definition application_destroy :: "('d, 'a, 'f) application \<Rightarrow> ('d, 'a) teardown list \<times> ('d, 'a, 'f) application" where
  "application_destroy app =
     (destroys app,
      (if app_script_enabled app
       then app\<lparr>app_engine := script_engine_destroy (app_engine app), app_repl := repl_window_destroy (app_repl app)\<rparr>
       else app)
        \<lparr>app_video := (let vp = video_pipeline_stop (app_video app)
           in vp\<lparr>vp_frame := (vp_frame vp)\<lparr>current := None\<rparr>,
                 vp_sock := (if video_fd (vp_sock vp) = None then vp_sock vp else video_socket_destroy (vp_sock vp))\<rparr>),
         app_audio := (let ap = audio_pipeline_stop (app_audio app)
           in ap\<lparr>ap_sock := (if audio_fd (ap_sock ap) = None then ap_sock ap else audio_socket_destroy (ap_sock ap))\<rparr>),
         app_controller := (app_controller app)\<lparr>sock_open := False\<rparr>,
         video_decoder_ptr := False, audio_decoder_ptr := False, player_ptr := False,
         app_renderer := video_renderer_destroy (app_renderer app),
         app_ctx := (app_ctx app)\<lparr>ctx_rtv := False, ctx_swap_chain := False\<rparr>\<rparr>)"

section \<open>Construction\<close>

text \<open>What \<open>application_init\<close> meets: which steps succeed, and the structures they give.\<close>

record ('d, 'a, 'f) init_env =
  com_ok :: bool
  adb_ok :: bool
  window_class_ok :: bool
  window_create_ok :: bool
  d3d_ok :: "bool \<times> bool \<times> bool"
  gpu_ok :: "gpu \<Rightarrow> bool"
  bytecode_ok :: bool
  unit_scale :: "'f \<times> 'f"
  new_video_decoder :: "'d video_decoder option"
  new_audio_decoder :: "'a audio_decoder option"
  new_player :: "audio_player option"
  semaphores :: "bool \<times> bool \<times> bool"
  queue_memory :: "script_msg list"
  repl_class_ok :: bool
  repl_made :: "repl_resource \<Rightarrow> bool"
  repl_subclass_ok :: bool
  control_out :: outbound

text \<open>A socket structure of zeros: its descriptor is 0, which is not \<open>INVALID_SOCKFD\<close>.\<close>

definition zero_fd :: "inbound option" where "zero_fd = Some []"

text \<open>The structures of context and renderer are all zero as well; the scale is not part of them.\<close>

definition zero_context :: d3d_context where
  "zero_context = \<lparr>ctx_width = 0, ctx_height = 0, ctx_swap_chain = False, ctx_rtv = False, presented = 0\<rparr>"

definition zero_renderer :: "'f \<times> 'f \<Rightarrow> 'f video_renderer" where
  "zero_renderer s = \<lparr>made = {}, video_width = 0, video_height = 0, rend_width = 0, rend_height = 0,
     rend_initialized = False, texture = (0, []), scale = s, drawn = 0\<rparr>"

definition application_fields :: "('d, 'a, 'f) application \<Rightarrow> scrcpy_options \<Rightarrow> ('d, 'a, 'f) application" where
  "application_fields mem opts =
     mem\<lparr>app_options := opts, app_running := False, video_decoder_ptr := False, audio_decoder_ptr := False,
         player_ptr := False, app_width := 0, app_height := 0,
         app_video := (app_video mem)\<lparr>vp_sock := video_socket_init zero_fd, vp_frame := shared_frame_init\<rparr>,
         app_audio := (app_audio mem)\<lparr>ap_sock := audio_socket_init zero_fd\<rparr>,
         app_controller := (app_controller mem)\<lparr>sock_open := True\<rparr>, app_ctx := zero_context,
         app_renderer := zero_renderer (scale (app_renderer mem)), rendered := [], resizes := [], app_fault := False, quit_posted := False, looping := False\<rparr>"

definition with_repl :: "repl_window \<Rightarrow> ('d, 'a, 'f) application \<Rightarrow> ('d, 'a, 'f) application" where
  "with_repl win app = app\<lparr>app_repl := win, quit_posted := quit_posted app \<or> quit_sent win\<rparr>"

definition application_script :: "('d, 'a, 'f) init_env \<Rightarrow> ('d, 'a, 'f) application \<Rightarrow> ('d, 'a, 'f) application" where
  "application_script env app =
     (let opts = app_options app
      in if script_path opts = None \<and> script_eval opts = None \<and> \<not> repl opts then app\<lparr>app_script_enabled := False\<rparr>
         else case script_engine_init (semaphores env) (queue_memory env) (script_path opts)
                     (map_option bytes_of (script_eval opts)) of
           None \<Rightarrow> app\<lparr>app_script_enabled := False\<rparr>
         | Some e \<Rightarrow>
             let win = snd (repl_window_init (repl_class_ok env) (repl_made env) (repl_subclass_ok env) False)
             in with_repl (if repl opts then repl_window_show win else win)
                  (app\<lparr>app_script_enabled := True, app_engine := e\<rparr>))"

text \<open>Decoders and player, controller, pipelines and scripting, lines 73 to 107.\<close>

definition application_parts ::
  "('d, 'a, 'f) init_env \<Rightarrow> ('d, 'a, 'f) application \<Rightarrow> bool \<times> ('d, 'a) teardown list \<times> ('d, 'a, 'f) application" where
  "application_parts env app =
     (case (new_video_decoder env, new_audio_decoder env, new_player env) of
        (Some vd, Some ad, Some pl) \<Rightarrow>
          (True, [], application_script env
             (app\<lparr>app_controller := controller_init False (control_out env),
                  app_video := video_pipeline_init vd (video_socket_init None) shared_frame_init,
                  app_audio := audio_pipeline_init ad pl (audio_socket_init None)\<rparr>))
      | _ \<Rightarrow> (case application_destroy app of (ds, app1) \<Rightarrow> (False, ds, app1)))"

text \<open>
  \<open>mem\<close> is what the structure's memory held before. The result has, besides success and the
  structure, what was destroyed on the way.
\<close>

definition application_init ::
  "('d, 'a, 'f) init_env \<Rightarrow> ('d, 'a, 'f) application \<Rightarrow> scrcpy_options \<Rightarrow>
     bool \<times> ('d, 'a) teardown list \<times> ('d, 'a, 'f) application" where
  "application_init env mem opts =
     (let app0 = application_fields mem opts
      in if \<not> com_ok env \<or> \<not> adb_ok env then (False, [], app0)
         else case window_init (window_class_ok env) (window_create_ok env) 800 600 (app_window app0) of
           (False, win) \<Rightarrow> (False, [], app0\<lparr>app_window := win\<rparr>)
         | (True, win) \<Rightarrow>
             let app1 = app0\<lparr>app_window := window_set_callbacks win\<rparr>
             in (case d3d_ok env of (dev_ok, buf_ok, rtv_ok) \<Rightarrow>
                 case d3d_context_init dev_ok buf_ok rtv_ok 800 600 (app_ctx app1) of
                   (False, ctx) \<Rightarrow> (False, [], app1\<lparr>app_ctx := ctx\<rparr>)
                 | (True, ctx) \<Rightarrow>
                 (case video_renderer_init (gpu_ok env) (bytecode_ok env) (unit_scale env) ctx (app_renderer app1) of
                   (False, rend) \<Rightarrow> (False, [Destroy_Graphics], app1\<lparr>app_ctx := ctx, app_renderer := rend\<rparr>)
                 | (True, rend) \<Rightarrow>
                   application_parts env
                     (app1\<lparr>app_ctx := ctx, app_renderer := rend, video_decoder_ptr := new_video_decoder env \<noteq> None,
                           audio_decoder_ptr := new_audio_decoder env \<noteq> None,
                           player_ptr := new_player env \<noteq> None\<rparr>))))"

section \<open>Start\<close>

definition server_config_of :: "scrcpy_options \<Rightarrow> server_config" where
  "server_config_of opts =
     \<lparr>serial = opt_serial opts, server_path = opt_server_path opts, local_port = port opts,
      max_size = opt_max_size opts, video_bit_rate = opt_video_bit_rate opts,
      audio_bit_rate = opt_audio_bit_rate opts, video_encoder = None, audio_encoder = None,
      control = opt_control opts, video = opt_video opts, audio = opt_audio opts\<rparr>"

text \<open>What the run meets: the services and the environment of \<open>server_start\<close>, what the relays
  will put on the two sockets, the libraries, the threads that can be made.\<close>

record ('d, 'a, 'f, 'g) machine =
  srv_services :: services
  srv_env :: start_env
  video_more :: inbound
  audio_more :: inbound
  codecs :: "'d codec_library"
  audio_codecs :: "'a audio_library"
  frame_memory :: "nat \<Rightarrow> bytes option"
  sample_memory :: "nat \<Rightarrow> bool"
  audio_device :: wasapi
  floats :: "'f float_ops"
  doubles :: "'g double_ops"
  gfx :: "('g, 'f) graphics_card"
  resize_ok :: "bool \<times> bool \<times> bool"
  client_area :: "int \<times> int"
  screen_area :: "int \<times> int"
  file_exists :: "string \<Rightarrow> bool"
  exe_path :: "string option"
  scheme_defines :: "script_msg_type \<Rightarrow> bool"
  thread_ok :: bool

definition application_audio ::
  "('d, 'a, 'f, 'g) machine \<Rightarrow> bool \<Rightarrow> 'a audio_pipeline \<Rightarrow> 'a audio_pipeline" where
  "application_audio M wanted ap =
     (case audio_fd (ap_sock ap) of
        None \<Rightarrow> ap
      | Some s \<Rightarrow>
          if \<not> wanted then ap
          else case audio_socket_read_metadata (ap_sock ap) s of
            (False, sock, s1) \<Rightarrow> ap\<lparr>ap_sock := sock\<lparr>audio_fd := Some s1\<rparr>\<rparr>
          | (True, sock, s1) \<Rightarrow>
              let ap1 = ap\<lparr>ap_sock := sock\<lparr>audio_fd := Some s1\<rparr>\<rparr>
              in (case audio_decoder_init (audio_codecs M) (audio_codec_id sock) (unat (sample_rate sock))
                          (unat (audio_channels sock)) (ap_decoder ap) of
                    (False, dec) \<Rightarrow> ap1\<lparr>ap_decoder := dec\<rparr>
                  | (True, dec) \<Rightarrow>
                      ap1\<lparr>ap_decoder := dec,
                          ap_player := snd (audio_player_init (audio_device M) (unat (sample_rate sock))
                                              (unat (audio_channels sock)) (ap_player ap))\<rparr>))"

definition application_video ::
  "('d, 'a, 'f, 'g) machine \<Rightarrow> ('d, 'a, 'f) application \<Rightarrow> bool \<times> ('d, 'a, 'f) application" where
  "application_video M app =
     (let sock = vp_sock (app_video app)
      in if \<not> opt_video (app_options app) \<or> video_codec_id sock = 0 then (True, app)
         else case video_decoder_init (codecs M) (video_codec_id sock) (width sock) (height sock)
                     (vp_decoder (app_video app)) of
           (ok, dec) \<Rightarrow>
             (ok, app\<lparr>app_width := width sock, app_height := height sock,
                      app_video := (app_video app)\<lparr>vp_decoder := dec\<rparr>\<rparr>))"

definition resize_window :: "('d, 'a, 'f, 'g) machine \<Rightarrow> u32 \<Rightarrow> u32 \<Rightarrow> ('d, 'a, 'f) application \<Rightarrow> ('d, 'a, 'f) application" where
  "resize_window M w h app =
     (case application_resize_window_for_video (doubles M) (client_area M) (screen_area M) w h of
        None \<Rightarrow> app | Some s \<Rightarrow> app\<lparr>resizes := resizes app @ [s]\<rparr>)"

text \<open>The window is shown and the engine and the pipelines started, lines 165 to 186. What the script
  thread does before its first message is counted to its start.\<close>

definition start_engine :: "('d, 'a, 'f, 'g) machine \<Rightarrow> script_engine \<Rightarrow> script_engine" where
  "start_engine M e =
     (case script_engine_start (thread_ok M) e of
        (ok, e1) \<Rightarrow> if ok then script_thread_begin (file_exists M) (exe_path M) e1 else e1)"

definition application_go :: "('d, 'a, 'f, 'g) machine \<Rightarrow> ('d, 'a, 'f) application \<Rightarrow> ('d, 'a, 'f) application" where
  "application_go M app =
     (let opts = app_options app;
          app1 = app\<lparr>app_controller := controller_set_enabled (opt_control opts)
                       (controller_set_device_size (app_width app) (app_height app) (app_controller app))\<rparr>;
          app2 = (if app_width app > 0 \<and> app_height app > 0 then resize_window M (app_width app) (app_height app) app1
                  else app1)
      in app2\<lparr>app_running := True,
              app_engine := (if app_script_enabled app then start_engine M (app_engine app) else app_engine app),
              app_video := (if opt_video opts then snd (video_pipeline_start (thread_ok M) (app_video app))
                            else app_video app),
              app_audio := (if opt_audio opts \<and> audio_fd (ap_sock (app_audio app)) \<noteq> None
                            then snd (audio_pipeline_start (thread_ok M) (app_audio app)) else app_audio app),
              looping := True\<rparr>)"

datatype ('d, 'a, 'f) run_start =
    Run_Failed "('d, 'a, 'f) application"
  | Run_Blocked
  | Run_Loop server "pipe_end list" "('d, 'a, 'f) application"

text \<open>A run that fails returns 1; when the decoder is what failed, the server has been killed and freed
  before. \<open>given\<close> are the pipe ends that name the sockets' descriptors.\<close>

definition give_sockets ::
  "('d, 'a, 'f, 'g) machine \<Rightarrow> pipe_end list \<Rightarrow> video_socket \<Rightarrow> ('d, 'a, 'f) application \<Rightarrow> ('d, 'a, 'f) application" where
  "give_sockets M given vsock app =
     app\<lparr>app_video := (app_video app)\<lparr>vp_sock := vsock\<rparr>,
         app_audio := (if Audio_Read \<in> set given
                       then (app_audio app)\<lparr>ap_sock := (ap_sock (app_audio app))\<lparr>audio_fd := Some (audio_more M)\<rparr>\<rparr>
                       else app_audio app),
         app_controller := (if Ctrl_Read \<in> set given then (app_controller app)\<lparr>sock_open := True\<rparr>
                            else app_controller app)\<rparr>"

definition application_start :: "('d, 'a, 'f, 'g) machine \<Rightarrow> ('d, 'a, 'f) application \<Rightarrow> ('d, 'a, 'f) run_start" where
  "application_start M app =
     (let sv = srv_services M
      in case server_start sv (srv_env M) (server_init (server_config_of (app_options app))) (vp_sock (app_video app)) of
        Start_Failed _ dangling \<Rightarrow>
          Run_Failed (give_sockets M dangling
            (if Video_Read \<in> set dangling then (vp_sock (app_video app))\<lparr>video_fd := Some []\<rparr> else vp_sock (app_video app)) app)
      | Start_Blocked _ \<Rightarrow> Run_Blocked
      | Started srv vsock ends \<Rightarrow>
          let app1 = give_sockets M ends (vsock\<lparr>video_fd := map_option (\<lambda>s. s @ video_more M) (video_fd vsock)\<rparr>) app;
              app2 = app1\<lparr>app_audio := application_audio M (opt_audio (app_options app)) (app_audio app1)\<rparr>
          in (case application_video M app2 of
                (False, app3) \<Rightarrow> Run_Failed app3
              | (True, app3) \<Rightarrow> Run_Loop srv ends (application_go M app3)))"

section \<open>Stop\<close>

text \<open>What follows the loop. The result has the pipe ends still open and whether the control sender
  goes on.\<close>

definition application_stop ::
  "('d, 'a, 'f, 'g) machine \<Rightarrow> server \<Rightarrow> pipe_end list \<Rightarrow> ('d, 'a, 'f) application \<Rightarrow>
     pipe_end list \<times> bool \<times> ('d, 'a, 'f) application" where
  "application_stop M srv ends app =
     (let sv = srv_services M;
          srv1 = server_kill sv srv;
          app1 = (if app_script_enabled app then app\<lparr>app_engine := script_engine_stop (app_engine app)\<rparr> else app);
          app2 = app1\<lparr>app_video := video_pipeline_stop (app_video app1), app_audio := audio_pipeline_stop (app_audio app1)\<rparr>
      in case server_destroy sv srv1 ends of (_, open_ends, _, sender) \<Rightarrow> (open_ends, sender, app2))"

section \<open>Window events\<close>

definition on_key_event :: "modifiers \<Rightarrow> u32 \<Rightarrow> bool \<Rightarrow> ('d, 'a, 'f) application \<Rightarrow> ('d, 'a, 'f) application" where
  "on_key_event m vk down app =
     (let app1 = app\<lparr>app_controller := controller_on_key_event m vk down (app_controller app)\<rparr>
      in if app_script_enabled app then app1\<lparr>app_engine := script_dispatch_key_event vk down (app_engine app)\<rparr> else app1)"

definition on_mouse_event ::
  "'f float_ops \<Rightarrow> int \<Rightarrow> int \<Rightarrow> u32 \<Rightarrow> u32 \<Rightarrow> ('d, 'a, 'f) application \<Rightarrow> ('d, 'a, 'f) application" where
  "on_mouse_event F x y buttons action app =
     app\<lparr>app_controller := controller_on_mouse_event F x y buttons action (app_controller app)\<rparr>"

definition on_wheel_event :: "'f float_ops \<Rightarrow> int \<Rightarrow> int \<Rightarrow> int \<Rightarrow> ('d, 'a, 'f) application \<Rightarrow> ('d, 'a, 'f) application" where
  "on_wheel_event F x y delta app = app\<lparr>app_controller := controller_on_wheel_event F x y delta (app_controller app)\<rparr>"

definition on_resize ::
  "('d, 'a, 'f, 'g) machine \<Rightarrow> int \<Rightarrow> int \<Rightarrow> ('d, 'a, 'f) application \<Rightarrow> ('d, 'a, 'f) application" where
  "on_resize M w h app =
     (if w > 0 \<and> h > 0
      then app\<lparr>app_ctx := (case resize_ok M of (swap_ok, buf_ok, rtv_ok) \<Rightarrow>
                 d3d_context_resize swap_ok buf_ok rtv_ok w h (app_ctx app)),
               app_renderer := video_renderer_set_window_size (word_of_int w) (word_of_int h) (app_renderer app),
               app_controller := controller_set_window_size (word_of_int w) (word_of_int h) (app_controller app)\<rparr>
      else app)"

fun window_event :: "('d, 'a, 'f, 'g) machine \<Rightarrow> modifiers \<Rightarrow> window_call \<Rightarrow> ('d, 'a, 'f) application \<Rightarrow> ('d, 'a, 'f) application" where
  "window_event M m (Key_Cb vk down) app = on_key_event m vk down app"
| "window_event M m (Mouse_Cb x y buttons action) app = on_mouse_event (floats M) x y buttons action app"
| "window_event M m (Wheel_Cb x y delta) app = on_wheel_event (floats M) x y delta app"
| "window_event M m (Resize_Cb w h) app = on_resize M w h app"
| "window_event M m Post_Quit app = app\<lparr>quit_posted := True\<rparr>"
| "window_event M m Def_Window_Proc app = app"

text \<open>\<open>DispatchMessage\<close> for a message of the main window.\<close>

definition dispatch :: "('d, 'a, 'f, 'g) machine \<Rightarrow> modifiers \<Rightarrow> win_msg \<Rightarrow> ('d, 'a, 'f) application \<Rightarrow> ('d, 'a, 'f) application" where
  "dispatch M m msg app =
     (case wnd_proc msg (app_window app) of (win, calls) \<Rightarrow> fold (window_event M m) calls (app\<lparr>app_window := win\<rparr>))"

section \<open>The idle turn\<close>

text \<open>The title with the frame rate, updated once a second, is left out.\<close>

definition new_dimensions ::
  "('d, 'a, 'f, 'g) machine \<Rightarrow> video_frame \<Rightarrow> ('d, 'a, 'f) application \<Rightarrow> ('d, 'a, 'f) application" where
  "new_dimensions M f app =
     (let w = word_of_nat (frame_width f); h = word_of_nat (frame_height f)
      in if w \<noteq> app_width app \<or> h \<noteq> app_height app
         then resize_window M w h (app\<lparr>app_width := w, app_height := h,
                                      app_controller := controller_set_device_size w h (app_controller app)\<rparr>)
         else app)"

definition take_frame :: "('d, 'a, 'f) application \<Rightarrow> video_frame option \<times> ('d, 'a, 'f) application" where
  "take_frame app =
     (case shared_frame_acquire (vp_frame (app_video app)) of
        (f, sf) \<Rightarrow> (f, app\<lparr>app_video := (app_video app)\<lparr>vp_frame := sf\<rparr>\<rparr>))"

definition draw ::
  "('d, 'a, 'f, 'g) machine \<Rightarrow> video_frame \<Rightarrow> ('d, 'a, 'f) application \<Rightarrow> ('d, 'a, 'f) application" where
  "draw M f app =
     (case video_renderer_render (gfx M) (app_renderer app) f of
        None \<Rightarrow> app\<lparr>app_fault := True, rendered := rendered app @ [f]\<rparr>
      | Some (_, rend) \<Rightarrow>
          app\<lparr>app_renderer := rend, app_ctx := d3d_context_end_frame (app_ctx app), rendered := rendered app @ [f]\<rparr>)"

definition render_latest :: "('d, 'a, 'f, 'g) machine \<Rightarrow> ('d, 'a, 'f) application \<Rightarrow> ('d, 'a, 'f) application" where
  "render_latest M app =
     (case take_frame app of
        (None, app1) \<Rightarrow> app1
      | (Some f, app1) \<Rightarrow> draw M f (new_dimensions M f app1))"

text \<open>The query callbacks. Every one sends one response.\<close>

definition respond :: "script_msg \<Rightarrow> ('d, 'a, 'f) application \<Rightarrow> ('d, 'a, 'f) application" where
  "respond m app =
     app\<lparr>app_engine := (app_engine app)\<lparr>response_q := snd (script_msg_queue_send m (response_q (app_engine app)))\<rparr>\<rparr>"

definition on_script_query_device_info :: "('d, 'a, 'f) application \<Rightarrow> ('d, 'a, 'f) application" where
  "on_script_query_device_info app =
     respond (script_fill_device_info (app_width app) (app_height app) (Some (bytes_of ''Android Device''))
       (video_fd (vp_sock (app_video app)) \<noteq> None)) app"

definition on_script_query_video_size :: "('d, 'a, 'f) application \<Rightarrow> ('d, 'a, 'f) application" where
  "on_script_query_video_size app = respond (script_fill_video_size (app_width app) (app_height app)) app"

definition on_script_query_window_size :: "int \<times> int \<Rightarrow> ('d, 'a, 'f) application \<Rightarrow> ('d, 'a, 'f) application" where
  "on_script_query_window_size client app =
     respond (script_fill_window_size (word_of_int (fst client)) (word_of_int (snd client))) app"

definition on_script_query_clipboard :: "('d, 'a, 'f) application \<Rightarrow> ('d, 'a, 'f) application" where
  "on_script_query_clipboard app = respond (script_fill_clipboard (Some [])) app"

definition on_script_query_frame_capture :: "('d, 'a, 'f) application \<Rightarrow> ('d, 'a, 'f) application" where
  "on_script_query_frame_capture app =
     (case take_frame app of (got, app1) \<Rightarrow>
        let resp = (case got of
              Some f \<Rightarrow>
                if nv12_data f \<noteq> None \<and> frame_width f > 0 \<and> frame_height f > 0
                then let w = word_of_nat (frame_width f) :: u32; h = word_of_nat (frame_height f)
                     in script_fill_frame_capture (nv12_data f) w h (unat (w * h * 3 div 2))
                else script_fill_frame_capture None 0 0 0
            | None \<Rightarrow> script_fill_frame_capture None 0 0 0)
        in (case resp of None \<Rightarrow> app1\<lparr>app_fault := True\<rparr> | Some m \<Rightarrow> respond m app1))"

text \<open>The callbacks that are given are those for the queries; for the commands there are null pointers.\<close>

definition given_callbacks :: "script_msg_type \<Rightarrow> bool" where
  "given_callbacks t \<longleftrightarrow>
     t \<in> {MSG_QUERY_DEVICE_INFO, MSG_QUERY_VIDEO_SIZE, MSG_QUERY_WINDOW_SIZE, MSG_QUERY_CLIPBOARD, MSG_QUERY_FRAME_CAPTURE}"

fun script_callback :: "int \<times> int \<Rightarrow> main_call \<Rightarrow> ('d, 'a, 'f) application \<Rightarrow> ('d, 'a, 'f) application" where
  "script_callback client On_Query_Device_Info app = on_script_query_device_info app"
| "script_callback client On_Query_Video_Size app = on_script_query_video_size app"
| "script_callback client On_Query_Window_Size app = on_script_query_window_size client app"
| "script_callback client On_Query_Clipboard app = on_script_query_clipboard app"
| "script_callback client On_Query_Frame_Capture app = on_script_query_frame_capture app"
| "script_callback client _ app = app"

definition process_script :: "int \<times> int \<Rightarrow> ('d, 'a, 'f) application \<Rightarrow> ('d, 'a, 'f) application" where
  "process_script client app =
     (if \<not> app_script_enabled app then app
      else case script_process_messages given_callbacks (script_callback client) (to_main (app_engine app)) app of
        (_, q, app1) \<Rightarrow> app1\<lparr>app_engine := (app_engine app1)\<lparr>to_main := q\<rparr>\<rparr>)"

definition idle_turn :: "('d, 'a, 'f, 'g) machine \<Rightarrow> ('d, 'a, 'f) application \<Rightarrow> ('d, 'a, 'f) application" where
  "idle_turn M app = process_script (client_area M) (render_latest M app)"

section \<open>The threads, turn by turn\<close>

text \<open>
  A turn of the main loop takes a message of the main window (with the modifier keys down), of the
  REPL's input or of its window, the quit message, or is idle; the flag of a message says whether
  \<open>IsDialogMessage\<close> takes it. The other turns are those of the pipelines' threads and of the script
  thread, which runs Scheme code that gives commands. A thread in a call that does not return
  makes no turn.
\<close>

datatype turn =
    Window_Message bool modifiers win_msg
  | Repl_Input_Message bool repl_input_msg
  | Repl_Message bool repl_msg
  | Quit_Message
  | Idle
  | Video_Turn bool
  | Audio_Turn "nat \<times> bool"
  | Script_Turn
  | Script_Gives script_command

definition repl_takes :: "bool \<Rightarrow> ('d, 'a, 'f) application \<Rightarrow> bool" where
  "repl_takes dialog app \<longleftrightarrow> app_script_enabled app \<and> repl_window_process_message dialog (app_repl app)"

text \<open>Only a window that exists gets messages.\<close>

definition repl_gets :: "repl_resource \<Rightarrow> ('d, 'a, 'f) application \<Rightarrow> bool" where
  "repl_gets r app \<longleftrightarrow> app_script_enabled app \<and> r \<in> live (app_repl app)"

fun main_turn :: "('d, 'a, 'f, 'g) machine \<Rightarrow> turn \<Rightarrow> ('d, 'a, 'f) application \<Rightarrow> ('d, 'a, 'f) application" where
  "main_turn M (Window_Message dialog m msg) app = (if repl_takes dialog app then app else dispatch M m msg app)"
| "main_turn M (Repl_Input_Message dialog msg) app =
     (if repl_takes dialog app \<or> \<not> repl_gets Repl_Input app then app
      else with_repl (snd (repl_input_subclass_proc True msg (app_repl app))) app)"
| "main_turn M (Repl_Message dialog msg) app =
     (if repl_takes dialog app \<or> \<not> repl_gets Repl_Window app then app
      else with_repl (snd (repl_wnd_proc True True msg (app_repl app))) app)"
| "main_turn M Quit_Message app = (if quit_posted app then app\<lparr>looping := False\<rparr> else app)"
| "main_turn M Idle app = idle_turn M app"
| "main_turn M _ app = app"

fun thread_turn :: "('d, 'a, 'f, 'g) machine \<Rightarrow> turn \<Rightarrow> ('d, 'a, 'f) application \<Rightarrow> ('d, 'a, 'f) application" where
  "thread_turn M (Video_Turn calloc_ok) app =
     (case video_thread_turn (codecs M) (frame_memory M) calloc_ok (app_video app) of
        None \<Rightarrow> app | Some vp \<Rightarrow> app\<lparr>app_video := vp\<rparr>)"
| "thread_turn M (Audio_Turn device) app =
     app\<lparr>app_audio := audio_thread_turn (audio_codecs M) (sample_memory M) device (app_audio app)\<rparr>"
| "thread_turn M Script_Turn app = app\<lparr>app_engine := script_thread_turn (scheme_defines M) (app_engine app)\<rparr>"
| "thread_turn M (Script_Gives c) app =
     app\<lparr>app_engine := (app_engine app)\<lparr>to_main := the (script_command c (Some (to_main (app_engine app))))\<rparr>\<rparr>"
| "thread_turn M _ app = app"

definition app_turn :: "('d, 'a, 'f, 'g) machine \<Rightarrow> turn \<Rightarrow> ('d, 'a, 'f) application \<Rightarrow> ('d, 'a, 'f) application" where
  "app_turn M t app = thread_turn M t (if looping app \<and> app_running app then main_turn M t app else app)"

definition application_loop ::
  "('d, 'a, 'f, 'g) machine \<Rightarrow> turn list \<Rightarrow> ('d, 'a, 'f) application \<Rightarrow> ('d, 'a, 'f) application" where
  "application_loop M turns app = fold (app_turn M) turns app"

section \<open>The run\<close>

text \<open>\<open>turns\<close> are those up to the end of the loop; the result is \<open>None\<close> for a run that has not ended, in
  the start of the server or in the loop.\<close>

definition application_run ::
  "('d, 'a, 'f, 'g) machine \<Rightarrow> turn list \<Rightarrow> ('d, 'a, 'f) application \<Rightarrow> (int \<times> ('d, 'a, 'f) application) option" where
  "application_run M turns app =
     (case application_start M app of
        Run_Failed app1 \<Rightarrow> Some (1, app1)
      | Run_Blocked \<Rightarrow> None
      | Run_Loop srv ends app1 \<Rightarrow>
          let app2 = application_loop M turns app1
          in if looping app2 then None
             else case application_stop M srv ends app2 of (_, _, app3) \<Rightarrow> Some (0, app3))"

end
