(* ===== verification/Main_Loop.thy ===== *)
theory Main_Loop
  imports Application
begin

text \<open>
  Properties of the application as a whole: its construction and destruction, what the main loop
  keeps, and the paths through it, from the window to the device and from Scheme code to the
  window's thread and back.
\<close>

section \<open>The stages of the initialisation\<close>

definition new_context :: d3d_context where
  "new_context = snd (d3d_context_init True True True 800 600 zero_context)"

definition new_renderer :: "('d, 'a, 'f) init_env \<Rightarrow> 'f video_renderer" where
  "new_renderer env = snd (video_renderer_init (gpu_ok env) True (unit_scale env) new_context (zero_renderer (unit_scale env)))"

text \<open>The structure when window, context and renderer have been made.\<close>

definition with_stages ::
  "('d, 'a, 'f) init_env \<Rightarrow> ('d, 'a, 'f) application \<Rightarrow> scrcpy_options \<Rightarrow> ('d, 'a, 'f) application" where
  "with_stages env mem opts =
     (application_fields mem opts)
       \<lparr>app_window := window_set_callbacks (snd (window_init True True 800 600 (app_window mem))),
        app_ctx := new_context, app_renderer := new_renderer env, video_decoder_ptr := new_video_decoder env \<noteq> None,
        audio_decoder_ptr := new_audio_decoder env \<noteq> None, player_ptr := new_player env \<noteq> None\<rparr>"

text \<open>The structure before the last step, scripting.\<close>

definition initialised ::
  "('d, 'a, 'f) init_env \<Rightarrow> ('d, 'a, 'f) application \<Rightarrow> scrcpy_options \<Rightarrow> ('d, 'a, 'f) application" where
  "initialised env mem opts =
     (with_stages env mem opts)
       \<lparr>app_controller := controller_init False (control_out env),
        app_video := video_pipeline_init (the (new_video_decoder env)) (video_socket_init None) shared_frame_init,
        app_audio := audio_pipeline_init (the (new_audio_decoder env)) (the (new_player env)) (audio_socket_init None)\<rparr>"

definition renderer_needs :: "gpu set" where
  "renderer_needs = {Vertex_Buffer, Index_Buffer, Constant_Buffer, Sampler, Vertex_Shader, Pixel_Shader, Input_Layout}"

definition stages_work :: "('d, 'a, 'f) init_env \<Rightarrow> bool" where
  "stages_work env \<longleftrightarrow>
     com_ok env \<and> adb_ok env \<and> window_class_ok env \<and> window_create_ok env \<and> d3d_ok env = (True, True, True) \<and>
     (\<forall>g \<in> renderer_needs. gpu_ok env g) \<and> bytecode_ok env"

definition init_works :: "('d, 'a, 'f) init_env \<Rightarrow> bool" where
  "init_works env \<longleftrightarrow>
     stages_work env \<and> new_video_decoder env \<noteq> None \<and> new_audio_decoder env \<noteq> None \<and> new_player env \<noteq> None"

lemma context_made: "fst (d3d_context_init a b c w h ctx) \<longleftrightarrow> a \<and> b \<and> c"
  by (simp add: d3d_context_init_def Let_def)

lemma renderer_made:
  "fst (video_renderer_init mk bytecode s ctx rend) \<longleftrightarrow>
     (\<forall>g \<in> renderer_needs. mk g) \<and> bytecode"
  by (auto simp: renderer_needs_def video_renderer_init_def shader_init_def Let_def)

lemma renderer_initialised:
  assumes "\<forall>g \<in> renderer_needs. gpu_ok env g"
  shows "video_renderer_init (gpu_ok env) True (unit_scale env) new_context (zero_renderer s) = (True, new_renderer env)"
  using assms by (simp add: renderer_needs_def new_renderer_def video_renderer_init_def shader_init_def zero_renderer_def Let_def)

lemma init_stages:
  assumes "stages_work env"
  shows "application_init env mem opts = application_parts env (with_stages env mem opts)"
proof -
  let ?mem = "application_fields mem opts"
  have f: "app_window ?mem = app_window mem" "app_ctx ?mem = zero_context"
    "app_renderer ?mem = zero_renderer (scale (app_renderer mem))" by (simp_all add: application_fields_def)
  obtain win where win: "window_init True True 800 600 (app_window mem) = (True, win)" by (simp add: window_init_def)
  have c: "d3d_context_init True True True 800 600 zero_context = (True, new_context)"
    by (simp add: new_context_def d3d_context_init_def)
  have flags: "com_ok env" "adb_ok env" "window_class_ok env" "window_create_ok env" "d3d_ok env = (True, True, True)"
    "bytecode_ok env" and g: "\<forall>g \<in> renderer_needs. gpu_ok env g"
    using assms by (simp_all add: stages_work_def)
  show ?thesis
    unfolding application_init_def with_stages_def Let_def by (simp add: flags f win c renderer_initialised [OF g])
qed

lemma init_success: "init_works env \<Longrightarrow> application_init env mem opts = (True, [], application_script env (initialised env mem opts))"
  by (auto simp: init_works_def init_stages application_parts_def initialised_def with_stages_def)

lemma init_successD:
  assumes "application_init env mem opts = (True, ds, app)"
  shows "init_works env" and "ds = []" and "app = application_script env (initialised env mem opts)"
proof -
  obtain a b c where d3d: "d3d_ok env = (a, b, c)" by (rule prod_cases3)
  obtain wo win where w: "window_init (window_class_ok env) (window_create_ok env) 800 600 (app_window mem) = (wo, win)" by fastforce
  obtain co ctx where x: "d3d_context_init a b c 800 600 zero_context = (co, ctx)" by fastforce
  obtain ro rend where r: "video_renderer_init (gpu_ok env) (bytecode_ok env) (unit_scale env) ctx
      (zero_renderer (scale (app_renderer mem))) = (ro, rend)" by fastforce
  have f: "app_window (application_fields mem opts) = app_window mem" "app_ctx (application_fields mem opts) = zero_context"
    "app_renderer (application_fields mem opts) = zero_renderer (scale (app_renderer mem))"
    by (simp_all add: application_fields_def)
  have oks: "com_ok env \<and> adb_ok env \<and> wo \<and> co \<and> ro"
    using assms by (auto simp: application_init_def Let_def f d3d w x r split: if_splits bool.splits)
  have "wo \<longleftrightarrow> window_class_ok env \<and> window_create_ok env" using w by (auto simp: window_init_def Let_def split: if_splits)
  then have "stages_work env"
    using oks context_made [of a b c 800 600 zero_context, unfolded x]
      renderer_made [of "gpu_ok env" "bytecode_ok env" "unit_scale env" ctx "zero_renderer (scale (app_renderer mem))", unfolded r]
    by (simp add: stages_work_def d3d)
  then show works: "init_works env"
    using assms by (auto simp: init_works_def init_stages application_parts_def application_destroy_def split: option.splits)
  show "ds = []" "app = application_script env (initialised env mem opts)"
    using assms init_success [OF works, of mem opts] by simp_all
qed

section \<open>Sizes\<close>

named_theorems same_size \<open>operations that keep the device size of the controller\<close>

lemma send_control_size [same_size]:
  "device_width (send_control ty args c) = device_width c" "device_height (send_control ty args c) = device_height c"
  by (simp_all add: send_control_def split: prod.split)

lemma key_event_size [same_size]:
  "device_width (controller_on_key_event m vk down c) = device_width c"
  "device_height (controller_on_key_event m vk down c) = device_height c"
  by (simp_all add: controller_on_key_event_def regular_key_def press_release_def send_keycode_def send_display_power_def
      same_size Let_def)

lemma pointer_event_size [same_size]:
  "device_width (controller_on_mouse_event F x y buttons action c) = device_width c"
  "device_height (controller_on_mouse_event F x y buttons action c) = device_height c"
  "device_width (controller_on_wheel_event F x y delta c) = device_width c"
  "device_height (controller_on_wheel_event F x y delta c) = device_height c"
  by (simp_all add: controller_on_mouse_event_def controller_on_wheel_event_def same_size Let_def split: prod.split)

text \<open>
  The application and its controller have the same device size, and once a frame has been drawn
  it is the size of the last one.
\<close>

definition sizes_agree :: "('d, 'a, 'f) application \<Rightarrow> bool" where
  "sizes_agree app \<longleftrightarrow>
     device_width (app_controller app) = app_width app \<and> device_height (app_controller app) = app_height app \<and>
     (rendered app \<noteq> [] \<longrightarrow>
        app_width app = word_of_nat (frame_width (last (rendered app))) \<and>
        app_height app = word_of_nat (frame_height (last (rendered app))))"

lemma process_invariant:
  assumes "script_process_messages cbs act q s = (n, q', s')" and "P s" and "\<And>c s. P s \<Longrightarrow> P (act c s)"
  shows "P s'"
  using assms
proof (induction cbs act q s arbitrary: n q' s' rule: script_process_messages.induct)
  case (1 cbs act q s)
  obtain m q1 where r: "script_msg_queue_try_recv q = (m, q1)" by (cases "script_msg_queue_try_recv q")
  show ?case
  proof (cases m)
    case None
    then show ?thesis using 1(2,3) r by (subst (asm) script_process_messages.simps) simp
  next
    case (Some x)
    let ?s = "case main_call_of cbs x of None \<Rightarrow> s | Some c \<Rightarrow> act c s"
    obtain k q2 s2 where p: "script_process_messages cbs act q1 ?s = (k, q2, s2)"
      by (cases "script_process_messages cbs act q1 ?s") auto
    have "P ?s" using 1(3,4) by (cases "main_call_of cbs x") simp_all
    then have "P s2" using 1(1) [OF r [symmetric, unfolded Some] refl] Some p 1(4) by blast
    moreover have "s' = s2" using 1(2) r p Some by (subst (asm) script_process_messages.simps) simp
    ultimately show ?thesis by simp
  qed
qed

lemma process_script_invariant:
  assumes "P app" and "\<And>c a. P a \<Longrightarrow> P (script_callback client c a)"
    and "\<And>a q. P a \<Longrightarrow> P (a\<lparr>app_engine := (app_engine a)\<lparr>to_main := q\<rparr>\<rparr>)"
  shows "P (process_script client app)"
proof -
  obtain n q app1 where p: "script_process_messages given_callbacks (script_callback client) (to_main (app_engine app)) app =
      (n, q, app1)" by (cases "script_process_messages given_callbacks (script_callback client) (to_main (app_engine app)) app") auto
  have "P app1" using process_invariant [OF p, of P] assms(1,2) by blast
  then show ?thesis using assms(1,3) p by (simp add: process_script_def)
qed

text \<open>What the steps of the main loop and the turns of the threads keep holds at every moment of a run.\<close>

locale loop_invariant =
  fixes M :: "('d, 'a, 'f, 'g) machine"
    and P :: "('d, 'a, 'f) application \<Rightarrow> bool"
  assumes render_keeps_it: "P app \<Longrightarrow> P (render_latest M app)"
    and process_keeps_it: "P app \<Longrightarrow> P (process_script (client_area M) app)"
    and event_keeps_it: "P app \<Longrightarrow> P (window_event M m c app)"
    and window_keeps_it: "P app \<Longrightarrow> P (app\<lparr>app_window := win\<rparr>)"
    and repl_keeps_it: "P app \<Longrightarrow> live r = live (app_repl app) \<Longrightarrow>
      repl_initialized r = repl_initialized (app_repl app) \<Longrightarrow> P (with_repl r app)"
    and quit_keeps_it: "P app \<Longrightarrow> P (app\<lparr>looping := b\<rparr>)"
    and thread_keeps_it: "P app \<Longrightarrow> P (thread_turn M t app)"
begin

lemma events_keep_it: "P app \<Longrightarrow> P (fold (window_event M m) calls app)"
  by (induction calls arbitrary: app) (simp_all add: event_keeps_it)

lemma dispatch_keeps_it: "P app \<Longrightarrow> P (dispatch M m msg app)"
  by (simp add: dispatch_def events_keep_it window_keeps_it split: prod.split)

lemma main_turn_keeps_it: "P app \<Longrightarrow> P (main_turn M t app)"
  by (cases t) (simp_all add: dispatch_keeps_it idle_turn_def render_keeps_it process_keeps_it quit_keeps_it
      repl_keeps_it repl_procs_keep)

lemma turn_keeps_it: "P app \<Longrightarrow> P (app_turn M t app)"
  by (simp add: app_turn_def main_turn_keeps_it thread_keeps_it)

lemma loop_keeps_it: "P app \<Longrightarrow> P (application_loop M turns app)"
  unfolding application_loop_def by (induction turns arbitrary: app) (simp_all add: turn_keeps_it)

end

lemma new_dimensions_sizes:
  assumes "sizes_agree app"
  shows "sizes_agree (draw M f (new_dimensions M f app))"
  using assms
  by (auto simp: sizes_agree_def draw_def new_dimensions_def resize_window_def controller_set_device_size_def Let_def
      split: option.split prod.split)

lemma take_frame_sizes: "take_frame app = (f, app1) \<Longrightarrow> sizes_agree app \<Longrightarrow> sizes_agree app1"
  by (auto simp: take_frame_def sizes_agree_def split: prod.splits)

lemma render_sizes:
  assumes "sizes_agree app"
  shows "sizes_agree (render_latest M app)"
proof -
  obtain f app1 where t: "take_frame app = (f, app1)" by (cases "take_frame app")
  then show ?thesis
    using new_dimensions_sizes [OF take_frame_sizes [OF t assms]] take_frame_sizes [OF t assms]
    by (cases f) (simp_all add: render_latest_def Let_def)
qed

lemma callback_sizes: "sizes_agree app \<Longrightarrow> sizes_agree (script_callback client c app)"
  by (cases c) (auto simp: sizes_agree_def on_script_query_device_info_def on_script_query_video_size_def
      on_script_query_window_size_def on_script_query_clipboard_def on_script_query_frame_capture_def respond_def
      take_frame_def Let_def split: prod.split option.split)

lemma process_sizes: "sizes_agree app \<Longrightarrow> sizes_agree (process_script client app)"
  by (rule process_script_invariant) (simp_all add: callback_sizes, simp add: sizes_agree_def)

lemma event_sizes: "sizes_agree app \<Longrightarrow> sizes_agree (window_event M m c app)"
  by (cases c) (simp_all add: sizes_agree_def on_key_event_def on_mouse_event_def on_wheel_event_def on_resize_def
      controller_set_window_size_def same_size Let_def)

lemma thread_sizes: "sizes_agree app \<Longrightarrow> sizes_agree (thread_turn M t app)"
  by (cases t) (auto simp: sizes_agree_def split: option.split)

interpretation sizes: loop_invariant M sizes_agree for M
  by unfold_locales (simp_all add: render_sizes process_sizes event_sizes thread_sizes, simp_all add: sizes_agree_def with_repl_def)

text \<open>From any memory contents a run starts with sizes that agree.\<close>

lemma go_sizes: "rendered app = [] \<Longrightarrow> sizes_agree (application_go M app)"
  by (simp add: application_go_def sizes_agree_def resize_window_def controller_set_enabled_def
      controller_set_device_size_def Let_def split: option.split)

lemma start_sizes:
  assumes "application_start M app = Run_Loop srv ends app1" and "rendered app = []"
  shows "sizes_agree app1"
proof -
  obtain app2 where "app1 = application_go M app2" "rendered app2 = []"
    using assms
    by (auto simp: application_start_def application_video_def give_sockets_def Let_def
        split: start_outcome.splits prod.splits bool.splits if_splits)
  then show ?thesis by (simp add: go_sizes)
qed

lemma script_rendered: "rendered (application_script env app) = rendered app"
  by (simp add: application_script_def with_repl_def Let_def split: option.split)

lemma init_rendered: "application_init env mem opts = (True, ds, app) \<Longrightarrow> rendered app = []"
  by (drule init_successD(3)) (simp add: script_rendered initialised_def with_stages_def application_fields_def)

text \<open>C8. After a successful initialisation and start, at every moment of the run, whatever messages the
  window gets and however the turns of the threads fall between them: the device size that the
  controller scales positions to is the application's, and from the first frame drawn on both
  are the dimensions of the frame drawn last, so that a rotation of the device reaches the
  controller with the first picture in the new orientation.\<close>

theorem device_size_follows_frames:
  assumes "application_init env mem opts = (True, ds, app0)" and "application_start M app0 = Run_Loop srv ends app1"
    and "app = application_loop M turns app1"
  shows "device_width (app_controller app) = app_width app \<and> device_height (app_controller app) = app_height app \<and>
     (rendered app \<noteq> [] \<longrightarrow>
        device_width (app_controller app) = word_of_nat (frame_width (last (rendered app))) \<and>
        device_height (app_controller app) = word_of_nat (frame_height (last (rendered app))))"
  using sizes.loop_keeps_it [OF start_sizes [OF assms(2) init_rendered [OF assms(1)]], of M turns] assms(3)
  by (simp add: sizes_agree_def)

section \<open>Commands of Scheme code\<close>

lemma loop_gives:
  "\<exists>q. fold script_command cs (Some (to_main (app_engine app))) = Some q \<and>
     application_loop M (map Script_Gives cs) app = app\<lparr>app_engine := (app_engine app)\<lparr>to_main := q\<rparr>\<rparr>"
proof (induction cs arbitrary: app)
  case Nil
  then show ?case by (simp add: application_loop_def)
next
  case (Cons c cs)
  obtain q where q: "script_command c (Some (to_main (app_engine app))) = Some q"
    by (cases "command_msg c"; cases "script_msg_queue_send (the (command_msg c)) (to_main (app_engine app))")
      (auto simp: script_command_def send_msg_def)
  have t: "app_turn M (Script_Gives c) app = app\<lparr>app_engine := (app_engine app)\<lparr>to_main := q\<rparr>\<rparr>"
    by (simp add: app_turn_def q)
  show ?case
    using Cons.IH [of "app\<lparr>app_engine := (app_engine app)\<lparr>to_main := q\<rparr>\<rparr>"] q t by (simp add: application_loop_def)
qed

lemma render_engine:
  "render_latest M (app\<lparr>app_engine := e\<rparr>) = (render_latest M app)\<lparr>app_engine := e\<rparr>"
proof -
  have "take_frame (app\<lparr>app_engine := e\<rparr>) = (let (f, app1) = take_frame app in (f, app1\<lparr>app_engine := e\<rparr>))"
    by (simp add: take_frame_def split: prod.split)
  moreover have "new_dimensions M f (app1\<lparr>app_engine := e\<rparr>) = (new_dimensions M f app1)\<lparr>app_engine := e\<rparr>" for f app1
    by (simp add: new_dimensions_def resize_window_def Let_def split: option.split)
  moreover have "draw M f (app1\<lparr>app_engine := e\<rparr>) = (draw M f app1)\<lparr>app_engine := e\<rparr>" for f app1
    by (simp add: draw_def split: option.split prod.split)
  ultimately show ?thesis by (simp add: render_latest_def split: prod.split option.split)
qed

lemma render_keeps:
  "app_engine (render_latest M app) = app_engine app" "app_script_enabled (render_latest M app) = app_script_enabled app"
  "sock_out (app_controller (render_latest M app)) = sock_out (app_controller app)"
  by (simp_all add: render_latest_def draw_def take_frame_def new_dimensions_def resize_window_def controller_set_device_size_def Let_def
      split: prod.split option.split)

lemma commands_ignored: "command_msg c = Some m \<Longrightarrow> main_call_of given_callbacks m = None"
  by (cases c) (auto simp: main_call_of_def given_callbacks_def text_msg_def split: option.splits)

lemma commands_call_nothing: "call_all given_callbacks act (commands_msgs cs) s = s"
proof (induction cs arbitrary: s)
  case Nil
  then show ?case by (simp add: call_all_def commands_msgs_def List.map_filter_def)
next
  case (Cons c cs)
  then show ?case
    using commands_ignored [of c]
    by (cases "command_msg c") (auto simp: call_all_def commands_msgs_def List.map_filter_def)
qed

lemma idle_at_rest:
  assumes "app_script_enabled app" and "at_rest (to_main (app_engine app))"
  shows "\<exists>q. at_rest q \<and> ring_list q = [] \<and>
     (let app1 = call_all given_callbacks (script_callback (client_area M)) (ring_list (to_main (app_engine app))) (render_latest M app)
      in idle_turn M app = app1\<lparr>app_engine := (app_engine app1)\<lparr>to_main := q\<rparr>\<rparr>)"
  using process_at_rest [OF assms(2), of given_callbacks "script_callback (client_area M)" "render_latest M app"] assms(1)
  by (auto simp: idle_turn_def process_script_def render_keeps Let_def)

text \<open>C18. No command of a script reaches the device: the up to 256 key codes, texts, touches and other
  commands that Scheme code gives between two looks of the main loop at its messages are taken
  from the queue by the next idle turn, which otherwise does exactly what it would have done
  without them, and sends nothing to the device.\<close>

theorem script_commands_lost:
  assumes "app_script_enabled app" and "script_msg_queue_init True zeroed = Some (to_main (app_engine app))"
    and "length zeroed = 256" and "length cs \<le> 256" and "app1 = application_loop M (map Script_Gives cs) app"
  shows "\<exists>q. idle_turn M app1 = (render_latest M app)\<lparr>app_engine := (app_engine app)\<lparr>to_main := q\<rparr>\<rparr> \<and> ring_list q = [] \<and>
     sock_out (app_controller (idle_turn M app1)) = sock_out (app_controller app)"
proof -
  note r = init_at_rest [OF assms(2,3)]
  obtain tm where tm: "fold script_command cs (Some (to_main (app_engine app))) = Some tm"
    "app1 = app\<lparr>app_engine := (app_engine app)\<lparr>to_main := tm\<rparr>\<rparr>" using loop_gives assms(5) by metis
  have at: "at_rest tm" "ring_list tm = commands_msgs cs"
    using script_commands_queue [of "to_main (app_engine app)" cs] r assms(4) tm(1) by auto
  have "app_script_enabled app1" "at_rest (to_main (app_engine app1))" using assms(1) at(1) tm(2) by simp_all
  from idle_at_rest [OF this, of M] obtain q where
    "ring_list q = []" "idle_turn M app1 = (render_latest M app1)\<lparr>app_engine := (app_engine app1)\<lparr>to_main := q\<rparr>\<rparr>"
    by (auto simp: tm(2) at(2) commands_call_nothing render_keeps Let_def)
  then show ?thesis by (intro exI [of _ q]) (simp add: tm(2) render_engine render_keeps)
qed

section \<open>Queries of Scheme code\<close>

text \<open>A query during which the main loop makes one idle turn.\<close>

definition app_queues :: "('d, 'a, 'f) application \<Rightarrow> script_queues" where
  "app_queues app = (Some (to_main (app_engine app)), Some (response_q (app_engine app)))"

definition main_answers :: "('d, 'a, 'f, 'g) machine \<Rightarrow> ('d, 'a, 'f) application \<Rightarrow> script_queues \<Rightarrow> script_queues" where
  "main_answers M app qs =
     (case qs of
        (Some tm, Some rq) \<Rightarrow>
          app_queues (idle_turn M (app\<lparr>app_engine := (app_engine app)\<lparr>to_main := tm, response_q := rq\<rparr>\<rparr>))
      | _ \<Rightarrow> qs)"

definition engine_at_rest :: "('d, 'a, 'f) application \<Rightarrow> bool" where
  "engine_at_rest app \<longleftrightarrow>
     app_script_enabled app \<and> at_rest (to_main (app_engine app)) \<and> ring_list (to_main (app_engine app)) = [] \<and>
     at_rest (response_q (app_engine app)) \<and> ring_list (response_q (app_engine app)) = []"

lemma query_answered:
  assumes "engine_at_rest app" and "main_call_of given_callbacks (new_msg t 0 []) = Some c"
    and "\<And>e. \<exists>app2. script_callback (client_area M) c ((render_latest M app)\<lparr>app_engine := e\<rparr>) = respond r app2 \<and> app_engine app2 = e"
  shows "fst (query_sync (main_answers M app) t (app_queues app)) = Some r"
proof -
  let ?e = "app_engine app" and ?m = "new_msg t 0 []"
  obtain tm where tm: "script_msg_queue_send ?m (to_main ?e) = (True, tm)" "at_rest tm" "ring_list tm = [?m]"
    using send_at_rest [of "to_main ?e" ?m] assms(1) by (auto simp: engine_at_rest_def simp del: length_ring_list)
  obtain rq where rq: "script_msg_queue_send r (response_q ?e) = (True, rq)" "at_rest rq" "ring_list rq = [r]"
    using send_at_rest [of "response_q ?e" r] assms(1) by (auto simp: engine_at_rest_def simp del: length_ring_list)
  let ?app = "app\<lparr>app_engine := ?e\<lparr>to_main := tm\<rparr>\<rparr>"
  obtain app2 where app2: "script_callback (client_area M) c ((render_latest M app)\<lparr>app_engine := ?e\<lparr>to_main := tm\<rparr>\<rparr>) =
      respond r app2" "app_engine app2 = ?e\<lparr>to_main := tm\<rparr>" using assms(3) by blast
  have "app_script_enabled ?app" "at_rest (to_main (app_engine ?app))" using assms(1) tm(2) by (simp_all add: engine_at_rest_def)
  from idle_at_rest [OF this, of M] obtain q where
    "idle_turn M ?app = (respond r app2)\<lparr>app_engine := (app_engine (respond r app2))\<lparr>to_main := q\<rparr>\<rparr>"
    by (auto simp: tm(3) call_all_def assms(2) render_engine app2(1) Let_def)
  then have "app_queues (idle_turn M ?app) = (Some q, Some rq)"
    by (simp add: app_queues_def respond_def app2(2) rq(1))
  then have m: "main_answers M app (Some tm, Some (response_q ?e)) = (Some q, Some rq)" by (simp add: main_answers_def)
  obtain rq1 where "script_msg_queue_try_recv rq = (Some r, rq1)" using try_recv_at_rest [OF rq(2,3)] by blast
  then show ?thesis by (simp add: query_sync_def app_queues_def tm(1) m)
qed

text \<open>What the five queries give Scheme code when the loop is idle once while it waits.\<close>

definition queries_give ::
  "('d, 'a, 'f, 'g) machine \<Rightarrow> ('d, 'a, 'f) application \<Rightarrow> u32 \<times> u32 \<Rightarrow> bool \<Rightarrow> bool" where
  "queries_give M app dims has_sock \<longleftrightarrow>
     (let act = main_answers M app; qs = app_queues app
      in fst (c_query_video_size act qs) = Some dims \<and>
         fst (c_query_device_info act qs) = Some (fst dims, snd dims, bytes_of ''Android Device'', has_sock) \<and>
         fst (c_query_window_size act qs) = Some (word_of_int (fst (client_area M)), word_of_int (snd (client_area M))) \<and>
         fst (c_query_clipboard act qs) = Some [] \<and>
         fst (c_query_frame_capture act qs) = None)"

lemma render_takes_frame: "fst (take_frame ((render_latest M app)\<lparr>app_engine := e\<rparr>)) = None"
  by (auto simp: render_latest_def draw_def take_frame_def new_dimensions_def resize_window_def shared_frame_acquire_def
      acquire_claim_def acquire_take_def Let_def split: prod.splits option.splits if_splits)

lemma take_frame_engine: "app_engine (snd (take_frame app)) = app_engine app"
  by (simp add: take_frame_def split: prod.split)

lemma device_name: "0 \<notin> set (bytes_of ''Android Device'')" "take 63 (bytes_of ''Android Device'') = bytes_of ''Android Device''"
  by (simp_all add: bytes_of_def byte_of_char_def)

lemma capture_empty: "script_fill_frame_capture None 0 0 0 =
    Some (new_msg MSG_RESPONSE_FRAME_CAPTURE 12 (write32le 0 @ write32le 0 @ write32le 0))"
  by (simp add: script_fill_frame_capture_def)

lemma capture_answer:
  "\<exists>app2. on_script_query_frame_capture ((render_latest M app)\<lparr>app_engine := e\<rparr>) =
     respond (new_msg MSG_RESPONSE_FRAME_CAPTURE 12 (write32le 0 @ write32le 0 @ write32le 0)) app2 \<and> app_engine app2 = e"
proof -
  obtain f app2 where t: "take_frame ((render_latest M app)\<lparr>app_engine := e\<rparr>) = (f, app2)" by fastforce
  have "f = None" using render_takes_frame [where M = M and app = app and e = e] t by simp
  moreover have "app_engine app2 = e" using take_frame_engine [of "(render_latest M app)\<lparr>app_engine := e\<rparr>"] t by simp
  ultimately show ?thesis using t by (auto simp: on_script_query_frame_capture_def capture_empty)
qed

lemma answers_read:
  "video_size_of (script_fill_video_size w h) = Some (w, h)" "window_size_of (script_fill_window_size w h) = Some (w, h)"
  "clipboard_of (script_fill_clipboard (Some [])) = Some []"
  "frame_capture_of (new_msg MSG_RESPONSE_FRAME_CAPTURE 12 (write32le a @ write32le b @ write32le 0)) = None"
proof -
  show "video_size_of (script_fill_video_size w h) = Some (w, h)" "window_size_of (script_fill_window_size w h) = Some (w, h)"
    by (simp_all add: video_size_of_def script_fill_video_size_def window_size_of_def script_fill_window_size_def ints_of_new)
  show "clipboard_of (script_fill_clipboard (Some [])) = Some []"
    by (simp add: clipboard_of_def script_fill_clipboard_def text_msg_def clip_text_def c_string_def new_msg_def
      blit_def SCRIPT_MSG_MAX_DATA_SIZE_def)
  show "frame_capture_of (new_msg MSG_RESPONSE_FRAME_CAPTURE 12 (write32le a @ write32le b @ write32le 0)) = None"
    by (simp add: frame_capture_of_def ints_of_new)
qed


section \<open>Keys and the pointer\<close>

lemma dispatch_key:
  assumes "callbacks_set (app_window app)"
  shows "dispatch M m (if down then Wm_Keydown vk else Wm_Keyup vk) app = on_key_event m (ucast vk) down app"
  using assms by (simp add: dispatch_def with_callback_def)

text \<open>A key of the main window goes two ways: to the device as the messages of the controller's
  contract, and to the handler for key events of the script, which the script thread calls in
  its next round with the same key.\<close>

theorem key_goes_both_ways:
  assumes "callbacks_set (app_window app)" and "enabled (app_controller app)" and "idle_socket (app_controller app)"
    and "app_script_enabled app" and "working (app_engine app) []"
    and "app1 = dispatch M m (if down then Wm_Keydown vk else Wm_Keyup vk) app"
  shows "(\<exists>bs. wire (sock_out (app_controller app1)) = wire (sock_out (app_controller app)) @ bs \<and>
       parse_all bs = Some (key_event_spec m (ucast vk) down)) \<and>
     scheme_calls (script_thread_turn (\<lambda>_. True) (app_engine app1)) =
       scheme_calls (app_engine app) @ [Script_Engine.Key_Event (ucast vk) down]"
proof -
  let ?c = "app_controller app" and ?e = "app_engine app" and ?ev = "Key (ucast vk) down"
  have c1: "app_controller app1 = controller_on_key_event m (ucast vk) down ?c"
    and e1: "app_engine app1 = send_script_event ?ev ?e"
    unfolding assms(6) dispatch_key [OF assms(1)] using assms(4) by (simp_all add: on_key_event_def Let_def)
  from key_event_sends [OF assms(2,3), of m "ucast vk" down, unfolded sends_meanings_def] obtain bs where
    bs: "controller_on_key_event m (ucast vk) down ?c = ?c\<lparr>sock_out := (sock_out ?c)\<lparr>wire := wire (sock_out ?c) @ bs\<rparr>\<rparr>"
      "\<forall>rest. parse_all (bs @ rest) = map_option (\<lambda>more. key_event_spec m (ucast vk) down @ more) (parse_all rest)"
    by blast
  have "parse_all bs = Some (key_event_spec m (ucast vk) down)" using bs(2) [rule_format, of "[]"] by simp
  then have left: "\<exists>bs. wire (sock_out (app_controller app1)) = wire (sock_out ?c) @ bs \<and>
      parse_all bs = Some (key_event_spec m (ucast vk) down)" using bs(1) c1 by auto
  obtain msg where msg: "event_msg ?ev = Some msg" by simp
  note u = event_understood [of ?ev, OF _ msg]
  have w: "working (app_engine app1) [msg] \<and> scheme_calls (app_engine app1) = scheme_calls ?e"
    using send_events_working [OF assms(5), of "[?ev]"] msg e1 by (simp add: List.map_filter_def)
  then have "scheme_calls ((script_thread_turn (\<lambda>_. True) ^^ 1) (app_engine app1)) =
      scheme_calls ?e @ concat (map (scheme_dispatch_msg (\<lambda>_. True)) [msg])"
    using turns_working [of "app_engine app1" "[msg]" 1 "\<lambda>_. True"] u by simp
  then show ?thesis using left u by simp
qed

text \<open>A press of the left button at \<open>p\<close>, moves over \<open>ps\<close> and the release at \<open>q\<close>, as messages of the window.\<close>

definition drag :: "int \<times> int \<Rightarrow> (int \<times> int) list \<Rightarrow> int \<times> int \<Rightarrow> win_msg list" where
  "drag p ps q =
     Wm_Lbuttondown (pack_point (fst p) (snd p)) #
     map (\<lambda>p. Wm_Mousemove MK_LBUTTON (pack_point (fst p) (snd p))) ps @ [Wm_Lbuttonup (pack_point (fst q) (snd q))]"

definition on_screen :: "int \<times> int \<Rightarrow> bool" where
  "on_screen p \<longleftrightarrow> - (2 ^ 15) \<le> fst p \<and> fst p < 2 ^ 15 \<and> - (2 ^ 15) \<le> snd p \<and> snd p < 2 ^ 15"

type_synonym pointer_event = "(int \<times> int) \<times> u32 \<times> u32"

definition pointer :: "'f float_ops \<Rightarrow> pointer_event \<Rightarrow> controller \<Rightarrow> controller" where
  "pointer F ev c = (case ev of (p, buttons, action) \<Rightarrow> controller_on_mouse_event F (fst p) (snd p) buttons action c)"

definition pointer_meaning :: "'f float_ops \<Rightarrow> controller \<Rightarrow> pointer_event \<Rightarrow> control_meaning" where
  "pointer_meaning F c ev = (case ev of (p, buttons, action) \<Rightarrow> mouse_meaning F c (fst p) (snd p) buttons action)"

lemma pointer_meaning_sock [simp]: "pointer_meaning F (c\<lparr>sock_out := out\<rparr>) = pointer_meaning F c"
  by (simp add: fun_eq_iff pointer_meaning_def mouse_meaning_def to_device_def split: prod.split)

definition touches :: "controller \<Rightarrow> bool" where
  "touches c \<longleftrightarrow> enabled c \<and> idle_socket c \<and> device_width c \<noteq> 0 \<and> device_height c \<noteq> 0"

lemma pointer_sends:
  assumes "touches c" and "\<forall>(p, buttons, action) \<in> set evs. \<not> (action = 2 \<and> buttons = 0)"
  shows "sends_meanings c (fold (pointer F) evs c) (map (pointer_meaning F c) evs)"
  using assms
proof (induction evs arbitrary: c)
  case Nil
  then show ?case by (simp add: sends_nothing)
next
  case (Cons ev evs)
  obtain p buttons action where ev: "ev = (p, buttons, action)" by (cases ev)
  have s: "sends_meanings c (pointer F ev c) [pointer_meaning F c ev]"
    using Cons.prems mouse_event_sends [of c action buttons F "fst p" "snd p"]
    by (simp add: ev pointer_def pointer_meaning_def touches_def)
  from s obtain out where c1: "pointer F ev c = c\<lparr>sock_out := out\<rparr>" unfolding sends_meanings_def by blast
  have "touches (pointer F ev c)" using Cons.prems(1) sends_idle [OF s] by (auto simp: touches_def c1)
  then have "sends_meanings (pointer F ev c) (fold (pointer F) evs (pointer F ev c)) (map (pointer_meaning F c) evs)"
    using Cons.IH [of "pointer F ev c"] Cons.prems(2) by (simp add: c1)
  from sends_trans [OF s this] show ?case by simp
qed

lemma dispatch_pointer:
  assumes "callbacks_set (app_window app)" and "on_screen p"
  shows "dispatch M m (Wm_Lbuttondown (pack_point (fst p) (snd p))) app = app\<lparr>app_controller := pointer (floats M) (p, 1, 1) (app_controller app)\<rparr>"
    and "dispatch M m (Wm_Lbuttonup (pack_point (fst p) (snd p))) app = app\<lparr>app_controller := pointer (floats M) (p, 1, 0) (app_controller app)\<rparr>"
    and "dispatch M m (Wm_Mousemove MK_LBUTTON (pack_point (fst p) (snd p))) app =
       app\<lparr>app_controller := pointer (floats M) (p, 1, 2) (app_controller app)\<rparr>"
  using assms
  by (simp_all add: dispatch_def with_callback_def on_mouse_event_def pointer_def pack_point_read on_screen_def
      MK_LBUTTON_def MK_RBUTTON_def)

lemma dispatch_moves:
  assumes "callbacks_set (app_window app)" and "\<forall>p \<in> set ps. on_screen p"
  shows "fold (dispatch M m) (map (\<lambda>p. Wm_Mousemove MK_LBUTTON (pack_point (fst p) (snd p))) ps) app =
     app\<lparr>app_controller := fold (pointer (floats M)) (map (\<lambda>p. (p, 1, 2)) ps) (app_controller app)\<rparr>"
  using assms by (induction ps arbitrary: app) (simp_all add: dispatch_pointer)

text \<open>C9. A drag over the window, press, moves and release of the left button wherever on the screen,
  reaches the device as one touch down, a touch move for each move and one touch up, in this
  order, each at the device position of its point; nothing else is sent.\<close>

theorem drag_reaches_device:
  assumes "callbacks_set (app_window app)" and "touches (app_controller app)" and "\<forall>r \<in> set (p # ps @ [q]). on_screen r"
  shows "\<exists>bs. app_controller (fold (dispatch M m) (drag p ps q) app) =
       (app_controller app)\<lparr>sock_out := (sock_out (app_controller app))\<lparr>wire := wire (sock_out (app_controller app)) @ bs\<rparr>\<rparr> \<and>
     parse_all bs = Some (mouse_meaning (floats M) (app_controller app) (fst p) (snd p) 1 1 #
       map (\<lambda>r. mouse_meaning (floats M) (app_controller app) (fst r) (snd r) 1 2) ps @
       [mouse_meaning (floats M) (app_controller app) (fst q) (snd q) 1 0])"
proof -
  let ?c = "app_controller app" and ?evs = "(p, 1, 1) # map (\<lambda>r. (r, 1, 2)) ps @ [(q, 1, 0)]"
  have "app_controller (fold (dispatch M m) (drag p ps q) app) = fold (pointer (floats M)) ?evs ?c"
    using assms(1,3) by (simp add: drag_def dispatch_pointer dispatch_moves)
  then have "sends_meanings ?c (app_controller (fold (dispatch M m) (drag p ps q) app)) (map (pointer_meaning (floats M) ?c) ?evs)"
    using pointer_sends [OF assms(2), of ?evs "floats M"] by auto
  then obtain bs where bs: "app_controller (fold (dispatch M m) (drag p ps q) app) =
       ?c\<lparr>sock_out := (sock_out ?c)\<lparr>wire := wire (sock_out ?c) @ bs\<rparr>\<rparr>"
    "\<forall>rest. parse_all (bs @ rest) = map_option (\<lambda>more. map (pointer_meaning (floats M) ?c) ?evs @ more) (parse_all rest)"
    unfolding sends_meanings_def by blast
  have "parse_all bs = Some (map (pointer_meaning (floats M) ?c) ?evs)" using bs(2) [rule_format, of "[]"] by simp
  then show ?thesis using bs(1) by (intro exI [of _ bs]) (simp add: pointer_meaning_def comp_def)
qed

section \<open>Threads and windows at the end of a run\<close>

text \<open>A thread that runs has a handle, the script thread's loop runs only while the engine
  does, and the REPL window is whole.\<close>

definition resources_known :: "('d, 'a, 'f) application \<Rightarrow> bool" where
  "resources_known app \<longleftrightarrow>
     (thread_alive (app_video app) \<longrightarrow> vp_thread (app_video app)) \<and> (ap_alive (app_audio app) \<longrightarrow> ap_thread (app_audio app)) \<and>
     (app_script_enabled app \<longrightarrow> repl_whole (app_repl app) \<and> (in_loop (app_engine app) \<longrightarrow> engine_running (app_engine app)))"

lemma video_turn_thread:
  "video_thread_turn lib mal calloc_ok vp = Some vp' \<Longrightarrow>
     vp_thread vp' = vp_thread vp \<and> (thread_alive vp' \<longrightarrow> thread_alive vp)"
  by (auto simp: video_thread_turn_def Let_def split: if_splits option.splits prod.splits recv_result.splits decode_end.splits)

lemma audio_turn_thread:
  "ap_thread (audio_thread_turn lib mal device ap) = ap_thread ap \<and> (ap_alive (audio_thread_turn lib mal device ap) \<longrightarrow> ap_alive ap)"
  by (auto simp: audio_thread_turn_def Let_def split: option.split prod.split)

lemma script_turn_loop:
  "engine_running (script_thread_turn defined e) = engine_running e \<and> (in_loop (script_thread_turn defined e) \<longrightarrow> in_loop e)"
  by (auto simp: script_thread_turn_def split: prod.split option.split)

text \<open>Two applications whose threads and REPL windows are in the same state; a quit message may have come.\<close>

definition same_resources :: "('d, 'a, 'f) application \<Rightarrow> ('d, 'a, 'f) application \<Rightarrow> bool" where
  "same_resources app app' \<longleftrightarrow>
     thread_alive (app_video app') = thread_alive (app_video app) \<and> vp_thread (app_video app') = vp_thread (app_video app) \<and>
     app_audio app' = app_audio app \<and> app_script_enabled app' = app_script_enabled app \<and> app_repl app' = app_repl app \<and>
     app_running app' = app_running app \<and> (quit_posted app \<longrightarrow> quit_posted app') \<and>
     in_loop (app_engine app') = in_loop (app_engine app) \<and> engine_running (app_engine app') = engine_running (app_engine app)"

lemma same_resources_refl [simp]: "same_resources app app"
  by (simp add: same_resources_def)

lemma same_resources_trans: "same_resources a b \<Longrightarrow> same_resources b c \<Longrightarrow> same_resources a c"
  by (simp add: same_resources_def)

lemma same_resources_known: "same_resources app app' \<Longrightarrow> resources_known app \<Longrightarrow> resources_known app'"
  by (simp add: same_resources_def resources_known_def)

lemma render_threads: "same_resources app (render_latest M app)"
  by (simp add: same_resources_def render_latest_def draw_def take_frame_def new_dimensions_def resize_window_def Let_def
      split: prod.split option.split)

lemma callback_threads: "same_resources app (script_callback client c app)"
  by (cases c) (auto simp: same_resources_def on_script_query_device_info_def on_script_query_video_size_def
      on_script_query_window_size_def on_script_query_clipboard_def on_script_query_frame_capture_def respond_def
      take_frame_def Let_def split: prod.split option.split)

lemma process_threads: "same_resources app (process_script client app)"
  by (rule process_script_invariant [where P = "same_resources app"])
    (simp, erule same_resources_trans [OF _ callback_threads], simp add: same_resources_def)

lemma event_threads: "same_resources app (window_event M m c app)"
  by (cases c) (simp_all add: same_resources_def on_key_event_def on_mouse_event_def on_wheel_event_def on_resize_def Let_def
      script_dispatch_key_event_def script_engine_send_def split: prod.split)

lemma thread_turn_known:
  assumes "resources_known app"
  shows "resources_known (thread_turn M t app)"
proof (cases t)
  case (Video_Turn b)
  then show ?thesis using assms by (auto simp: resources_known_def split: option.split dest!: video_turn_thread)
next
  case (Audio_Turn device)
  then show ?thesis using assms audio_turn_thread [of "audio_codecs M" "sample_memory M" device "app_audio app"]
    by (auto simp: resources_known_def)
next
  case Script_Turn
  then show ?thesis using assms script_turn_loop [of "scheme_defines M" "app_engine app"] by (auto simp: resources_known_def)
qed (use assms in \<open>simp_all add: resources_known_def\<close>)

interpretation threads: loop_invariant M resources_known for M
proof unfold_locales
  fix app :: "('a, 'b, 'c) application"
  assume "resources_known app"
  then show "resources_known (render_latest M app)" "resources_known (process_script (client_area M) app)"
    "resources_known (window_event M m c app)" for m c
    using same_resources_known render_threads process_threads event_threads by blast+
qed (simp_all add: thread_turn_known, simp_all add: resources_known_def repl_whole_def with_repl_def)

lemma start_engine_loop: "in_loop (start_engine M e) \<Longrightarrow> \<not> in_loop e \<Longrightarrow> engine_running (start_engine M e)"
  by (auto simp: start_engine_def script_engine_start_def script_thread_begin_def split: if_splits option.splits)

definition nothing_runs :: "('d, 'a, 'f) application \<Rightarrow> bool" where
  "nothing_runs app \<longleftrightarrow>
     \<not> thread_alive (app_video app) \<and> \<not> ap_alive (app_audio app) \<and>
     (app_script_enabled app \<longrightarrow> \<not> in_loop (app_engine app) \<and> repl_whole (app_repl app))"

lemma script_threads:
  "\<not> thread_alive (app_video app) \<Longrightarrow> \<not> ap_alive (app_audio app) \<Longrightarrow> nothing_runs (application_script env app)"
  using repl_init_whole [of "repl_class_ok env" "repl_made env" "repl_subclass_ok env" False]
  by (auto simp: nothing_runs_def application_script_def script_engine_init_def with_repl_def Let_def
      split: option.split prod.split if_splits)

lemma init_threads: "application_init env mem opts = (True, ds, app) \<Longrightarrow> nothing_runs app"
  by (drule init_successD(3)) (simp add: script_threads initialised_def video_pipeline_init_def audio_pipeline_init_def)

lemma go_threads: "nothing_runs app \<Longrightarrow> resources_known (application_go M app)"
  using start_engine_loop
  by (auto simp: application_go_def resize_window_def nothing_runs_def resources_known_def video_pipeline_start_def
      audio_pipeline_start_def Let_def split: option.split)

lemma application_audio_alive: "ap_alive (application_audio M wanted ap) = ap_alive ap"
  by (simp add: application_audio_def Let_def split: option.split prod.split bool.split)

lemma start_resources_known:
  assumes "application_start M app = Run_Loop srv ends app1" and "nothing_runs app"
  shows "resources_known app1"
proof -
  obtain app2 where "app1 = application_go M app2" "nothing_runs app2"
    using assms
    by (auto simp: application_start_def application_video_def give_sockets_def nothing_runs_def application_audio_alive Let_def
        split: start_outcome.splits prod.splits bool.splits if_splits)
  then show ?thesis by (simp add: go_threads)
qed

lemma stop_threads:
  assumes "resources_known app" and "application_stop M srv ends app = (open_ends, sender, app1)"
  shows "nothing_runs app1 \<and> \<not> vp_running (app_video app1) \<and> \<not> ap_running (app_audio app1)"
proof -
  have e: "\<not> in_loop (script_engine_stop e)" if "in_loop e \<longrightarrow> engine_running e" for e
    using that by (auto simp: script_engine_stop_def script_engine_send_def split: prod.split)
  have "app_video app1 = video_pipeline_stop (app_video app)" "app_audio app1 = audio_pipeline_stop (app_audio app)"
    "app_script_enabled app1 = app_script_enabled app" "app_repl app1 = app_repl app"
    "app_script_enabled app \<Longrightarrow> app_engine app1 = script_engine_stop (app_engine app)"
    using assms(2) by (cases "app_script_enabled app"; simp add: application_stop_def Let_def split: prod.splits; force)+
  then show ?thesis
    using assms(1) e [of "app_engine app"]
    by (auto simp: video_pipeline_stop_def audio_pipeline_stop_def resources_known_def nothing_runs_def)
qed

text \<open>However a run went, when it has been stopped neither the video nor the audio nor the script
  thread is still running: the stop leaves no thread of the pipelines or the engine behind.\<close>

theorem stopped_run_has_no_threads:
  assumes "application_init env mem opts = (True, ds, app0)" and "application_start M app0 = Run_Loop srv ends app1"
    and "application_stop M srv ends (application_loop M turns app1) = (open_ends, sender, app)"
  shows "\<not> thread_alive (app_video app) \<and> \<not> ap_alive (app_audio app) \<and> \<not> vp_running (app_video app) \<and>
     \<not> ap_running (app_audio app) \<and> (app_script_enabled app \<longrightarrow> \<not> in_loop (app_engine app))"
  using stop_threads [OF threads.loop_keeps_it [OF start_resources_known [OF assms(2) init_threads [OF assms(1)]]] assms(3)]
  by (simp add: nothing_runs_def)

section \<open>Runs that end\<close>

lemma failed_start_threads:
  assumes "application_start M app = Run_Failed app1" and "nothing_runs app"
  shows "nothing_runs app1"
  using assms
  by (auto simp: application_start_def application_video_def give_sockets_def nothing_runs_def application_audio_alive Let_def
      split: start_outcome.splits prod.splits bool.splits if_splits)

lemma run_threads:
  assumes "application_run M turns app = Some (code, app1)" and "nothing_runs app"
  shows "nothing_runs app1"
proof (cases "application_start M app")
  case (Run_Failed app2)
  then show ?thesis using assms failed_start_threads by (auto simp: application_run_def)
next
  case (Run_Loop srv ends app2)
  obtain ends1 sender app3 where s: "application_stop M srv ends (application_loop M turns app2) = (ends1, sender, app3)"
    by (rule prod_cases3)
  then have "app1 = app3" using assms(1) Run_Loop by (simp add: application_run_def Let_def split: if_splits)
  then show ?thesis
    using stop_threads [OF threads.loop_keeps_it [OF start_resources_known [OF Run_Loop assms(2)]] s] by simp
qed (use assms in \<open>simp add: application_run_def\<close>)

section \<open>A REPL window that cannot be made\<close>

definition quitting :: "('d, 'a, 'f) application \<Rightarrow> bool" where
  "quitting app \<longleftrightarrow> app_running app \<and> quit_posted app"

lemma same_resources_quitting: "same_resources app app' \<Longrightarrow> quitting app \<Longrightarrow> quitting app'"
  by (simp add: same_resources_def quitting_def)

interpretation quits: loop_invariant M quitting for M
proof unfold_locales
  fix app :: "('a, 'b, 'c) application"
  assume "quitting app"
  then show "quitting (render_latest M app)" "quitting (process_script (client_area M) app)"
    "quitting (window_event M m c app)" for m c
    using same_resources_quitting render_threads process_threads event_threads by blast+
  show "quitting (thread_turn M t app)" if "quitting app" for t
    using that by (cases t) (auto simp: quitting_def split: option.split)
qed (simp_all add: quitting_def with_repl_def)

lemma rendered_in_idle_only: "t \<noteq> Idle \<Longrightarrow> rendered (app_turn M t app) = rendered app"
proof -
  have ev: "rendered (window_event M m c app) = rendered app" for m c and app :: "('a, 'b, 'c) application"
    by (cases c) (simp_all add: on_key_event_def on_mouse_event_def on_wheel_event_def on_resize_def Let_def)
  have "rendered (fold (window_event M m) calls app) = rendered app" for m calls and app :: "('a, 'b, 'c) application"
    by (induction calls arbitrary: app) (simp_all add: ev)
  then have "rendered (main_turn M t app) = rendered app" if "t \<noteq> Idle" for app :: "('a, 'b, 'c) application"
    using that by (cases t) (simp_all add: dispatch_def with_repl_def split: prod.split)
  moreover have "rendered (thread_turn M t app) = rendered app" for app :: "('a, 'b, 'c) application"
    by (cases t) (simp_all split: option.split)
  ultimately show "t \<noteq> Idle \<Longrightarrow> rendered (app_turn M t app) = rendered app" by (simp add: app_turn_def)
qed

lemma rendered_before_idle: "Idle \<notin> set turns \<Longrightarrow> rendered (application_loop M turns app) = rendered app"
  unfolding application_loop_def by (induction turns arbitrary: app) (auto simp: rendered_in_idle_only)

lemma start_run_fields:
  assumes "application_start M app = Run_Loop srv ends app1"
  shows "rendered app1 = rendered app \<and> quit_posted app1 = quit_posted app \<and> app_running app1 \<and> looping app1"
proof -
  obtain app2 where "app1 = application_go M app2" "rendered app2 = rendered app" "quit_posted app2 = quit_posted app"
    using assms
    by (auto simp: application_start_def application_video_def give_sockets_def Let_def
        split: start_outcome.splits prod.splits bool.splits if_splits)
  then show ?thesis by (simp add: application_go_def resize_window_def Let_def split: option.split)
qed

lemma init_quit:
  assumes "application_init env mem opts = (True, ds, app)" and "app_script_enabled app"
  shows "quit_posted app = quit_sent (snd (repl_window_init (repl_class_ok env) (repl_made env) (repl_subclass_ok env) False))"
  using init_successD(3) [OF assms(1)] assms(2)
  by (auto simp: application_script_def with_repl_def initialised_def with_stages_def application_fields_def Let_def
      split: option.splits if_splits)

text \<open>C28. The window procedure of the REPL posts a quit message whenever its window is destroyed, so also when
  \<open>repl_window_init\<close> gives up and cleans up. The application takes no notice of that failure, but the first
  message its loop is given when no other is waiting is the quit message: the program ends, with code 0,
  before it has shown a frame.\<close>

theorem failed_repl_ends_run:
  assumes "application_init env mem opts = (True, ds, app0)" and "app_script_enabled app0"
    and "repl_class_ok env" and "repl_made env Repl_Window" and "\<not> (repl_subclass_ok env \<and> (\<forall>r. repl_made env r))"
    and "application_start M app0 = Run_Loop srv ends app1" and "Idle \<notin> set turns"
  shows "\<exists>app2. application_run M (turns @ [Quit_Message]) app0 = Some (0, app2) \<and> rendered app2 = []"
proof -
  let ?init = "repl_window_init (repl_class_ok env) (repl_made env) (repl_subclass_ok env) False"
  have "quit_sent (snd ?init)" using assms(3-5) by (simp add: repl_init_posts_quit) blast
  then have q: "quitting app1"
    using start_run_fields [OF assms(6)] init_quit [OF assms(1,2)] by (simp add: quitting_def)
  define app2 where "app2 = application_loop M turns app1"
  have "quitting app2" unfolding app2_def by (rule quits.loop_keeps_it [OF q])
  then have loop: "\<not> looping (application_loop M (turns @ [Quit_Message]) app1)"
    by (simp add: application_loop_def app2_def app_turn_def quitting_def)
  have "rendered (application_loop M (turns @ [Quit_Message]) app1) = []"
    using rendered_before_idle [of "turns @ [Quit_Message]" M app1] assms(7) start_run_fields [OF assms(6)]
      init_rendered [OF assms(1)] by simp
  then show ?thesis using assms(6) loop by (simp add: application_run_def application_stop_def Let_def split: prod.split)
qed

section \<open>The end of the program\<close>

text \<open>Nothing of the application is left: no thread, no object of the graphics card, no open socket, no
  frame, no decoder or player, no initialised script engine, no window or font of the REPL.\<close>

definition all_released :: "('d, 'a, 'f) application \<Rightarrow> bool" where
  "all_released app \<longleftrightarrow>
     nothing_runs app \<and> made (app_renderer app) = {} \<and> \<not> ctx_swap_chain (app_ctx app) \<and>
     video_fd (vp_sock (app_video app)) = None \<and> audio_fd (ap_sock (app_audio app)) = None \<and>
     \<not> sock_open (app_controller app) \<and> current (vp_frame (app_video app)) = None \<and>
     \<not> video_decoder_ptr app \<and> \<not> audio_decoder_ptr app \<and> \<not> player_ptr app \<and>
     (app_script_enabled app \<longrightarrow> \<not> initialized (app_engine app) \<and> live (app_repl app) = {})"

lemma destroy_releases:
  assumes "nothing_runs app"
  shows "all_released (snd (application_destroy app))"
proof -
  have "\<not> thread_alive (video_pipeline_stop (app_video app))" "\<not> ap_alive (audio_pipeline_stop (app_audio app))"
    using assms by (simp_all add: nothing_runs_def video_pipeline_stop_def audio_pipeline_stop_def)
  moreover have "\<not> in_loop (script_engine_destroy e) \<and> \<not> initialized (script_engine_destroy e)" if "\<not> in_loop e" for e
    using that by (auto simp: script_engine_destroy_def script_engine_stop_def)
  moreover have "live (repl_window_destroy (app_repl app)) = {}" if "app_script_enabled app"
    using assms that by (simp add: nothing_runs_def repl_whole_destroyed)
  ultimately show ?thesis
    using assms
    by (simp add: all_released_def nothing_runs_def application_destroy_def video_socket_destroy_def audio_socket_destroy_def
        repl_whole_def Let_def)
qed

section \<open>Initialisation and memory\<close>

lemma application_script_memory:
  fixes app :: "('d, 'a, 'f) application"
  assumes "s = application_script env app"
    and "s' = application_script env (app\<lparr>app_engine := e, app_repl := r, app_script_enabled := b\<rparr>)"
  shows "s'\<lparr>app_engine := app_engine s, app_repl := app_repl s\<rparr> = s \<and> (app_script_enabled s \<longrightarrow> s' = s)"
proof -
  let ?o = "app_options app"
  let ?off = "script_path ?o = None \<and> script_eval ?o = None \<and> \<not> repl ?o"
  let ?made = "script_engine_init (semaphores env) (queue_memory env) (script_path ?o) (map_option bytes_of (script_eval ?o))"
  let ?win = "snd (repl_window_init (repl_class_ok env) (repl_made env) (repl_subclass_ok env) False)"
  consider (off) "?off \<or> ?made = None" | (on) en where "\<not> ?off" "?made = Some en" by (cases ?made) blast+
  then show ?thesis
  proof cases
    case off
    then have "s = app\<lparr>app_script_enabled := False\<rparr>" "s' = app\<lparr>app_engine := e, app_repl := r, app_script_enabled := False\<rparr>"
      unfolding assms application_script_def Let_def by (cases ?off; simp)+
    then show ?thesis by simp
  next
    case on
    define w where "w = (if repl ?o then repl_window_show ?win else ?win)"
    have "s = with_repl w (app\<lparr>app_script_enabled := True, app_engine := en\<rparr>)"
      "s' = with_repl w (app\<lparr>app_engine := en, app_repl := r, app_script_enabled := True\<rparr>)"
      unfolding assms application_script_def Let_def using on by (auto simp: w_def with_repl_def)
    then show ?thesis by (simp add: with_repl_def)
  qed
qed

lemma initialised_memory:
  "initialised env mem' opts = (initialised env mem opts)
     \<lparr>app_engine := app_engine mem', app_repl := app_repl mem', app_script_enabled := app_script_enabled mem'\<rparr>"
  by (simp add: initialised_def with_stages_def application_fields_def window_init_def window_set_callbacks_def Let_def)

text \<open>A successful initialisation destroys nothing and depends on no earlier contents of the
  structure's memory: from any other memory it succeeds as well, and the two results are equal
  but for the script engine and the REPL window, and equal in these too when scripting is on.\<close>

theorem init_sets_everything:
  assumes "application_init env mem opts = (True, ds, app)"
  shows "ds = [] \<and> (\<exists>app'. application_init env mem' opts = (True, [], app') \<and>
     app'\<lparr>app_engine := app_engine app, app_repl := app_repl app\<rparr> = app \<and> (app_script_enabled app \<longrightarrow> app' = app))"
proof -
  note works = init_success [OF init_successD(1) [OF assms]]
  have "ds = [] \<and> app = application_script env (initialised env mem opts)" using init_successD(2,3) [OF assms] by blast
  then show ?thesis
    using works [of mem' opts] application_script_memory [OF _ refl, of app env "initialised env mem opts"]
    by (simp add: initialised_memory [of env mem' opts mem])
qed

text \<open>C37. When a decoder or the player cannot be allocated, \<open>application_init\<close> destroys a structure it has
  not filled in: the engine and the REPL window that happen to be in memory when the flag there
  says so, the pipelines as they happen to be, and the three descriptors with the number 0.\<close>

theorem failed_init_destroys_memory:
  assumes "stages_work env"
    and "new_video_decoder env = None \<or> new_audio_decoder env = None \<or> new_player env = None"
  shows "\<exists>ds app vp ap. application_init env mem opts = (False, ds, app) \<and>
     (app_script_enabled mem \<longrightarrow> {Destroy_Engine (app_engine mem), Destroy_Repl (app_repl mem)} \<subseteq> set ds) \<and>
     {Destroy_Video_Pipeline vp, Destroy_Audio_Pipeline ap, Close_Video_Socket, Close_Audio_Socket, Close_Control_Socket} \<subseteq> set ds \<and>
     vp_thread vp = vp_thread (app_video mem) \<and> ap_thread ap = ap_thread (app_audio mem)"
proof -
  let ?vp = "(app_video mem)\<lparr>vp_sock := video_socket_init zero_fd, vp_frame := shared_frame_init\<rparr>"
    and ?ap = "(app_audio mem)\<lparr>ap_sock := audio_socket_init zero_fd\<rparr>"
  have w: "application_init env mem opts =
      (case application_destroy (with_stages env mem opts) of (ds, app) \<Rightarrow> (False, ds, app))"
    using assms(2) by (auto simp: init_stages [OF assms(1)] application_parts_def split: option.split)
  have "app_script_enabled (with_stages env mem opts) = app_script_enabled mem" "app_engine (with_stages env mem opts) = app_engine mem"
    "app_repl (with_stages env mem opts) = app_repl mem" "app_video (with_stages env mem opts) = ?vp"
    "app_audio (with_stages env mem opts) = ?ap" "sock_open (app_controller (with_stages env mem opts))"
    by (simp_all add: with_stages_def application_fields_def)
  then have "(app_script_enabled mem \<longrightarrow> {Destroy_Engine (app_engine mem), Destroy_Repl (app_repl mem)} \<subseteq> set (destroys (with_stages env mem opts))) \<and>
     {Destroy_Video_Pipeline ?vp, Destroy_Audio_Pipeline ?ap, Close_Video_Socket, Close_Audio_Socket, Close_Control_Socket}
       \<subseteq> set (destroys (with_stages env mem opts))"
    by (simp add: destroys_def video_socket_init_def audio_socket_init_def zero_fd_def)
  then have "(app_script_enabled mem \<longrightarrow> {Destroy_Engine (app_engine mem), Destroy_Repl (app_repl mem)} \<subseteq> set (destroys (with_stages env mem opts))) \<and>
     (\<exists>vp ap. {Destroy_Video_Pipeline vp, Destroy_Audio_Pipeline ap, Close_Video_Socket, Close_Audio_Socket, Close_Control_Socket}
         \<subseteq> set (destroys (with_stages env mem opts)) \<and>
       vp_thread vp = vp_thread (app_video mem) \<and> ap_thread ap = ap_thread (app_audio mem))"
    by (elim conjE, intro conjI exI [of _ ?vp] exI [of _ ?ap]) simp_all
  then show ?thesis unfolding w application_destroy_def prod.case by blast
qed

section \<open>A concrete application\<close>

definition example_engine :: script_engine where
  "example_engine = (the (script_engine_init (True, True, True) (replicate 256 zero_msg) None None))
     \<lparr>engine_thread := True, engine_running := True, in_loop := True\<rparr>"

lemma example_queues:
  "script_msg_queue_init True (replicate 256 zero_msg) = Some (to_main example_engine)"
  "script_msg_queue_init True (replicate 256 zero_msg) = Some (to_scheme example_engine)"
  "script_msg_queue_init True (replicate 256 zero_msg) = Some (response_q example_engine)"
  by (simp_all add: example_engine_def script_engine_init_def script_msg_queue_init_def)

lemma example_engine_working: "working example_engine []"
  using init_at_rest [OF example_queues(2)] by (simp add: working_def) (simp add: example_engine_def)

definition example_app :: "(nat, nat, rat) application" where
  "example_app =
     \<lparr>app_options = scrcpy_options_default\<lparr>opt_serial := Some (''10.0.0.2'' @ '':'' @ decimal 5555), opt_server_path := None,
        port := 27183\<rparr>,
      app_window = \<lparr>win_width = 540, win_height = 1200, win_fullscreen = False, win_on_top = False, callbacks_set = True,
        win_made = True, win_style = Overlapped, placed = []\<rparr>,
      app_ctx = new_context, app_renderer = example_renderer, video_decoder_ptr = True, audio_decoder_ptr = True, player_ptr = True,
      app_video = video_pipeline_init \<lparr>dec_parser = False, dec_codec = False, dec_state = 0\<rparr> (video_socket_init None)
        (snd (shared_frame_submit \<lparr>nv12_data = Some (replicate 6 0), frame_width = 2, frame_height = 2, frame_format = 0\<rparr>
           shared_frame_init)),
      app_audio = audio_pipeline_init \<lparr>adec_codec = False, adec_swr = False, adec_rate = 0, adec_state = 0\<rparr> example_player
        (audio_socket_init None),
      app_controller = example_controller, app_width = 1080, app_height = 2400, app_running = True,
      app_script_enabled = True, app_engine = example_engine, app_repl = repl_zero, rendered = [], resizes = [],
      app_fault = False, quit_posted = False, looping = True\<rparr>"

text \<open>Exact real arithmetic in the place of \<open>double\<close>.\<close>

definition real_ops :: "real double_ops" where
  "real_ops = \<lparr>d_int = of_int, d_mul = (*), d_div = (/), d_add = (+), d_sqrt = sqrt, d_half = 1 / 2,
     d_trunc = (\<lambda>v. if v < 0 then \<lceil>v\<rceil> else \<lfloor>v\<rfloor>)\<rparr>"

text \<open>A card with rows of 2048 bytes, on which everything can be made.\<close>

definition example_card :: "(real, rat) graphics_card" where
  "example_card =
     \<lparr>can_make = (\<lambda>_. True), map_texture = (\<lambda>w h. Some (2048, replicate (2048 * (unat h + unat h div 2)) 0)),
      map_constants = True,
      double_ops = \<lparr>of_i = of_int, fdiv = (/), fmul = (*), fgreater = (>), trunc = d_trunc real_ops\<rparr>,
      round_float = (\<lambda>x. of_int \<lfloor>x * 2 ^ 24\<rfloor> / 2 ^ 24), float_one = 1\<rparr>"

definition example_machine :: "(nat, nat, rat, real) machine" where
  "example_machine =
     \<lparr>srv_services = plain_services, srv_env = example_env example_device, video_more = [], audio_more = [],
      codecs = example_library, audio_codecs = example_audio_library, frame_memory = (\<lambda>n. Some (replicate n 0)),
      sample_memory = (\<lambda>_. True),
      audio_device = \<lparr>create_ok = True, endpoint_ok = True, activate_ok = True, initialize_ok = True, service_ok = True,
        device_frames = 4800\<rparr>,
      floats = rat_ops, doubles = real_ops, gfx = example_card, resize_ok = (True, True, True), client_area = (540, 1200), screen_area = (2560, 1440),
      file_exists = (\<lambda>_. True), exe_path = Some ''autoscrcpy.exe'', scheme_defines = (\<lambda>_. True), thread_ok = True\<rparr>"

definition example_init :: "(nat, nat, rat) init_env" where
  "example_init =
     \<lparr>com_ok = True, adb_ok = True, window_class_ok = True, window_create_ok = True, d3d_ok = (True, True, True),
      gpu_ok = (\<lambda>_. True), bytecode_ok = True, unit_scale = (1, 1),
      new_video_decoder = video_decoder_create 0 True True True, new_audio_decoder = audio_decoder_create 0 True True True,
      new_player = audio_player_create True, semaphores = (True, True, True), queue_memory = replicate 256 zero_msg,
      repl_class_ok = True, repl_made = (\<lambda>_. True), repl_subclass_ok = True, control_out = \<lparr>sends = [], wire = []\<rparr>\<rparr>"

lemma example_init_works: "init_works example_init"
  by (simp add: init_works_def stages_work_def example_init_def video_decoder_create_def audio_decoder_create_def audio_player_create_def)

definition example_start :: "(nat, nat, rat) application" where
  "example_start = application_script example_init (initialised example_init example_app (app_options example_app))"

lemma example_initialised:
  "application_init example_init example_app (app_options example_app) = (True, [], example_start)"
  using init_success [OF example_init_works] by (simp add: example_start_def)

lemma example_start_fields:
  "app_options example_start = app_options example_app" "vp_sock (app_video example_start) = video_socket_init None"
  by (simp_all add: example_start_def application_script_def with_repl_def initialised_def with_stages_def application_fields_def
      video_pipeline_init_def Let_def split: option.split)

lemma example_config_of: "server_config_of (app_options example_app) = example_config"
  by (simp add: server_config_of_def example_app_def example_config_def scrcpy_options_default_def)

text \<open>A server that starts and a decoder that can be opened make a run.\<close>

lemma run_starts:
  assumes "server_start (srv_services M) (srv_env M) (server_init (server_config_of (app_options app)))
      (vp_sock (app_video app)) = Started srv vs ends"
    and "\<And>app2 x. vp_sock (app_video app2) = vs\<lparr>video_fd := x\<rparr> \<Longrightarrow> fst (application_video M app2)"
  shows "\<exists>app1. application_start M app = Run_Loop srv ends app1"
proof -
  let ?app1 = "give_sockets M ends (vs\<lparr>video_fd := map_option (\<lambda>s. s @ video_more M) (video_fd vs)\<rparr>) app"
  let ?app2 = "?app1\<lparr>app_audio := application_audio M (opt_audio (app_options app)) (app_audio ?app1)\<rparr>"
  have "fst (application_video M ?app2)" by (rule assms(2)) (simp add: give_sockets_def)
  then obtain app3 where "application_video M ?app2 = (True, app3)" by (cases "application_video M ?app2") simp
  then show ?thesis using assms(1) by (simp add: application_start_def Let_def)
qed

lemma example_device_run:
  assumes "server_config_of (app_options app) = example_config" and "vp_sock (app_video app) = video_socket_init None"
  shows "\<exists>srv ends app1. application_start example_machine app = Run_Loop srv ends app1"
proof -
  have env: "srv_services example_machine = plain_services" "srv_env example_machine = example_env example_device"
    by (simp_all add: example_machine_def)
  obtain srv vs ends where s: "server_start plain_services (example_env example_device) (server_init example_config)
      (video_socket_init None) = Started srv vs ends" "video_codec_id vs = 0x68323634"
    using example_device_starts by blast
  have "fst (application_video example_machine app2)" if "vp_sock (app_video app2) = vs\<lparr>video_fd := x\<rparr>" for app2 x
    using that s(2) by (simp add: application_video_def example_machine_def example_library_def video_decoder_init_def
        codec_of_def Let_def)
  then have "\<exists>app1. application_start example_machine app = Run_Loop srv ends app1"
    using s(1) by (intro run_starts [of example_machine app srv vs ends]) (simp_all only: env assms)
  then show ?thesis by blast
qed

lemma example_run_starts: "\<exists>srv ends app1. application_start example_machine example_start = Run_Loop srv ends app1"
  by (rule example_device_run) (simp_all only: example_start_fields example_config_of)

text \<open>The concrete application with the REPL asked for, in any environment.\<close>

definition scripted_options :: scrcpy_options where
  "scripted_options = (app_options example_app)\<lparr>repl := True\<rparr>"

definition scripted_start :: "(nat, nat, rat) init_env \<Rightarrow> (nat, nat, rat) application" where
  "scripted_start env = application_script env (initialised env example_app scripted_options)"

lemma scripted_fields:
  "app_options (scripted_start env) = scripted_options" "vp_sock (app_video (scripted_start env)) = video_socket_init None"
  "app_script_enabled (scripted_start (example_init\<lparr>repl_made := m\<rparr>))" "server_config_of scripted_options = example_config"
proof -
  have e: "script_engine_init (semaphores (example_init\<lparr>repl_made := m\<rparr>)) (queue_memory (example_init\<lparr>repl_made := m\<rparr>)) p c \<noteq> None"
    for p c by (simp add: example_init_def script_engine_init_def script_msg_queue_init_def)
  show "app_script_enabled (scripted_start (example_init\<lparr>repl_made := m\<rparr>))"
    using e by (auto simp: scripted_start_def application_script_def with_repl_def initialised_def with_stages_def
        application_fields_def scripted_options_def Let_def split: option.split)
  show "server_config_of scripted_options = example_config"
    using example_config_of by (simp add: scripted_options_def server_config_of_def)
qed (simp_all add: scripted_start_def application_script_def with_repl_def initialised_def with_stages_def application_fields_def
    video_pipeline_init_def Let_def split: option.split)

lemma scripted_run_starts: "\<exists>srv ends app1. application_start example_machine (scripted_start env) = Run_Loop srv ends app1"
  by (rule example_device_run) (simp_all only: scripted_fields)

text \<open>The REPL window is made, its font is not: the program ends before it shows anything.\<close>

theorem failed_repl_ends_run_witness:
  "let env = example_init\<lparr>repl_made := (\<lambda>r. r = Repl_Window)\<rparr>
   in application_init env example_app scripted_options = (True, [], scripted_start env) \<and>
      (\<exists>app2. application_run example_machine [Video_Turn True, Quit_Message] (scripted_start env) = Some (0, app2) \<and>
         rendered app2 = [])"
proof -
  let ?env = "example_init\<lparr>repl_made := (\<lambda>r. r = Repl_Window)\<rparr>"
  have "init_works ?env" using example_init_works by (simp add: init_works_def stages_work_def)
  then have i: "application_init ?env example_app scripted_options = (True, [], scripted_start ?env)"
    using init_success [of ?env] by (simp add: scripted_start_def)
  obtain srv ends app1 where r: "application_start example_machine (scripted_start ?env) = Run_Loop srv ends app1"
    using scripted_run_starts by blast
  have made: "repl_class_ok ?env" "repl_made ?env Repl_Window" "\<not> (repl_subclass_ok ?env \<and> (\<forall>r. repl_made ?env r))"
    by (simp_all add: example_init_def) (rule exI [of _ Repl_Font], simp)
  have "Idle \<notin> set [Video_Turn True]" by simp
  from failed_repl_ends_run [OF i scripted_fields(3) made r this] i show ?thesis by (simp add: Let_def)
qed

theorem device_size_follows_frames_witness:
  "\<exists>srv ends app1. application_start example_machine example_start = Run_Loop srv ends app1 \<and>
     (\<forall>turns. device_width (app_controller (application_loop example_machine turns app1)) =
        app_width (application_loop example_machine turns app1))"
proof -
  obtain srv ends app1 where r: "application_start example_machine example_start = Run_Loop srv ends app1"
    using example_run_starts by blast
  then show ?thesis using device_size_follows_frames [OF example_initialised r refl] by blast
qed

theorem stopped_run_has_no_threads_witness:
  "\<exists>srv ends app1. application_start example_machine example_start = Run_Loop srv ends app1 \<and>
     \<not> thread_alive (app_video (snd (snd (application_stop example_machine srv ends
        (application_loop example_machine [Idle, Video_Turn True, Audio_Turn (0, True), Script_Turn, Idle] app1)))))"
proof -
  let ?turns = "[Idle, Video_Turn True, Audio_Turn (0, True), Script_Turn, Idle]"
  obtain srv ends app1 where r: "application_start example_machine example_start = Run_Loop srv ends app1"
    using example_run_starts by blast
  obtain ends' sender app where s: "application_stop example_machine srv ends (application_loop example_machine ?turns app1) =
      (ends', sender, app)" by (rule prod_cases3)
  show ?thesis using stopped_run_has_no_threads [OF example_initialised r s] r s by (metis snd_conv)
qed

theorem init_sets_everything_witness:
  "application_init example_init example_app (app_options example_app) = (True, [], example_start) \<and>
     (\<exists>app'. application_init example_init (example_app\<lparr>app_width := 7\<rparr>) (app_options example_app) = (True, [], app') \<and>
        app'\<lparr>app_engine := app_engine example_start, app_repl := app_repl example_start\<rparr> = example_start)"
  using init_sets_everything [OF example_initialised, of "example_app\<lparr>app_width := 7\<rparr>"] example_initialised by blast

theorem failed_init_destroys_memory_witness:
  "\<exists>ds app. application_init (example_init\<lparr>new_player := audio_player_create False\<rparr>) example_app scrcpy_options_default =
     (False, ds, app) \<and> Destroy_Engine example_engine \<in> set ds \<and> Close_Control_Socket \<in> set ds"
proof -
  let ?env = "example_init\<lparr>new_player := audio_player_create False\<rparr>"
  have "stages_work ?env"
    "new_video_decoder ?env = None \<or> new_audio_decoder ?env = None \<or> new_player ?env = None"
    by (simp_all add: stages_work_def example_init_def audio_player_create_def)
  from failed_init_destroys_memory [OF this, of example_app scrcpy_options_default] show ?thesis
    by (auto simp: example_app_def)
qed

theorem script_commands_lost_witness:
  "\<exists>q. idle_turn example_machine (application_loop example_machine
         (map Script_Gives [Inject_Keycode 3 1, Inject_Text (Some [65, 66])]) example_app) =
       (render_latest example_machine example_app)\<lparr>app_engine := example_engine\<lparr>to_main := q\<rparr>\<rparr> \<and> ring_list q = []"
proof -
  have e: "app_script_enabled example_app" "app_engine example_app = example_engine" by (simp_all add: example_app_def)
  then have "script_msg_queue_init True (replicate 256 zero_msg) = Some (to_main (app_engine example_app))"
    using example_queues(1) by simp
  from script_commands_lost [OF e(1) this _ _ refl, of "[Inject_Keycode 3 1, Inject_Text (Some [65, 66])]" example_machine]
  show ?thesis unfolding e(2) by (simp del: example_queues) blast
qed


theorem key_goes_both_ways_witness:
  "scheme_calls (script_thread_turn (\<lambda>_. True) (app_engine (dispatch example_machine no_modifiers
      (if True then Wm_Keydown 0x41 else Wm_Keyup 0x41) example_app))) =
     scheme_calls example_engine @ [Script_Engine.Key_Event 0x41 True]"
proof -
  have "callbacks_set (app_window example_app)" "enabled (app_controller example_app)"
    "idle_socket (app_controller example_app)" "app_script_enabled example_app" "working (app_engine example_app) []"
    using example_controller_fields example_engine_working by (simp_all add: example_app_def)
  from key_goes_both_ways [OF this refl, of example_machine no_modifiers True "0x41"] show ?thesis
    by (simp add: example_app_def)
qed

theorem drag_reaches_device_witness:
  "\<exists>bs. app_controller (fold (dispatch example_machine no_modifiers) (drag (10, 20) [(- 5, 30), (40, 2000)] (270, 600)) example_app) =
       example_controller\<lparr>sock_out := (sock_out example_controller)\<lparr>wire := wire (sock_out example_controller) @ bs\<rparr>\<rparr> \<and>
     (\<exists>ms. parse_all bs = Some ms \<and> length ms = 4)"
proof -
  have "callbacks_set (app_window example_app)" "touches (app_controller example_app)"
    using example_controller_fields by (simp_all add: example_app_def touches_def)
  moreover have "\<forall>r \<in> set ((10, 20) # [(- 5, 30), (40, 2000)] @ [(270, 600)]). on_screen r" by (simp add: on_screen_def)
  ultimately show ?thesis
    using drag_reaches_device [of example_app "(10, 20)" "[(- 5, 30), (40, 2000)]" "(270, 600)" example_machine no_modifiers]
    by (auto simp: example_app_def)
qed

end
