(* ===== verification/Message_Types.thy ===== *)
theory Message_Types
  imports Main_Loop
begin

text \<open>
  The messages of the three queues between Scheme and the window's thread are well-typed at every
  moment of a run: each has a full data block, a size within it, and at least the integers that
  the readers of its type take from it.
\<close>

named_theorems typed \<open>operations that keep the queues of the script engine well-typed\<close>

section \<open>Types of messages\<close>

text \<open>The bytes that the readers of a message take before they look at a text or a picture.\<close>

fun needed_size :: "script_msg_type \<Rightarrow> nat" where
  "needed_size MSG_INJECT_KEYCODE = 8"
| "needed_size MSG_INJECT_TOUCH = 12"
| "needed_size MSG_INJECT_SCROLL = 16"
| "needed_size MSG_SET_DISPLAY_POWER = 4"
| "needed_size MSG_EVENT_KEY = 8"
| "needed_size MSG_EVENT_MOUSE = 16"
| "needed_size MSG_EVENT_FRAME = 8"
| "needed_size MSG_RESPONSE_DEVICE_INFO = 76"
| "needed_size MSG_RESPONSE_FRAME_CAPTURE = 12"
| "needed_size MSG_RESPONSE_VIDEO_SIZE = 8"
| "needed_size MSG_RESPONSE_WINDOW_SIZE = 8"
| "needed_size _ = 0"

text \<open>The slots that have not been used yet hold messages of size 0.\<close>

definition message_typed :: "script_msg \<Rightarrow> bool" where
  "message_typed m \<longleftrightarrow>
     length (msg_data m) = 256 \<and> data_size m \<le> 256 \<and> (data_size m = 0 \<or> needed_size (msg_type m) \<le> data_size m)"

definition queue_typed :: "script_msg msg_queue \<Rightarrow> bool" where
  "queue_typed q \<longleftrightarrow> (\<forall>m \<in> set (items q). message_typed m)"

definition engine_typed :: "script_engine \<Rightarrow> bool" where
  "engine_typed e \<longleftrightarrow> queue_typed (to_main e) \<and> queue_typed (to_scheme e) \<and> queue_typed (response_q e)"

lemma new_msg_typed [typed]:
  assumes "length payload \<le> 256" and "n \<le> 256" and "n = 0 \<or> needed_size t \<le> n"
  shows "message_typed (new_msg t n payload)"
  using assms by (simp add: message_typed_def) (simp add: new_msg_def SCRIPT_MSG_MAX_DATA_SIZE_def)

lemma zero_typed: "message_typed zero_msg"
  by (simp add: zero_msg_def new_msg_typed)

lemma text_typed: "text_msg t s = Some m \<Longrightarrow> needed_size t = 0 \<Longrightarrow> message_typed m"
  by (auto simp: text_msg_def clip_text_def SCRIPT_MSG_MAX_DATA_SIZE_def intro!: new_msg_typed)

lemma command_typed: "command_msg c = Some m \<Longrightarrow> message_typed m"
  by (cases c) (auto simp: codec_simps intro!: new_msg_typed dest: text_typed)

lemma event_typed: "event_msg ev = Some m \<Longrightarrow> message_typed m"
  by (cases ev) (auto simp: codec_simps intro!: new_msg_typed split: if_splits)

lemma answers_typed:
  "message_typed (script_fill_device_info w h name there)" "message_typed (script_fill_video_size w h)"
  "message_typed (script_fill_window_size w h)" "message_typed (script_fill_clipboard s)"
proof -
  show "message_typed (script_fill_device_info w h name there)"
    unfolding script_fill_device_info_def by (rule new_msg_typed) (auto simp: codec_simps split: option.split)
  show "message_typed (script_fill_clipboard s)"
    unfolding script_fill_clipboard_def by (auto intro!: new_msg_typed dest: text_typed split: option.split)
qed (simp_all add: script_fill_video_size_def script_fill_window_size_def new_msg_typed codec_simps)

lemma capture_typed: "script_fill_frame_capture data w h n = Some m \<Longrightarrow> message_typed m"
  by (auto simp: script_fill_frame_capture_def SCRIPT_MSG_MAX_DATA_SIZE_def read_at_def codec_simps intro!: new_msg_typed
      split: option.splits if_splits)

section \<open>Queues and engine\<close>

lemma send_typed:
  assumes "queue_typed q" and "message_typed m"
  shows "queue_typed (snd (script_msg_queue_send m q))"
  using assms
  by (auto simp: queue_typed_def script_msg_queue_send_def send_locked_def send_release_def ring_put_def
      dest!: set_update_subset_insert [THEN subsetD] split: prod.split if_splits)

lemma try_recv_typed: "queue_typed q \<Longrightarrow> queue_typed (snd (script_msg_queue_try_recv q))"
  by (simp add: queue_typed_def script_msg_queue_try_recv_def recv_acquire_def recv_locked_def)

lemma process_typed:
  assumes "script_process_messages cbs act q s = (n, q', s')" and "queue_typed q"
  shows "queue_typed q'"
  using assms
proof (induction cbs act q s arbitrary: n q' s' rule: script_process_messages.induct)
  case (1 cbs act q s)
  obtain m q1 where r: "script_msg_queue_try_recv q = (m, q1)" by (cases "script_msg_queue_try_recv q")
  have q1: "queue_typed q1" using try_recv_typed [OF 1(3)] r by simp
  show ?case
  proof (cases m)
    case None
    then show ?thesis using 1(2) r q1 by (subst (asm) script_process_messages.simps) simp
  next
    case (Some x)
    let ?s = "case main_call_of cbs x of None \<Rightarrow> s | Some c \<Rightarrow> act c s"
    obtain k q2 s2 where p: "script_process_messages cbs act q1 ?s = (k, q2, s2)"
      by (cases "script_process_messages cbs act q1 ?s") auto
    have "q' = q2" using 1(2) r p Some by (subst (asm) script_process_messages.simps) simp
    then show ?thesis using 1(1) [OF r [symmetric, unfolded Some] refl] Some p q1 by blast
  qed
qed

lemma command_sent_typed:
  assumes "queue_typed q" and "script_command c (Some q) = Some q'"
  shows "queue_typed q'"
proof (cases "command_msg c")
  case (Some m)
  then show ?thesis using assms send_typed [OF assms(1) command_typed [OF Some]]
    by (auto simp: script_command_def send_msg_def split: prod.splits)
qed (use assms in \<open>simp add: script_command_def\<close>)

lemma engine_send_typed: "engine_typed e \<Longrightarrow> message_typed m \<Longrightarrow> engine_typed (snd (script_engine_send m e))"
  using send_typed [of "to_scheme e" m] by (auto simp: engine_typed_def script_engine_send_def split: prod.split)

lemma key_event_typed: "engine_typed e \<Longrightarrow> engine_typed (script_dispatch_key_event vk down e)"
  using engine_send_typed [of e] by (simp add: script_dispatch_key_event_def new_msg_typed codec_simps)

lemma thread_turn_typed: "engine_typed e \<Longrightarrow> engine_typed (script_thread_turn defined e)"
  using try_recv_typed [of "to_scheme e"]
  by (auto simp: engine_typed_def script_thread_turn_def split: prod.splits option.splits)

lemma begin_typed: "engine_typed (script_thread_begin exists exe e) = engine_typed e"
  by (simp add: engine_typed_def script_thread_begin_def split: option.split)

lemma start_engine_typed: "engine_typed (start_engine M e) = engine_typed e"
  by (auto simp: start_engine_def script_engine_start_def begin_typed split: prod.split) (simp_all add: engine_typed_def)

lemma engine_init_typed:
  assumes "script_engine_init sems memory path code = Some e" and "\<forall>m \<in> set memory. message_typed m"
  shows "engine_typed e"
  using assms by (auto simp: script_engine_init_def script_msg_queue_init_def engine_typed_def queue_typed_def
      split: if_splits option.splits)

section \<open>The application\<close>

definition app_typed :: "('d, 'a, 'f) application \<Rightarrow> bool" where
  "app_typed app \<longleftrightarrow> (app_script_enabled app \<longrightarrow> engine_typed (app_engine app))"

text \<open>Operations that only put the engine through typed operations.\<close>

lemma respond_typed: "app_typed app \<Longrightarrow> message_typed m \<Longrightarrow> app_typed (respond m app)"
  using send_typed [of "response_q (app_engine app)" m] by (auto simp: app_typed_def respond_def engine_typed_def)

lemma take_frame_typed: "take_frame app = (f, app1) \<Longrightarrow> app_typed app1 = app_typed app"
  by (auto simp: take_frame_def app_typed_def split: prod.splits)

lemma callback_typed:
  assumes "app_typed app"
  shows "app_typed (script_callback client c app)"
proof (cases c)
  case On_Query_Frame_Capture
  obtain f app1 where t: "take_frame app = (f, app1)" by (cases "take_frame app")
  then have "app_typed app1" using assms take_frame_typed by blast
  moreover have "app_typed (app1\<lparr>app_fault := b\<rparr>) = app_typed app1" for b by (simp add: app_typed_def)
  ultimately show ?thesis using On_Query_Frame_Capture
    by (auto simp: on_script_query_frame_capture_def t Let_def intro!: respond_typed dest!: capture_typed split: option.split)
qed (use assms in \<open>auto simp: on_script_query_device_info_def on_script_query_video_size_def on_script_query_window_size_def
    on_script_query_clipboard_def intro!: respond_typed answers_typed\<close>)

lemma render_typed: "app_typed (render_latest M app) = app_typed app"
  by (simp add: app_typed_def render_keeps)

lemma process_app_typed:
  assumes "app_typed a"
  shows "app_typed (process_script client a)"
proof -
  obtain n q app1 where p: "script_process_messages given_callbacks (script_callback client) (to_main (app_engine a)) a =
      (n, q, app1)" by (cases "script_process_messages given_callbacks (script_callback client) (to_main (app_engine a)) a") auto
  have "app_typed app1" using process_invariant [OF p, of app_typed] assms by (simp add: callback_typed)
  moreover have "same_resources a app1"
    by (rule process_invariant [OF p]) (simp, erule same_resources_trans [OF _ callback_threads])
  moreover have "queue_typed q" if "app_script_enabled a"
    using process_typed [OF p] assms that by (simp add: app_typed_def engine_typed_def)
  ultimately show ?thesis
    using assms p by (auto simp: process_script_def app_typed_def engine_typed_def same_resources_def)
qed

lemma event_app_typed: "app_typed app \<Longrightarrow> app_typed (window_event M m c app)"
  by (cases c) (simp_all add: app_typed_def on_key_event_def on_mouse_event_def on_wheel_event_def on_resize_def key_event_typed Let_def)

lemma thread_app_typed:
  assumes "app_typed app"
  shows "app_typed (thread_turn M t app)"
proof (cases t)
  case (Script_Gives c)
  obtain q where q: "script_command c (Some (to_main (app_engine app))) = Some q"
    by (cases "command_msg c"; cases "script_msg_queue_send (the (command_msg c)) (to_main (app_engine app))")
      (auto simp: script_command_def send_msg_def)
  then show ?thesis using assms Script_Gives command_sent_typed [OF _ q] by (auto simp: app_typed_def engine_typed_def)
qed (use assms in \<open>auto simp: app_typed_def thread_turn_typed split: option.split\<close>)

interpretation messages: loop_invariant M app_typed for M
  by unfold_locales (simp_all add: render_typed process_app_typed event_app_typed thread_app_typed, simp_all add: app_typed_def with_repl_def)

lemma init_typed:
  assumes "application_init env mem opts = (True, ds, app)" and "\<forall>m \<in> set (queue_memory env). message_typed m"
  shows "app_typed app"
  using init_successD(3) [OF assms(1)] assms(2)
  by (auto simp: app_typed_def application_script_def with_repl_def Let_def dest: engine_init_typed split: option.splits)

lemma start_typed:
  assumes "application_start M app = Run_Loop srv ends app1" and "app_typed app"
  shows "app_typed app1"
proof -
  have go: "app_typed (application_go M a) = app_typed a" for a
    by (auto simp: application_go_def app_typed_def resize_window_def start_engine_typed Let_def split: option.split)
  obtain app2 where "app1 = application_go M app2" "app_typed app2"
    using assms
    by (auto simp: application_start_def application_video_def give_sockets_def app_typed_def Let_def
        split: start_outcome.splits prod.splits bool.splits if_splits)
  then show ?thesis by (simp add: go)
qed


lemma start_enabled:
  assumes "application_start M app = Run_Loop srv ends app1"
  shows "app_script_enabled app1 = app_script_enabled app"
proof -
  have go: "app_script_enabled (application_go M a) = app_script_enabled a" for a
    by (auto simp: application_go_def resize_window_def Let_def split: option.split)
  obtain app2 where "app1 = application_go M app2" "app_script_enabled app2 = app_script_enabled app"
    using assms
    by (auto simp: application_start_def application_video_def give_sockets_def Let_def
        split: start_outcome.splits prod.splits bool.splits if_splits)
  then show ?thesis by (simp add: go)
qed

lemma scripted_initialised: "application_init example_init example_app scripted_options = (True, [], scripted_start example_init)"
  using init_success [OF example_init_works] by (simp add: scripted_start_def)

lemma scripted_enabled: "app_script_enabled (scripted_start example_init)"
proof -
  have "example_init\<lparr>repl_made := repl_made example_init\<rparr> = example_init" by simp
  then show ?thesis using scripted_fields(3) [of "repl_made example_init"] by simp
qed


end
