(* ===== verification/Log.thy ===== *)
theory Log
  imports Prelude
begin

text \<open>
  The log, \<open>src/platform/log.c\<close>: a threshold and the lines written to the standard error. The time,
  the file and the line number of an entry are left out.
\<close>

datatype log_level = LOG_LEVEL_VERBOSE | LOG_LEVEL_DEBUG | LOG_LEVEL_INFO | LOG_LEVEL_WARN | LOG_LEVEL_ERROR

text \<open>The value of the enumeration; the program also converts from a number, which may be out of its range.\<close>

definition level_value :: "log_level \<Rightarrow> int" where
  "level_value l =
     (case l of LOG_LEVEL_VERBOSE \<Rightarrow> 0 | LOG_LEVEL_DEBUG \<Rightarrow> 1 | LOG_LEVEL_INFO \<Rightarrow> 2 | LOG_LEVEL_WARN \<Rightarrow> 3 | LOG_LEVEL_ERROR \<Rightarrow> 4)"

record log_state =
  threshold :: int
  log_lines :: "(string \<times> string) list"

definition log_init :: "int \<Rightarrow> log_state \<Rightarrow> log_state" where
  "log_init level st = st\<lparr>threshold := level\<rparr>"

definition log_set_level :: "int \<Rightarrow> log_state \<Rightarrow> log_state" where
  "log_set_level level st = st\<lparr>threshold := level\<rparr>"

definition level_str :: "string list" where
  "level_str = [''VERBOSE'', ''DEBUG'', ''INFO'', ''WARN'', ''ERROR'']"

text \<open>\<open>None\<close> is a read outside the table of names.\<close>

definition log_write :: "int \<Rightarrow> string \<Rightarrow> log_state \<Rightarrow> log_state option" where
  "log_write level text st =
     (if level < threshold st then Some st
      else if level < 0 \<or> level \<ge> int (length level_str) then None
      else Some (st\<lparr>log_lines := log_lines st @ [(level_str ! nat level, text)]\<rparr>))"

lemma log_write_level:
  "log_write (level_value l) text st =
     Some (if level_value l < threshold st then st
           else st\<lparr>log_lines := log_lines st @ [(level_str ! nat (level_value l), text)]\<rparr>)"
  by (cases l) (simp_all add: log_write_def level_value_def level_str_def)

text \<open>Raising the threshold only removes lines.\<close>

lemma log_write_monotone:
  assumes "threshold st \<le> t" and "log_write level text st = Some st1"
  shows "\<exists>st2. log_write level text (log_set_level t st) = Some st2 \<and>
     (log_lines st2 = log_lines st1 \<or> log_lines st2 = log_lines st)"
  using assms by (auto simp: log_write_def log_set_level_def split: if_splits)

end
