(* ===== verification/Script_Bindings.thy ===== *)
theory Script_Bindings
  imports Script_Engine Log
begin

text \<open>
  What the bindings of \<open>src/script/bindings.c\<close> offer to Scheme code: the table of foreign symbols, the two
  queues they use, and the two functions that send no message. The commands and queries themselves are
  in \<open>Script_Messages\<close>.
\<close>

section \<open>The foreign symbols\<close>

datatype c_function =
    C_Inject_Keycode | C_Inject_Text | C_Inject_Touch | C_Inject_Scroll | C_Set_Clipboard | C_Expand_Notification
  | C_Collapse_Panels | C_Set_Display_Power | C_Rotate_Device | C_Start_App | C_Sleep_Ms | C_Log_Message
  | C_Query_Device_Info | C_Query_Video_Size | C_Query_Window_Size | C_Query_Clipboard | C_Query_Frame_Capture

definition foreign_symbols :: "(string \<times> c_function) list" where
  "foreign_symbols =
     [(''c-inject-keycode'', C_Inject_Keycode), (''c-inject-text'', C_Inject_Text), (''c-inject-touch'', C_Inject_Touch),
      (''c-inject-scroll'', C_Inject_Scroll), (''c-set-clipboard'', C_Set_Clipboard),
      (''c-expand-notification'', C_Expand_Notification), (''c-collapse-panels'', C_Collapse_Panels),
      (''c-set-display-power'', C_Set_Display_Power), (''c-rotate-device'', C_Rotate_Device), (''c-start-app'', C_Start_App),
      (''c-sleep-ms'', C_Sleep_Ms), (''c-log-message'', C_Log_Message),
      (''c-query-device-info'', C_Query_Device_Info), (''c-query-video-size'', C_Query_Video_Size),
      (''c-query-window-size'', C_Query_Window_Size), (''c-query-clipboard'', C_Query_Clipboard),
      (''c-query-frame-capture'', C_Query_Frame_Capture)]"

text \<open>
  The static variables of the file and what Chez Scheme has been told. A later registration of a name
  replaces an earlier one.
\<close>

record bindings =
  g_to_main :: "script_msg msg_queue option"
  g_response_q :: "script_msg msg_queue option"
  registered :: "string \<rightharpoonup> c_function"

definition sforeign_symbol :: "string \<times> c_function \<Rightarrow> (string \<rightharpoonup> c_function) \<Rightarrow> string \<rightharpoonup> c_function" where
  "sforeign_symbol sf m = m(fst sf \<mapsto> snd sf)"

definition script_bindings_init ::
  "script_msg msg_queue option \<Rightarrow> script_msg msg_queue option \<Rightarrow> bindings \<Rightarrow> bool \<times> bindings" where
  "script_bindings_init main_q resp_q b =
     (if main_q = None then (False, b)
      else (True, b\<lparr>g_to_main := main_q, g_response_q := resp_q,
                    registered := fold sforeign_symbol foreign_symbols (registered b)\<rparr>))"

section \<open>Calls from Scheme\<close>

text \<open>
  Chez Scheme converts the arguments by the types \<open>lib/init.ss\<close> gives for a symbol: numbers to \<open>int\<close>, strings
  to C strings. \<open>command_of\<close> is the command a function is called for, with the number of arguments of its
  parameter list.
\<close>

datatype scheme_arg = Int_Arg u32 | Text_Arg "bytes option"

definition command_of :: "c_function \<Rightarrow> scheme_arg list \<Rightarrow> script_command option" where
  "command_of f args =
     (case f of
        C_Inject_Keycode \<Rightarrow> (case args of [Int_Arg k, Int_Arg d] \<Rightarrow> Some (Inject_Keycode k d) | _ \<Rightarrow> None)
      | C_Inject_Text \<Rightarrow> (case args of [Text_Arg s] \<Rightarrow> Some (Inject_Text s) | _ \<Rightarrow> None)
      | C_Inject_Touch \<Rightarrow> (case args of [Int_Arg x, Int_Arg y, Int_Arg a] \<Rightarrow> Some (Inject_Touch x y a) | _ \<Rightarrow> None)
      | C_Inject_Scroll \<Rightarrow>
          (case args of [Int_Arg x, Int_Arg y, Int_Arg dx, Int_Arg dy] \<Rightarrow> Some (Inject_Scroll x y dx dy) | _ \<Rightarrow> None)
      | C_Set_Clipboard \<Rightarrow> (case args of [Text_Arg s] \<Rightarrow> Some (Set_Clipboard s) | _ \<Rightarrow> None)
      | C_Expand_Notification \<Rightarrow> (case args of [] \<Rightarrow> Some Expand_Notification | _ \<Rightarrow> None)
      | C_Collapse_Panels \<Rightarrow> (case args of [] \<Rightarrow> Some Collapse_Panels | _ \<Rightarrow> None)
      | C_Set_Display_Power \<Rightarrow> (case args of [Int_Arg on] \<Rightarrow> Some (Set_Display_Power on) | _ \<Rightarrow> None)
      | C_Rotate_Device \<Rightarrow> (case args of [] \<Rightarrow> Some Rotate_Device | _ \<Rightarrow> None)
      | C_Start_App \<Rightarrow> (case args of [Text_Arg s] \<Rightarrow> Some (Start_App s) | _ \<Rightarrow> None)
      | _ \<Rightarrow> None)"

definition call_foreign :: "string \<Rightarrow> scheme_arg list \<Rightarrow> bindings \<Rightarrow> bindings" where
  "call_foreign name args b =
     (case Option.bind (registered b name) (\<lambda>f. command_of f args) of
        None \<Rightarrow> b
      | Some c \<Rightarrow> b\<lparr>g_to_main := script_command c (g_to_main b)\<rparr>)"

text \<open>A negative number of milliseconds is taken for none.\<close>

definition c_sleep_ms :: "u32 \<Rightarrow> nat" where
  "c_sleep_ms ms = (if sint ms < 0 then 0 else unat ms)"

definition c_log_message :: "int \<Rightarrow> string option \<Rightarrow> log_state \<Rightarrow> log_state option" where
  "c_log_message level msg st =
     (case msg of
        None \<Rightarrow> Some st
      | Some s \<Rightarrow> log_write (if level \<in> {0, 1, 2, 3, 4} then level else level_value LOG_LEVEL_INFO) s st)"

section \<open>Every command can be given\<close>

lemma foreign_symbols_distinct: "distinct (map fst foreign_symbols)" "length foreign_symbols = 17"
  by (simp_all add: foreign_symbols_def)

lemma fold_updates_map_of: "distinct (map fst xs) \<Longrightarrow> fold sforeign_symbol xs m = m ++ map_of xs"
proof (induction xs arbitrary: m)
  case (Cons x xs)
  have "sforeign_symbol x m ++ map_of xs = m ++ map_of (x # xs)"
    using Cons.prems
    by (auto simp: sforeign_symbol_def map_add_def fun_eq_iff dest: map_of_SomeD split: option.split intro: rev_image_eqI)
  moreover have "fold sforeign_symbol xs (sforeign_symbol x m) = sforeign_symbol x m ++ map_of xs"
    by (rule Cons.IH) (use Cons.prems in simp)
  ultimately show ?case by (simp only: fold_Cons o_apply)
qed simp

lemma registered_symbols:
  assumes "script_bindings_init (Some q) r b = (ok, b')"
  shows "ok \<and> g_to_main b' = Some q \<and> g_response_q b' = r \<and> (\<forall>(s, f) \<in> set foreign_symbols. registered b' s = Some f)"
proof -
  have b: "ok" "b' = b\<lparr>g_to_main := Some q, g_response_q := r, registered := registered b ++ map_of foreign_symbols\<rparr>"
    using assms by (auto simp: script_bindings_init_def fold_updates_map_of [OF foreign_symbols_distinct(1)])
  have "map_of foreign_symbols s = Some f" if "(s, f) \<in> set foreign_symbols" for s f
    using that foreign_symbols_distinct(1) by simp
  then show ?thesis using b by (auto simp: map_add_find_right)
qed

text \<open>The arguments a command is called with, and its symbol.\<close>

fun command_call_args :: "script_command \<Rightarrow> string \<times> scheme_arg list" where
  "command_call_args (Inject_Keycode k d) = (''c-inject-keycode'', [Int_Arg k, Int_Arg d])"
| "command_call_args (Inject_Text s) = (''c-inject-text'', [Text_Arg s])"
| "command_call_args (Inject_Touch x y a) = (''c-inject-touch'', [Int_Arg x, Int_Arg y, Int_Arg a])"
| "command_call_args (Inject_Scroll x y dx dy) = (''c-inject-scroll'', [Int_Arg x, Int_Arg y, Int_Arg dx, Int_Arg dy])"
| "command_call_args (Set_Clipboard s) = (''c-set-clipboard'', [Text_Arg s])"
| "command_call_args Expand_Notification = (''c-expand-notification'', [])"
| "command_call_args Collapse_Panels = (''c-collapse-panels'', [])"
| "command_call_args (Set_Display_Power on) = (''c-set-display-power'', [Int_Arg on])"
| "command_call_args Rotate_Device = (''c-rotate-device'', [])"
| "command_call_args (Start_App s) = (''c-start-app'', [Text_Arg s])"

lemma command_symbol:
  "\<exists>f. (fst (command_call_args c), f) \<in> set foreign_symbols \<and> command_of f (snd (command_call_args c)) = Some c"
proof (cases c)
qed (simp_all add: foreign_symbols_def command_of_def)

lemma call_foreign_gives:
  assumes "\<forall>(s, f) \<in> set foreign_symbols. registered b s = Some f"
  shows "call_foreign (fst (command_call_args c)) (snd (command_call_args c)) b = b\<lparr>g_to_main := script_command c (g_to_main b)\<rparr>"
proof -
  obtain f where f: "(fst (command_call_args c), f) \<in> set foreign_symbols" "command_of f (snd (command_call_args c)) = Some c"
    using command_symbol by blast
  then have "registered b (fst (command_call_args c)) = Some f" using assms by blast
  then show ?thesis using f(2) by (simp add: call_foreign_def)
qed

definition scheme_call_of :: "script_command \<Rightarrow> bindings \<Rightarrow> bindings" where
  "scheme_call_of c = call_foreign (fst (command_call_args c)) (snd (command_call_args c))"

lemma scheme_calls_give:
  "\<forall>(s, f) \<in> set foreign_symbols. registered b s = Some f \<Longrightarrow>
     g_to_main (fold scheme_call_of cs b) = fold script_command cs (g_to_main b)"
proof (induction cs arbitrary: b)
  case (Cons c cs)
  have "scheme_call_of c b = b\<lparr>g_to_main := script_command c (g_to_main b)\<rparr>"
    unfolding scheme_call_of_def by (rule call_foreign_gives [OF Cons.prems])
  then show ?case using Cons by simp
qed simp



end
