(* ===== verification/Clipboard.thy ===== *)
theory Clipboard
  imports Prelude
begin

text \<open>
  The clipboard of Windows, \<open>src/control/clipboard.c\<close>: its contents, who has it open and which memory is locked.
  The conversions between UTF-16 and UTF-8 are calls of Windows and arguments here; on other systems the
  two operations fail.
\<close>

section \<open>The clipboard\<close>

text \<open>\<open>clip_contents\<close> is the text under \<open>CF_UNICODETEXT\<close>, ended by a zero; \<open>opened\<close> and \<open>locked\<close> count calls not yet undone.\<close>

record clipboard =
  clip_contents :: "u16 list option"
  opened :: nat
  locked :: nat

text \<open>What Windows and the allocator answer.\<close>

record clip_env =
  can_open :: bool
  can_lock :: bool
  can_alloc :: "nat \<Rightarrow> bool"
  can_galloc :: "nat \<Rightarrow> bool"
  can_set :: bool
  to_utf8 :: "u16 list \<Rightarrow> bytes"
  to_utf16 :: "bytes \<Rightarrow> u16 list"

definition close_clipboard :: "clipboard \<Rightarrow> clipboard" where
  "close_clipboard cb = cb\<lparr>opened := opened cb - 1\<rparr>"

text \<open>The text that is handed out has a zero behind its \<open>len\<close> bytes.\<close>

definition clipboard_get_text :: "clip_env \<Rightarrow> clipboard \<Rightarrow> (bytes \<times> nat) option \<times> clipboard" where
  "clipboard_get_text env cb =
     (if \<not> can_open env then (None, cb)
      else
        let cb1 = cb\<lparr>opened := opened cb + 1\<rparr>
        in case clip_contents cb1 of
             None \<Rightarrow> (None, close_clipboard cb1)
           | Some h \<Rightarrow>
               if \<not> can_lock env then (None, close_clipboard cb1)
               else
                 let cb2 = cb1\<lparr>locked := locked cb1 + 1\<rparr>;
                     wtext = takeWhile (\<lambda>u. u \<noteq> 0) h;
                     utf8_len = length (to_utf8 env wtext);
                     cb3 = close_clipboard (cb2\<lparr>locked := locked cb2 - 1\<rparr>)
                 in if \<not> can_alloc env (utf8_len + 1) then (None, cb3)
                    else (Some (to_utf8 env wtext @ [0], utf8_len), cb3))"

text \<open>
  The result of \<open>GlobalLock\<close> is not looked at: \<open>None\<close> is the write through its null pointer. Nor is the result of
  \<open>SetClipboardData\<close>, which without success leaves the clipboard empty.
\<close>

definition clipboard_set_text :: "clip_env \<Rightarrow> bytes \<Rightarrow> clipboard \<Rightarrow> (bool \<times> clipboard) option" where
  "clipboard_set_text env text cb =
     (if \<not> can_open env then Some (False, cb)
      else
        let cb1 = cb\<lparr>opened := opened cb + 1, clip_contents := None\<rparr>;
            w = to_utf16 env text
        in if \<not> can_galloc env ((length w + 1) * 2) then Some (False, close_clipboard cb1)
           else if \<not> can_lock env then None
           else
             let cb2 = (if can_set env then cb1\<lparr>clip_contents := Some (w @ [0])\<rparr> else cb1)
             in Some (True, close_clipboard cb2))"

section \<open>What is put there is read back\<close>

text \<open>Whatever happens, the clipboard is closed and its memory unlocked again.\<close>

lemma clipboard_closed:
  "opened (snd (clipboard_get_text env cb)) = opened cb" "locked (snd (clipboard_get_text env cb)) = locked cb"
  "clip_contents (snd (clipboard_get_text env cb)) = clip_contents cb"
  "clipboard_set_text env text cb = Some (ok, cb') \<Longrightarrow> opened cb' = opened cb \<and> locked cb' = locked cb"
  by (auto simp: clipboard_get_text_def clipboard_set_text_def close_clipboard_def Let_def split: option.splits if_splits)

text \<open>A text that the conversions bring back, without a zero, is read back as it was set, with its length.\<close>

theorem clipboard_roundtrip:
  assumes "clipboard_set_text env text cb = Some (True, cb1)" and "can_set env"
    and "to_utf8 env (to_utf16 env text) = text" and "0 \<notin> set (to_utf16 env text)"
    and "can_alloc env (length text + 1)"
  shows "\<exists>cb2. clipboard_get_text env cb1 = (Some (text @ [0], length text), cb2) \<and> cb2 = cb1"
proof -
  let ?w = "to_utf16 env text"
  have env: "can_open env" "can_lock env" and cb1: "clip_contents cb1 = Some (?w @ [0])"
    using assms(1,2) by (auto simp: clipboard_set_text_def close_clipboard_def Let_def split: if_splits)
  have "takeWhile (\<lambda>u. u \<noteq> 0) (?w @ [0]) = ?w" using assms(4) by (induction ?w) (auto simp: takeWhile_append)
  then show ?thesis
    using env cb1 assms(3,5) by (simp add: clipboard_get_text_def close_clipboard_def Let_def)
qed

definition example_clip :: clip_env where
  "example_clip =
     \<lparr>can_open = True, can_lock = True, can_alloc = (\<lambda>_. True), can_galloc = (\<lambda>_. True), can_set = True,
      to_utf8 = map ucast, to_utf16 = map ucast\<rparr>"

theorem clipboard_roundtrip_witness:
  "\<exists>cb1. clipboard_set_text example_clip [72, 105] \<lparr>clip_contents = None, opened = 0, locked = 0\<rparr> = Some (True, cb1) \<and>
     clipboard_get_text example_clip cb1 = (Some ([72, 105, 0], 2), cb1)"
proof -
  obtain cb1 where c: "clipboard_set_text example_clip [72, 105] \<lparr>clip_contents = None, opened = 0, locked = 0\<rparr> = Some (True, cb1)"
    by (simp add: clipboard_set_text_def example_clip_def Let_def)
  have e: "can_set example_clip" "to_utf8 example_clip (to_utf16 example_clip [72, 105]) = [72, 105]"
    "0 \<notin> set (to_utf16 example_clip [72, 105])" "can_alloc example_clip (length [72, 105 :: 8 word] + 1)"
    by (simp_all add: example_clip_def)
  from clipboard_roundtrip [OF c e] c show ?thesis by (simp add: numeral_2_eq_2)
qed

text \<open>A failure to allocate or to hand over the memory has already cost the clipboard its contents.\<close>

lemma clipboard_set_failure_empties:
  assumes "can_open env" and "\<not> can_galloc env ((length (to_utf16 env text) + 1) * 2) \<or> (can_lock env \<and> \<not> can_set env)"
  shows "\<exists>ok cb'. clipboard_set_text env text cb = Some (ok, cb') \<and> clip_contents cb' = None"
  using assms by (auto simp: clipboard_set_text_def close_clipboard_def Let_def)

lemma clipboard_set_faults_iff:
  "clipboard_set_text env text cb = None \<longleftrightarrow>
     can_open env \<and> can_galloc env ((length (to_utf16 env text) + 1) * 2) \<and> \<not> can_lock env"
  by (simp add: clipboard_set_text_def Let_def)

end
