(* ===== verification/Screen_Power.thy ===== *)
theory Screen_Power
  imports Adb
begin

text \<open>
  The power of the device's screen, \<open>src/control/power.c\<close>: a shell command on a connection, \<open>None\<close> for a null
  pointer. No other part of the program calls it.
\<close>

definition power_command :: "bool \<Rightarrow> string" where
  "power_command on = (if on then ''input keyevent KEYCODE_WAKEUP'' else ''input keyevent KEYCODE_SLEEP'')"

definition power_set_screen_power ::
  "services \<Rightarrow> adb_connection option \<Rightarrow> bool \<Rightarrow> bool \<times> adb_connection option" where
  "power_set_screen_power sv conn on =
     (case conn of
        None \<Rightarrow> (False, None)
      | Some c \<Rightarrow> (case adb_shell sv (power_command on) c of (ok, c') \<Rightarrow> (ok, Some c')))"

text \<open>On an idle connection with room for a channel the command is sent whole, as the service of a new channel.\<close>

lemma power_command_sent:
  assumes "idle_plain c" and "state c = ADB_STATE_CONNECTED" and "length (channels c) < 64"
  shows "\<exists>c'. power_set_screen_power sv (Some c) on = (True, Some c') \<and>
     (let serv = cstr (''shell:'' @ power_command on)
      in wire (tx c') = wire (tx c) @ header_bytes (sent_message ADB_OPEN (next_local_id c) 0 serv True) @ serv)"
proof -
  have "length (power_command on) < 250" by (simp add: power_command_def)
  from shell_sent [OF assms this, of sv] show ?thesis by (auto simp: power_set_screen_power_def Let_def)
qed

lemma power_refused:
  "power_set_screen_power sv None on = (False, None)"
  "state c \<noteq> ADB_STATE_CONNECTED \<Longrightarrow> power_set_screen_power sv (Some c) on = (False, Some c)"
  by (simp_all add: power_set_screen_power_def adb_shell_def)

end
