(* ===== verification/Spec2Isabelle.thy ===== *)
theory Spec2Isabelle
  imports Device_Msg Queues Recorder Regulator Credentials Message_Types Script_Bindings Clipboard Screen_Power
begin

text \<open>
  Verification of autoscrcpy, a client that shows and controls an Android device: it speaks the ADB
  protocol, starts a server on the device, and exchanges video, audio and control messages with it
  over ADB channels. All paths are below \<open>src/\<close> of the repository.

  \<^bold>\<open>The parts and how they interact.\<close> \<open>main\<close> reads the configuration and the command line,
  makes the application, runs it and destroys it. A run connects to the device (\<open>adb/\<close>), pushes and
  starts the server and opens one channel each for video, audio and control (\<open>device/server.c\<close>). From
  then on a reader thread relays the payloads of the channels through socket pairs to the video
  thread (decoder, hand-over of the newest frame), the audio thread (decoder, player) and back from
  the control socket to the device. The main thread dispatches window messages to the controller,
  which sends control messages, and when idle draws the newest frame and answers the script
  engine, whose thread runs Scheme code and exchanges messages with it through three queues.

  \<^bold>\<open>Theories and code.\<close>
    \<^item> \<open>Prelude\<close>: machine types, memory blocks, C strings. \<open>Binary\<close>: \<open>adb/binary.h\<close>. \<open>C_Text\<close>: the functions
      of the C library on text.
    \<^item> \<open>Sockets\<close>, \<open>Tls\<close>: \<open>platform/net_util.h\<close>, the transport half of \<open>adb/tls.c\<close> and the loops around
      \<open>recv\<close> and \<open>send\<close>. What the peer sends is a list of socket events, what is sent a list of bytes.
    \<^item> \<open>Adb_Protocol\<close>: \<open>adb/protocol.c\<close>. \<open>Adb_Session\<close>, \<open>Adb_Channels\<close>: \<open>adb/session.c\<close>, the channel table as
      a map. \<open>Adb\<close>: \<open>adb/adb.c\<close>. \<open>Credentials\<close>: \<open>adb/crypto.c\<close> and the configuration half of \<open>adb/tls.c\<close>.
    \<^item> \<open>Server\<close>: start, stop and destruction of \<open>device/server.c\<close>; \<open>Server_Relay\<close>: its threads;
      \<open>Loopback\<close>: its socket pairs.
    \<^item> \<open>Demuxer\<close>, \<open>Device_Sockets\<close>, \<open>Device_Msg\<close>: the other files of \<open>device/\<close>. \<open>Clipboard\<close>, \<open>Screen_Power\<close>:
      \<open>control/clipboard.c\<close>, \<open>control/power.c\<close>. \<open>Log\<close>: \<open>platform/log.c\<close>.
    \<^item> \<open>Control_Msg\<close>, \<open>Input\<close>, \<open>Controller\<close>: \<open>control/control_msg.c\<close>, \<open>input/\<close>, \<open>control/controller.c\<close>.
    \<^item> \<open>Queues\<close>: \<open>decode/packet_queue.c\<close>, \<open>script/message_queue.c\<close>. \<open>Shared_Frame\<close>: \<open>pipeline/pipeline.h\<close> and
      \<open>decode/frame_buffer.c\<close>.
    \<^item> \<open>Nv12\<close>, \<open>Video_Pipeline\<close>: \<open>decode/video_decoder.c\<close>, \<open>pipeline/video_pipeline.c\<close>. \<open>Regulator\<close>,
      \<open>Audio_Pipeline\<close>: \<open>audio/\<close>, \<open>decode/audio_decoder.c\<close>, \<open>pipeline/audio_pipeline.c\<close>. \<open>Recorder\<close>: \<open>record/\<close>.
    \<^item> \<open>Renderer\<close>: \<open>render/d3d_context.c\<close>, \<open>render/shader.c\<close>, \<open>render/video_renderer.c\<close>,
      \<open>render/texture.c\<close>.
    \<^item> \<open>Script_Messages\<close>, \<open>Script_Bindings\<close>: \<open>script/bindings.c\<close>, \<open>script/event_dispatch.c\<close>. \<open>Script_Engine\<close>: \<open>script/engine.c\<close>.
      \<open>Repl\<close>: \<open>script/repl_window.c\<close>.
    \<^item> \<open>Options\<close>: \<open>app/options.c\<close>, \<open>app/config.c\<close>, \<open>app/cli.c\<close>. \<open>Window\<close>: \<open>app/window.c\<close>. \<open>Application\<close>:
      \<open>app/application.c\<close>. \<open>Main_Loop\<close> and \<open>Message_Types\<close>: properties of the application over whole runs.
    \<^item> This theory: \<open>main.c\<close>, and the properties that span decoder, hand-over, main loop and renderer.

  A structure of the code is a record with the fields' names, an operation a definition with the
  function's name that takes and returns the record. What structures share through pointers is held
  once. An operation that may fail returns a flag or an option as the code does; an access outside
  a block is \<open>None\<close> or a flag of its own. Threads are interleaved: a step is what a function does
  under its mutex or one atomic instruction, a turn one round of a thread's loop, and a run a list
  of turns or a derivation of an inductive relation, so that a theorem about all lists of turns is
  one about all interleavings.

  \<^bold>\<open>Libraries as parameters.\<close> FFmpeg, mbedTLS, WASAPI, Direct3D and Chez Scheme are records of functions
  that say what their calls give; the floating-point operations are records too. A theorem that
  relies on documented behaviour of one names it (\<open>makes_progress\<close>, \<open>mpi_documented\<close>, \<open>card_takes\<close>),
  and its witness gives an instance.

  \<^bold>\<open>Interfaces.\<close> Each contract that several components share is a locale: fixed-width codecs
  (\<open>byte_codec\<close>), readers of exact lengths over plain sockets and TLS (\<open>byte_reader\<close>), bounded queues
  (\<open>bounded_fifo\<close>), and what the steps of the main loop and the threads keep (\<open>loop_invariant\<close>). All are
  interpreted on the model's own operations, and the lemmas proved in them carry the properties.

  \<^bold>\<open>What the lemmas show.\<close>
    \<^item> Messages: what is sent is read back, a receive accepts exactly the valid frames, the session
      implements a partial map of channels, a connection stays within its limits in every run.
    \<^item> The server starts on a device that answers, tears everything down on every failing branch, and
      relays each channel's bytes in order in every interleaving.
    \<^item> Queues and the frame hand-over keep their contents in order, or the newest frame, in every
      interleaving; the audio ring is a window of the last samples.
    \<^item> A picture that arrives on the video socket is in the texture, sample by sample, after two turns;
      keys, the pointer and drags reach the device as the control messages they mean.
    \<^item> Scheme code is called with the events given to it and is answered by the main loop; every message
      between the two is well-typed at every moment.
    \<^item> Configuration files are read back as they were written, and the command line overrides them.
    \<^item> Errors the code has are proved as such: a lost clipboard text, a negative length given to \<open>recv\<close>,
      commands of a script without effect, memory destroyed before it is set up, pending bytes that
      no thread reads, a quit message posted by a failed REPL window, a socket closed twice.

  \<^bold>\<open>Bounds and fuel.\<close> The loops of the code with a fixed number of rounds (100 of the handshake, 300
  looks at a channel, 500 wants of a TLS write) have it as an argument. Loops over input end because
  the list of events does. The decoder's loop, which need not end, is a \<open>partial_function\<close>, and its
  return is a theorem.

  \<^bold>\<open>Not modelled.\<close> \<open>platform/thread.c\<close> and \<open>platform/atomic.h\<close>, one-line wrappers of the operating system
  whose meaning is the atomicity of the steps; \<open>render/shader_bytecode.h\<close>, which is generated; the title of
  the window with the frame rate, the calls of the log in the other parts and the text of the usage.
  \<open>control/clipboard.c\<close>, \<open>control/power.c\<close>, \<open>render/texture.c\<close> and the float conversions of \<open>adb/binary.h\<close> are
  modelled on their own, since no part of the program calls them.
\<close>

section \<open>From the socket to the screen\<close>

text \<open>A card on which everything can be made and whose texture for the size of a picture has rows of
  \<open>pitch\<close> bytes.\<close>

definition card_takes :: "('g, 'f) graphics_card \<Rightarrow> av_frame \<Rightarrow> nat \<Rightarrow> bool" where
  "card_takes G src pitch \<longleftrightarrow>
     (\<forall>g. can_make G g) \<and> av_width src \<le> pitch \<and> pitch * (av_height src + av_height src div 2) < 2 ^ 32 \<and>
     (\<exists>block. map_texture G (word_of_nat (av_width src)) (word_of_nat (av_height src)) = Some (pitch, block) \<and>
        length block = pitch * (av_height src + av_height src div 2))"

text \<open>The renderer has the texture for its size, or the picture has another size.\<close>

definition texture_there :: "'f video_renderer \<Rightarrow> av_frame \<Rightarrow> bool" where
  "texture_there rend src \<longleftrightarrow>
     Nv12_Staging \<in> made rend \<or> video_width rend \<noteq> word_of_nat (av_width src) \<or> video_height rend \<noteq> word_of_nat (av_height src)"

lemma ensure_texture:
  assumes "\<forall>g. can_make G g" and "texture_there rend src"
  obtains rend1 where
    "ensure_nv12_texture (can_make G) (word_of_nat (av_width src)) (word_of_nat (av_height src)) rend = (True, rend1)"
    "Nv12_Staging \<in> made rend1" "video_width rend1 = word_of_nat (av_width src)"
    "video_height rend1 = word_of_nat (av_height src)" "drawn rend1 = drawn rend"
  using assms that by (cases "video_width rend = word_of_nat (av_width src) \<and> video_height rend = word_of_nat (av_height src)")
    (auto simp: ensure_nv12_texture_def texture_there_def textures_def)

lemma transform_keeps:
  "texture (update_aspect_ratio_transform D r one rend) = texture rend"
  "drawn (update_aspect_ratio_transform D r one rend) = drawn rend"
  by (simp_all add: update_aspect_ratio_transform_def Let_def)

lemma picture_rendered:
  assumes "rend_initialized rend" and "card_takes G src pitch" and "texture_there rend src" and "picture_ok src"
    and "always_allocates mal"
  shows "\<exists>rend1 d. video_renderer_render G rend (nv12_of mal src) = Some (True, rend1) \<and> texture rend1 = (pitch, d) \<and>
     texture_shows src pitch d \<and> drawn rend1 = Suc (drawn rend)"
proof -
  obtain memory where m: "mal (nv12_size (av_width src) (av_height src)) = Some memory"
    "length memory = nv12_size (av_width src) (av_height src)" using assms(5) unfolding always_allocates_def by blast
  obtain block where b: "map_texture G (word_of_nat (av_width src)) (word_of_nat (av_height src)) = Some (pitch, block)"
    "length block = pitch * (av_height src + av_height src div 2)"
    and c: "\<forall>g. can_make G g" "av_width src \<le> pitch" "pitch * (av_height src + av_height src div 2) < 2 ^ 32"
    using assms(2) unfolding card_takes_def by blast
  obtain data d where u: "frame_to_nv12 mal src =
      Some (True, \<lparr>nv12_data = Some data, frame_width = av_width src, frame_height = av_height src, frame_format = 0\<rparr>)"
    "update_nv12_texture (Some (pitch, block)) data (av_width src) (av_height src) = Some (Some (pitch, d))"
    "texture_shows src pitch d"
    using picture_uploaded [of src mal memory, OF assms(4) m b(2) c(3) c(2)] by blast
  obtain rend0 where e: "ensure_nv12_texture (can_make G) (word_of_nat (av_width src)) (word_of_nat (av_height src)) rend = (True, rend0)"
    "Nv12_Staging \<in> made rend0" "video_width rend0 = word_of_nat (av_width src)"
    "video_height rend0 = word_of_nat (av_height src)" "drawn rend0 = drawn rend" using ensure_texture [OF c(1) assms(3)] by blast
  show ?thesis
    using assms(1) u(2,3) e(2-5) by (simp add: video_renderer_render_def nv12_of_def u(1) e(1) b(1) Let_def transform_keeps)
qed

lemma process_keeps_picture:
  fixes app :: "('d, 'a, 'f) application"
  shows
  "app_renderer (process_script client app) = app_renderer app \<and> app_ctx (process_script client app) = app_ctx app \<and>
     app_controller (process_script client app) = app_controller app"
proof -
  let ?P = "\<lambda>a :: ('d, 'a, 'f) application. app_renderer a = app_renderer app \<and> app_ctx a = app_ctx app \<and>
    app_controller a = app_controller app"
  have "?P (script_callback client c a)" if "?P a" for c a
    using that by (cases c) (auto simp: on_script_query_device_info_def on_script_query_video_size_def
        on_script_query_window_size_def on_script_query_clipboard_def on_script_query_frame_capture_def respond_def
        take_frame_def Let_def split: prod.split option.split)
  then show ?thesis using process_script_invariant [of ?P app client] by simp
qed

lemma video_turn_submits:
  assumes "thread_alive vp \<and> vp_running vp" and "video_fd (vp_sock vp) = Some s" and "recv VIDEO_BUF s = (Got buf, s1)"
    and "dec_parser (vp_decoder vp) \<and> dec_codec (vp_decoder vp)"
    and "decodes lib buf (dec_state (vp_decoder vp)) pics d'" and "pics \<noteq> []" and "\<forall>p \<in> set pics. picture_ok p"
    and "always_allocates mal"
  shows "\<exists>vp1. video_thread_turn lib mal True vp = Some vp1 \<and>
     fst (shared_frame_acquire (vp_frame vp1)) = Some (nv12_of mal (last pics))"
proof -
  have "length buf \<le> VIDEO_BUF" by (rule recv_Got(2) [OF assms(3)]) (simp add: VIDEO_BUF_def)
  then have "length buf < 2 ^ 31" by (simp add: VIDEO_BUF_def)
  then have "video_decoder_decode lib mal (vp_decoder vp) buf = Some (Decoded True (nv12_of mal (last pics)) d')"
    using decode_loop_decodes [OF assms(5,7,8)] assms(4,6) by (simp add: video_decoder_decode_def)
  then show ?thesis
    using assms(1-3)
    by (simp add: video_thread_turn_def Let_def shared_frame_submit_def submit_swap_def submit_raise_def
        shared_frame_acquire_def acquire_claim_def acquire_take_def)
qed

lemma dimensions_keep:
  "app_renderer (new_dimensions M f app) = app_renderer app \<and> app_ctx (new_dimensions M f app) = app_ctx app"
  by (simp add: new_dimensions_def resize_window_def Let_def split: option.split)

text \<open>C10. What the device shows is drawn with the next idle turn: when the video socket gives a chunk of
  which parser and decoder make pictures, a turn of the video thread and an idle turn of the main
  loop after it bring the last of these pictures, every sample in its place, into the texture,
  draw it once and present it once.\<close>

theorem socket_to_screen:
  assumes "looping app \<and> app_running app" and "thread_alive (app_video app) \<and> vp_running (app_video app)"
    and "video_fd (vp_sock (app_video app)) = Some s" and "recv VIDEO_BUF s = (Got buf, s1)"
    and "dec_parser (vp_decoder (app_video app)) \<and> dec_codec (vp_decoder (app_video app))"
    and "decodes (codecs M) buf (dec_state (vp_decoder (app_video app))) pics d'" and "pics \<noteq> []"
    and "\<forall>p \<in> set pics. picture_ok p" and "always_allocates (frame_memory M)"
    and "rend_initialized (app_renderer app)" and "card_takes (gfx M) (last pics) pitch"
    and "texture_there (app_renderer app) (last pics)"
    and "app2 = application_loop M [Video_Turn True, Idle] app"
  shows "\<exists>d. texture (app_renderer app2) = (pitch, d) \<and> texture_shows (last pics) pitch d \<and>
     drawn (app_renderer app2) = Suc (drawn (app_renderer app)) \<and> presented (app_ctx app2) = Suc (presented (app_ctx app))"
proof -
  let ?f = "nv12_of (frame_memory M) (last pics)"
  obtain vp where vp: "video_thread_turn (codecs M) (frame_memory M) True (app_video app) = Some vp"
    "fst (shared_frame_acquire (vp_frame vp)) = Some ?f"
    using video_turn_submits [OF assms(2-9)] by blast
  let ?a = "app\<lparr>app_video := vp\<rparr>"
  have t: "application_loop M [Video_Turn True, Idle] app = idle_turn M ?a"
    using assms(1) by (simp add: application_loop_def app_turn_def vp(1))
  obtain sf where sf: "shared_frame_acquire (vp_frame vp) = (Some ?f, sf)" using vp(2) by (cases "shared_frame_acquire (vp_frame vp)") simp
  let ?b = "new_dimensions M ?f (?a\<lparr>app_video := vp\<lparr>vp_frame := sf\<rparr>\<rparr>)"
  have r: "render_latest M ?a = draw M ?f ?b" by (simp add: render_latest_def take_frame_def sf)
  have "picture_ok (last pics)" using assms(7,8) by simp
  from picture_rendered [OF assms(10,11,12) this assms(9)] obtain rend1 d where
    "video_renderer_render (gfx M) (app_renderer app) ?f = Some (True, rend1)" "texture rend1 = (pitch, d)"
    "texture_shows (last pics) pitch d" "drawn rend1 = Suc (drawn (app_renderer app))" by blast
  then show ?thesis
    unfolding assms(13) t
    by (simp add: idle_turn_def process_keeps_picture r draw_def dimensions_keep d3d_context_end_frame_def)
qed

text \<open>An application in its loop, with three bytes on the video socket that are a picture of one pixel.\<close>

definition showing_app :: "(nat, nat, rat) application" where
  "showing_app =
     example_app\<lparr>app_video := (app_video example_app)
       \<lparr>vp_decoder := \<lparr>dec_parser = True, dec_codec = True, dec_state = 0\<rparr>, thread_alive := True, vp_running := True,
        vp_sock := (vp_sock (app_video example_app))\<lparr>video_fd := Some [Arrive [1, 2, 3]]\<rparr>\<rparr>\<rparr>"

lemma showing_app_fields:
  "looping showing_app" "app_running showing_app" "thread_alive (app_video showing_app)" "vp_running (app_video showing_app)"
  "video_fd (vp_sock (app_video showing_app)) = Some [Arrive [1, 2, 3]]"
  "vp_decoder (app_video showing_app) = \<lparr>dec_parser = True, dec_codec = True, dec_state = 0\<rparr>"
  "app_renderer showing_app = example_renderer" "app_ctx showing_app = new_context"
  by (simp_all add: showing_app_def example_app_def)

lemma example_machine_fields:
  "codecs example_machine = example_library" "frame_memory example_machine = (\<lambda>n. Some (replicate n 0))"
  "gfx example_machine = example_card"
  by (simp_all add: example_machine_def)

theorem socket_to_screen_witness:
  "\<exists>d. texture (app_renderer (application_loop example_machine [Video_Turn True, Idle] showing_app)) = (2048, d) \<and>
     d ! 0 = 1 \<and> drawn (app_renderer (application_loop example_machine [Video_Turn True, Idle] showing_app)) = 6"
proof -
  note f = showing_app_fields example_machine_fields
  have d: "decodes example_library [1, 2, 3] 0 [example_pixel 1] 1"
    using decodes.step [of "[1, 2, 3]" example_library 0 3 "[1, 2, 3]" 0 "Some (example_pixel 1)" 1 "[]" 1]
    by (simp add: example_library_def feed_decoder_def shown_def decodes.all_read)
  have p: "picture_ok (example_pixel 1)" by (simp add: picture_ok_def example_pixel_def)
  have m: "always_allocates (frame_memory example_machine)" by (simp add: f always_allocates_def)
  have c: "card_takes example_card (example_pixel 1) 2048"
    by (simp add: card_takes_def example_card_def example_pixel_def)
  have t: "texture_there example_renderer (example_pixel 1)" by (simp add: texture_there_def example_renderer_def)
  have "\<exists>d. texture (app_renderer (application_loop example_machine [Video_Turn True, Idle] showing_app)) = (2048, d) \<and>
      texture_shows (example_pixel 1) 2048 d \<and>
      drawn (app_renderer (application_loop example_machine [Video_Turn True, Idle] showing_app)) = 6"
    using socket_to_screen [of showing_app "[Arrive [1, 2, 3]]" "[1, 2, 3]" "[]" example_machine "[example_pixel 1]" 1 2048, OF _ _ _ _ _ _ _ _ m _ _ _ refl]
      d p c t by (simp add: f VIDEO_BUF_def example_renderer_def) blast
  then show ?thesis by (auto simp: texture_shows_def example_pixel_def)
qed

section \<open>The program\<close>

text \<open>
  \<open>main\<close>, \<open>src/main.c\<close>: \<open>files\<close> are the files that can be opened, \<open>mem\<close> what the stack held where the
  application's structure is put. The first two ends have the exit status 1 and no clean-up.
\<close>

datatype ('d, 'a, 'f) program_end =
    Bad_Options
  | Init_Failed "('d, 'a) teardown list"
  | Not_Ended
  | Exited int "('d, 'a) teardown list" "('d, 'a, 'f) application"

definition main_function ::
  "(string \<Rightarrow> string option) \<Rightarrow> ('d, 'a, 'f) init_env \<Rightarrow> ('d, 'a, 'f, 'g) machine \<Rightarrow> ('d, 'a, 'f) application \<Rightarrow>
     string list \<Rightarrow> turn list \<Rightarrow> ('d, 'a, 'f) program_end" where
  "main_function files env M mem args turns =
     (case cli_parse files args of
        None \<Rightarrow> Bad_Options
      | Some opts \<Rightarrow>
          (case application_init env mem opts of
             (False, ds, _) \<Rightarrow> Init_Failed ds
           | (True, _, app) \<Rightarrow>
               (case application_run M turns app of
                  None \<Rightarrow> Not_Ended
                | Some (code, app1) \<Rightarrow> (case application_destroy app1 of (ds, app2) \<Rightarrow> Exited code ds app2))))"



end
